theory Spec2Isabelle
  imports Complex_Main "HOL-Library.Word"
begin

unbundle bit_operations_syntax

section \<open>Values shared by the PDF device and its graphic-state stack\<close>

text \<open>
  This theory embeds the content-stream part of \<^verbatim>\<open>src/pdf/SkPDFDevice.cpp\<close>:
  the graphic-state stack \<^verbatim>\<open>GraphicStackState\<close>, the chain of
  \<^verbatim>\<open>ContentEntry\<close> objects of a device, and the resource tables.

  Scalars are exact rationals (rounding of \<^verbatim>\<open>SkScalar\<close> is not modelled).
  A stream (\<^verbatim>\<open>SkWStream\<close>) is the list of the write calls made on it, oldest
  first; every element stands for a non-empty run of bytes, so a stream has
  offset 0 exactly when the list is empty.  \<^verbatim>\<open>SkASSERT\<close> is modelled as it behaves
  in a debug build: a failed assertion ends the call with an error value; so does the
  use of a null pointer or of a pointer to a deleted object (\<open>BadPointer\<close>).
\<close>

type_synonym SkScalar = rat
type_synonym SkColor = "32 word"

datatype SkMatrix =
  SkMatrix SkScalar SkScalar SkScalar SkScalar SkScalar SkScalar SkScalar SkScalar SkScalar

datatype SkRect = SkRect SkScalar SkScalar SkScalar SkScalar

datatype SkIRect = SkIRect int int int int

datatype SkIPoint = SkIPoint (fX: int) (fY: int)

datatype FillType =
  kWinding_FillType | kEvenOdd_FillType | kInverseWinding_FillType | kInverseEvenOdd_FillType

datatype Op =
  kDifference_Op | kIntersect_Op | kUnion_Op | kXOR_Op | kReverseDifference_Op | kReplace_Op

datatype Style = kFill_Style | kStroke_Style | kStrokeAndFill_Style

record SkPath =
  fFillType :: FillType
  fPoints :: "(SkScalar \<times> SkScalar) list"

datatype SkRegion = SkRegion "SkIRect list"

text \<open>One element of a clip stack as \<^verbatim>\<open>SkClipStack::B2FIter\<close> yields it: a rectangle
  or a path (a null pointer is \<open>None\<close>) and the combine op.\<close>

record Clip =
  fRect :: "SkRect option"
  fPath :: "SkPath option"
  fOp :: Op

text \<open>Modelled from the spec: \<^verbatim>\<open>SkClipStack\<close> is declared outside the sources;
  it is the ordered list of clip operations, bottom first, and two clip stacks are
  equal when their lists are.\<close>

type_synonym SkClipStack = "Clip list"

datatype pdf_op =
    WriteText string
  | WriteDecAsText int
  | ScalarAppend SkScalar
  | EmitPath SkPath
  | AppendRectangle SkRect
  | AppendTransform SkMatrix
  | ApplyGraphicState int
  | DrawFormXObject int
  | PaintPath Style FillType

type_synonym SkWStream = "pdf_op list"

datatype error =
    AssertStackDepth
  | AssertStackNotEmpty
  | AssertClipPrefix
  | AssertBoundaryPath
  | AssertClipShape
  | AssertClipOp
  | AssertMatrixFrame
  | AssertOpaqueColor
  | AssertPathEffect
  | AssertChain
  | AssertDst
  | BadPointer

definition bindE :: "error + 'a \<Rightarrow> ('a \<Rightarrow> error + 'b) \<Rightarrow> error + 'b" where
  "bindE m f = (case m of Inl e \<Rightarrow> Inl e | Inr a \<Rightarrow> f a)"

text \<open>The geometry collaborators (\<^verbatim>\<open>SkMatrix\<close>, \<^verbatim>\<open>SkPath\<close>, \<^verbatim>\<open>SkRegion\<close>) are not part
  of the sources; the functions of theirs that the device calls are parameters.
  \<open>getBoundaryPath\<close> is \<open>None\<close> where the C++ function returns false.\<close>

record geometry =
  mapRect :: "SkMatrix \<Rightarrow> SkRect \<Rightarrow> SkRect"
  transformPath :: "SkMatrix \<Rightarrow> SkPath \<Rightarrow> SkPath"
  getBoundaryPath :: "SkRegion \<Rightarrow> SkPath option"
  regionIsEmpty :: "SkRegion \<Rightarrow> bool"
  regionGetBounds :: "SkRegion \<Rightarrow> SkIRect"
  preConcat :: "SkMatrix \<Rightarrow> SkMatrix \<Rightarrow> SkMatrix"
  invert :: "SkMatrix \<Rightarrow> SkMatrix option"

definition matrix_reset :: SkMatrix where
  "matrix_reset = SkMatrix 1 0 0 0 1 0 0 0 1"

definition setTranslate :: "SkScalar \<Rightarrow> SkScalar \<Rightarrow> SkMatrix" where
  "setTranslate dx dy = SkMatrix 1 0 dx 0 1 dy 0 0 1"

text \<open>\<^verbatim>\<open>m.getType() == SkMatrix::kIdentity_Mask\<close>: the type mask of a matrix is empty
  exactly for the identity matrix.\<close>

definition isIdentity :: "SkMatrix \<Rightarrow> bool" where
  "isIdentity m = (m = matrix_reset)"

definition isInverseFillType :: "SkPath \<Rightarrow> bool" where
  "isInverseFillType p =
     (fFillType p = kInverseWinding_FillType \<or> fFillType p = kInverseEvenOdd_FillType)"

definition SkColorGetA :: "SkColor \<Rightarrow> nat" where
  "SkColorGetA c = unat (drop_bit 24 c AND 0xFF)"

definition SkColorGetR :: "SkColor \<Rightarrow> nat" where
  "SkColorGetR c = unat (drop_bit 16 c AND 0xFF)"

definition SkColorGetG :: "SkColor \<Rightarrow> nat" where
  "SkColorGetG c = unat (drop_bit 8 c AND 0xFF)"

definition SkColorGetB :: "SkColor \<Rightarrow> nat" where
  "SkColorGetB c = unat (c AND 0xFF)"

definition SkColorSetA :: "SkColor \<Rightarrow> SkColor \<Rightarrow> SkColor" where
  "SkColorSetA c a = (c AND 0x00FFFFFF) OR push_bit 24 a"

definition SK_ColorBLACK :: SkColor where
  "SK_ColorBLACK = 0xFF000000"

definition emit_pdf_color :: "SkColor \<Rightarrow> SkWStream \<Rightarrow> error + SkWStream" where
  "emit_pdf_color color result =
     (if SkColorGetA color \<noteq> 0xFF then Inl AssertOpaqueColor
      else Inr (result @
        [ScalarAppend (of_nat (SkColorGetR color) / 255), WriteText '' '',
         ScalarAppend (of_nat (SkColorGetG color) / 255), WriteText '' '',
         ScalarAppend (of_nat (SkColorGetB color) / 255), WriteText '' '']))"

section \<open>GraphicStateEntry and the graphic-state stack\<close>

record GraphicStateEntry =
  fMatrix :: SkMatrix
  fClipStack :: SkClipStack
  fClipRegion :: SkRegion
  fColor :: SkColor
  fTextScaleX :: SkScalar
  fTextFill :: Style
  fShaderIndex :: int
  fGraphicStateIndex :: int
  fFont :: "nat option"
  fTextSize :: "SkScalar option"

text \<open>The constructor \<^verbatim>\<open>GraphicStateEntry::GraphicStateEntry()\<close>; the text size NaN is
  \<open>None\<close>.\<close>

definition GraphicStateEntry_new :: GraphicStateEntry where
  "GraphicStateEntry_new =
     \<lparr>fMatrix = matrix_reset, fClipStack = [], fClipRegion = SkRegion [],
      fColor = SK_ColorBLACK, fTextScaleX = 1, fTextFill = kFill_Style,
      fShaderIndex = - 1, fGraphicStateIndex = - 1, fFont = None, fTextSize = None\<rparr>"

definition compareInitialState :: "GraphicStateEntry \<Rightarrow> GraphicStateEntry \<Rightarrow> bool" where
  "compareInitialState a b =
     (fColor a = fColor b \<and>
      fShaderIndex a = fShaderIndex b \<and>
      fGraphicStateIndex a = fGraphicStateIndex b \<and>
      fMatrix a = fMatrix b \<and>
      fClipStack a = fClipStack b \<and>
      (fTextScaleX a = 0 \<or>
       fTextScaleX b = 0 \<or>
       (fTextScaleX a = fTextScaleX b \<and> fTextFill a = fTextFill b)))"

definition kMaxStackDepth :: nat where
  "kMaxStackDepth = 12"

record GraphicStackState =
  fEntries :: "GraphicStateEntry list"
  fStackDepth :: nat
  fContentStream :: SkWStream

definition GraphicStackState_new ::
  "SkClipStack \<Rightarrow> SkRegion \<Rightarrow> SkWStream \<Rightarrow> GraphicStackState" where
  "GraphicStackState_new existingClipStack existingClipRegion contentStream =
     \<lparr>fEntries = (replicate (kMaxStackDepth + 1) GraphicStateEntry_new)
        [0 := GraphicStateEntry_new\<lparr>fClipStack := existingClipStack,
                                     fClipRegion := existingClipRegion\<rparr>],
      fStackDepth = 0,
      fContentStream = contentStream\<rparr>"

definition currentEntry :: "GraphicStackState \<Rightarrow> GraphicStateEntry" where
  "currentEntry s = fEntries s ! fStackDepth s"

definition setCurrentEntry :: "GraphicStateEntry \<Rightarrow> GraphicStackState \<Rightarrow> GraphicStackState" where
  "setCurrentEntry e s = s\<lparr>fEntries := (fEntries s)[fStackDepth s := e]\<rparr>"

definition writeOps :: "pdf_op list \<Rightarrow> GraphicStackState \<Rightarrow> GraphicStackState" where
  "writeOps ops s = s\<lparr>fContentStream := fContentStream s @ ops\<rparr>"

definition push :: "GraphicStackState \<Rightarrow> error + GraphicStackState" where
  "push s =
     (if \<not> fStackDepth s < kMaxStackDepth then Inl AssertStackDepth
      else Inr (s\<lparr>fContentStream := fContentStream s @ [WriteText ''q\<newline>''],
                  fStackDepth := fStackDepth s + 1,
                  fEntries := (fEntries s)[fStackDepth s + 1 := fEntries s ! fStackDepth s]\<rparr>))"

definition pop :: "GraphicStackState \<Rightarrow> error + GraphicStackState" where
  "pop s =
     (if \<not> fStackDepth s > 0 then Inl AssertStackNotEmpty
      else Inr (s\<lparr>fContentStream := fContentStream s @ [WriteText ''Q\<newline>''],
                  fStackDepth := fStackDepth s - 1\<rparr>))"

function drainStack :: "GraphicStackState \<Rightarrow> error + GraphicStackState" where
  "drainStack s =
     (if fStackDepth s \<noteq> 0
      then (case pop s of Inl e \<Rightarrow> Inl e | Inr s' \<Rightarrow> drainStack s')
      else Inr s)"
  by pat_completeness auto
termination
  by (relation "measure fStackDepth") (auto simp: pop_def split: if_splits)

declare drainStack.simps [simp del]

fun skip_clip_stack_prefix :: "SkClipStack \<Rightarrow> SkClipStack \<Rightarrow> error + Clip list" where
  "skip_clip_stack_prefix [] stack = Inr stack"
| "skip_clip_stack_prefix (prefixEntry # prefix) [] = Inl AssertClipPrefix"
| "skip_clip_stack_prefix (prefixEntry # prefix) (iterEntry # stack) =
     (if prefixEntry = iterEntry then skip_clip_stack_prefix prefix stack
      else Inl AssertClipPrefix)"

text \<open>\<^verbatim>\<open>NOT_IMPLEMENTED(cond, false)\<close> only prints a diagnostic; it writes nothing to
  the stream and does not end the call.\<close>

definition emit_clip :: "SkPath option \<Rightarrow> SkRect option \<Rightarrow> SkWStream \<Rightarrow> error + SkWStream" where
  "emit_clip clipPath clipRect contentStream =
     (case clipPath of
        Some p \<Rightarrow>
          Inr (contentStream @ [EmitPath p] @
               (if fFillType p = kEvenOdd_FillType then [WriteText ''W* n\<newline>'']
                else [WriteText ''W n\<newline>'']))
      | None \<Rightarrow>
          (case clipRect of
             Some r \<Rightarrow> Inr (contentStream @ [AppendRectangle r] @ [WriteText ''W n\<newline>''])
           | None \<Rightarrow> Inl AssertClipShape))"

text \<open>The loop of \<^verbatim>\<open>updateClip\<close> that pops until the clip stack of the current entry is
  the requested one; the flag says that the function returned from inside the loop.\<close>

function updateClip_pop :: "SkClipStack \<Rightarrow> GraphicStackState \<Rightarrow> error + (bool \<times> GraphicStackState)" where
  "updateClip_pop clipStack s =
     (if fStackDepth s > 0
      then (case pop s of
              Inl e \<Rightarrow> Inl e
            | Inr s' \<Rightarrow>
                if clipStack = fClipStack (currentEntry s') then Inr (True, s')
                else updateClip_pop clipStack s')
      else Inr (False, s))"
  by pat_completeness auto
termination
  by (relation "measure (\<lambda>(c, s). fStackDepth s)") (auto simp: pop_def split: if_splits)

declare updateClip_pop.simps [simp del]

text \<open>The first loop over the clips that follow the prefix: does any of them need the
  region?\<close>

fun needRegion :: "Clip list \<Rightarrow> bool" where
  "needRegion [] = False"
| "needRegion (clipEntry # iter) =
     (if fOp clipEntry \<noteq> kIntersect_Op \<or>
         (case fPath clipEntry of Some p \<Rightarrow> isInverseFillType p | None \<Rightarrow> False)
      then True
      else needRegion iter)"

text \<open>The second loop: one clip instruction per element.\<close>

fun emit_clip_entries ::
  "geometry \<Rightarrow> SkMatrix \<Rightarrow> Clip list \<Rightarrow> SkWStream \<Rightarrow> error + SkWStream" where
  "emit_clip_entries G transform [] out = Inr out"
| "emit_clip_entries G transform (clipEntry # iter) out =
     (if fOp clipEntry \<noteq> kIntersect_Op then Inl AssertClipOp
      else
        (case fRect clipEntry of
           Some r \<Rightarrow>
             bindE (emit_clip None (Some (mapRect G transform r)) out)
               (emit_clip_entries G transform iter)
         | None \<Rightarrow>
             (case fPath clipEntry of
                Some p \<Rightarrow>
                  bindE (emit_clip (Some (transformPath G transform p)) None out)
                    (emit_clip_entries G transform iter)
              | None \<Rightarrow> Inl AssertClipShape)))"

definition updateClip ::
  "geometry \<Rightarrow> SkClipStack \<Rightarrow> SkRegion \<Rightarrow> SkIPoint \<Rightarrow> GraphicStackState
     \<Rightarrow> error + GraphicStackState" where
  "updateClip G clipStack clipRegion translation s =
     (if clipStack = fClipStack (currentEntry s) then Inr s
      else
        bindE (updateClip_pop clipStack s) (\<lambda>(returned, s1).
          if returned then Inr s1
          else
            bindE (push s1) (\<lambda>s2.
            bindE (skip_clip_stack_prefix (fClipStack (fEntries s2 ! 0)) clipStack) (\<lambda>iter.
            bindE
              (if needRegion iter
               then (case getBoundaryPath G clipRegion of
                       None \<Rightarrow> Inl AssertBoundaryPath
                     | Some clipPath \<Rightarrow> emit_clip (Some clipPath) None (fContentStream s2))
               else
                 bindE (skip_clip_stack_prefix (fClipStack (fEntries s2 ! 0)) clipStack) (\<lambda>iter2.
                   emit_clip_entries G
                     (setTranslate (of_int (fX translation)) (of_int (fY translation)))
                     iter2 (fContentStream s2)))
              (\<lambda>out.
                 Inr (setCurrentEntry
                        ((currentEntry s2)\<lparr>fClipStack := clipStack, fClipRegion := clipRegion\<rparr>)
                        (s2\<lparr>fContentStream := out\<rparr>)))))))"

definition updateMatrix :: "SkMatrix \<Rightarrow> GraphicStackState \<Rightarrow> error + GraphicStackState" where
  "updateMatrix matrix s =
     (if matrix = fMatrix (currentEntry s) then Inr s
      else
        bindE
          (if \<not> isIdentity (fMatrix (currentEntry s))
           then
             (if \<not> fStackDepth s > 0 then Inl AssertStackNotEmpty
              else if fClipStack (fEntries s ! fStackDepth s) \<noteq>
                      fClipStack (fEntries s ! (fStackDepth s - 1)) then Inl AssertMatrixFrame
              else
                bindE (pop s) (\<lambda>s1.
                  if isIdentity (fMatrix (currentEntry s1)) then Inr s1
                  else Inl AssertMatrixFrame))
           else Inr s)
          (\<lambda>s1.
             if isIdentity matrix then Inr s1
             else
               bindE (push s1) (\<lambda>s2.
                 Inr (setCurrentEntry ((currentEntry s2)\<lparr>fMatrix := matrix\<rparr>)
                        (writeOps [AppendTransform matrix] s2)))))"

definition style_value :: "Style \<Rightarrow> int" where
  "style_value st =
     (case st of kFill_Style \<Rightarrow> 0 | kStroke_Style \<Rightarrow> 1 | kStrokeAndFill_Style \<Rightarrow> 2)"

text \<open>The three parts of \<^verbatim>\<open>updateDrawingState\<close>, in the order of the source: the fill
  source (a shader or a colour), the graphic state, the text state.\<close>

definition updateDrawingState_fill ::
  "GraphicStateEntry \<Rightarrow> GraphicStackState \<Rightarrow> error + GraphicStackState" where
  "updateDrawingState_fill state s =
     (if fShaderIndex state \<ge> 0 then
        (if fShaderIndex state \<noteq> fShaderIndex (currentEntry s) then
           Inr (setCurrentEntry ((currentEntry s)\<lparr>fShaderIndex := fShaderIndex state\<rparr>)
                  (writeOps
                     [WriteText ''/Pattern CS /Pattern cs /P'',
                      WriteDecAsText (fShaderIndex state),
                      WriteText '' SCN /P'',
                      WriteDecAsText (fShaderIndex state),
                      WriteText '' scn\<newline>''] s))
         else Inr s)
      else
        (if fColor state \<noteq> fColor (currentEntry s) \<or> fShaderIndex (currentEntry s) \<ge> 0 then
           bindE (emit_pdf_color (fColor state) (fContentStream s)) (\<lambda>out1.
           bindE (emit_pdf_color (fColor state) (out1 @ [WriteText ''RG ''])) (\<lambda>out2.
             Inr (setCurrentEntry
                    ((currentEntry s)\<lparr>fColor := fColor state, fShaderIndex := - 1\<rparr>)
                    (s\<lparr>fContentStream := out2 @ [WriteText ''rg\<newline>'']\<rparr>))))
         else Inr s))"

definition updateDrawingState_gs ::
  "GraphicStateEntry \<Rightarrow> GraphicStackState \<Rightarrow> GraphicStackState" where
  "updateDrawingState_gs state s =
     (if fGraphicStateIndex state \<noteq> fGraphicStateIndex (currentEntry s) then
        setCurrentEntry ((currentEntry s)\<lparr>fGraphicStateIndex := fGraphicStateIndex state\<rparr>)
          (writeOps [ApplyGraphicState (fGraphicStateIndex state)] s)
      else s)"

definition updateDrawingState_text ::
  "GraphicStateEntry \<Rightarrow> GraphicStackState \<Rightarrow> GraphicStackState" where
  "updateDrawingState_text state s =
     (if fTextScaleX state \<noteq> 0 then
        (let s1 =
           (if fTextScaleX state \<noteq> fTextScaleX (currentEntry s) then
              setCurrentEntry ((currentEntry s)\<lparr>fTextScaleX := fTextScaleX state\<rparr>)
                (writeOps [ScalarAppend (fTextScaleX state * 100), WriteText '' Tz\<newline>''] s)
            else s)
         in
           (if fTextFill state \<noteq> fTextFill (currentEntry s1) then
              setCurrentEntry ((currentEntry s1)\<lparr>fTextFill := fTextFill state\<rparr>)
                (writeOps [WriteDecAsText (style_value (fTextFill state)),
                           WriteText '' Tr\<newline>''] s1)
            else s1))
      else s)"

definition updateDrawingState ::
  "GraphicStateEntry \<Rightarrow> GraphicStackState \<Rightarrow> error + GraphicStackState" where
  "updateDrawingState state s =
     bindE (updateDrawingState_fill state s) (\<lambda>s1.
       Inr (updateDrawingState_text state (updateDrawingState_gs state s1)))"

section \<open>Notions used to state the properties of the stack\<close>

definition opSave :: pdf_op where "opSave = WriteText ''q\<newline>''"
definition opRestore :: pdf_op where "opRestore = WriteText ''Q\<newline>''"

definition balanced_step :: "GraphicStackState \<Rightarrow> GraphicStackState \<Rightarrow> bool" where
  "balanced_step s s' =
     (\<exists>e. fContentStream s' = fContentStream s @ e \<and>
          count_list e opSave + fStackDepth s = count_list e opRestore + fStackDepth s')"

definition clip_instruction :: "geometry \<Rightarrow> SkMatrix \<Rightarrow> Clip \<Rightarrow> pdf_op list" where
  "clip_instruction G transform c =
     (case fRect c of
        Some r \<Rightarrow> [AppendRectangle (mapRect G transform r), WriteText ''W n\<newline>'']
      | None \<Rightarrow>
          (case fPath c of
             Some p \<Rightarrow>
               [EmitPath (transformPath G transform p),
                WriteText (if fFillType (transformPath G transform p) = kEvenOdd_FillType
                           then ''W* n\<newline>'' else ''W n\<newline>'')]
           | None \<Rightarrow> []))"

definition region_clip_instruction :: "SkPath \<Rightarrow> pdf_op list" where
  "region_clip_instruction boundary =
     [EmitPath boundary,
      WriteText (if fFillType boundary = kEvenOdd_FillType
                 then ''W* n\<newline>'' else ''W n\<newline>'')]"

definition needs_region :: "Clip \<Rightarrow> bool" where
  "needs_region c =
     (fOp c \<noteq> kIntersect_Op \<or>
      (case fPath c of Some p \<Rightarrow> isInverseFillType p | None \<Rightarrow> False))"

definition wf_stack :: "GraphicStackState \<Rightarrow> bool" where
  "wf_stack s = (length (fEntries s) = kMaxStackDepth + 1 \<and> fStackDepth s \<le> kMaxStackDepth)"

definition quiet :: "pdf_op list \<Rightarrow> bool" where
  "quiet e = (opSave \<notin> set e \<and> opRestore \<notin> set e)"

datatype stack_op =
    OpPush
  | OpPop
  | OpUpdateClip SkClipStack SkRegion SkIPoint
  | OpUpdateMatrix SkMatrix
  | OpUpdateDrawingState GraphicStateEntry

fun apply_stack_op :: "geometry \<Rightarrow> stack_op \<Rightarrow> GraphicStackState \<Rightarrow> error + GraphicStackState" where
  "apply_stack_op G OpPush s = push s"
| "apply_stack_op G OpPop s = pop s"
| "apply_stack_op G (OpUpdateClip clipStack clipRegion translation) s =
     updateClip G clipStack clipRegion translation s"
| "apply_stack_op G (OpUpdateMatrix matrix) s = updateMatrix matrix s"
| "apply_stack_op G (OpUpdateDrawingState state) s = updateDrawingState state s"

fun run_stack_ops :: "geometry \<Rightarrow> stack_op list \<Rightarrow> GraphicStackState \<Rightarrow> error + GraphicStackState" where
  "run_stack_ops G [] s = Inr s"
| "run_stack_ops G (x # xs) s = bindE (apply_stack_op G x s) (run_stack_ops G xs)"

definition G0 :: geometry where
  "G0 = \<lparr>mapRect = (\<lambda>m r. r), transformPath = (\<lambda>m p. p),
         getBoundaryPath = (\<lambda>r. Some \<lparr>fFillType = kWinding_FillType, fPoints = []\<rparr>),
         regionIsEmpty = (\<lambda>r. r = SkRegion []),
         regionGetBounds = (\<lambda>r. SkIRect 0 0 0 0),
         preConcat = (\<lambda>a b. a), invert = (\<lambda>a. Some a)\<rparr>"

definition sW :: GraphicStackState where
  "sW = GraphicStackState_new [] (SkRegion []) []"

definition fill_applied :: "GraphicStateEntry \<Rightarrow> GraphicStateEntry \<Rightarrow> bool" where
  "fill_applied st cur =
     (if fShaderIndex st \<ge> 0 then fShaderIndex cur = fShaderIndex st
      else fColor cur = fColor st \<and> fShaderIndex cur < 0)"

definition text_applied :: "GraphicStateEntry \<Rightarrow> GraphicStateEntry \<Rightarrow> bool" where
  "text_applied st cur =
     (fTextScaleX st = 0 \<or> (fTextScaleX cur = fTextScaleX st \<and> fTextFill cur = fTextFill st))"

definition plain_clip :: "Clip \<Rightarrow> bool" where
  "plain_clip c =
     (fOp c = kIntersect_Op \<and> (fRect c \<noteq> None \<or> fPath c \<noteq> None) \<and>
      (case fPath c of Some p \<Rightarrow> \<not> isInverseFillType p | None \<Rightarrow> True))"

definition clip_in_effect :: "SkClipStack \<Rightarrow> GraphicStackState \<Rightarrow> bool" where
  "clip_in_effect clipStack s =
     list_ex (\<lambda>d. fClipStack (fEntries s ! d) = clipStack) [0..<fStackDepth s + 1]"

definition GT :: geometry where
  "GT = \<lparr>mapRect = (\<lambda>m r. case m of SkMatrix a b tx c d ty p q w \<Rightarrow>
                        (case r of SkRect l t r' b' \<Rightarrow> SkRect (l + tx) (t + ty) (r' + tx) (b' + ty))),
         transformPath = (\<lambda>m p. case m of SkMatrix a b tx c d ty p' q w \<Rightarrow>
                        p\<lparr>fPoints := map (\<lambda>(x, y). (x + tx, y + ty)) (fPoints p)\<rparr>),
         getBoundaryPath = (\<lambda>r. if r = SkRegion [] then None
                                  else Some \<lparr>fFillType = kWinding_FillType, fPoints = [(0, 0)]\<rparr>),
         regionIsEmpty = (\<lambda>r. r = SkRegion []),
         regionGetBounds = (\<lambda>r. SkIRect 0 0 100 100),
         preConcat = (\<lambda>a b. a), invert = (\<lambda>a. Some a)\<rparr>"

definition clipA :: Clip where
  "clipA = \<lparr>fRect = Some (SkRect 0 0 100 100), fPath = None, fOp = kIntersect_Op\<rparr>"

definition clipB :: Clip where
  "clipB = \<lparr>fRect = Some (SkRect 10 10 50 50), fPath = None, fOp = kIntersect_Op\<rparr>"

definition clipC :: Clip where
  "clipC = \<lparr>fRect = None,
            fPath = Some \<lparr>fFillType = kEvenOdd_FillType, fPoints = [(0, 0), (10, 0), (10, 10)]\<rparr>,
            fOp = kIntersect_Op\<rparr>"

definition clipD :: Clip where
  "clipD = \<lparr>fRect = Some (SkRect 20 20 30 30), fPath = None, fOp = kDifference_Op\<rparr>"

definition regionW :: SkRegion where
  "regionW = SkRegion [SkIRect 0 0 100 100]"

definition sA :: GraphicStackState where
  "sA = GraphicStackState_new [clipA] regionW []"

definition stateW :: GraphicStateEntry where
  "stateW = GraphicStateEntry_new\<lparr>fColor := 0xFF336699, fGraphicStateIndex := 0,
                                  fTextScaleX := 2, fTextFill := kStroke_Style\<rparr>"

section \<open>The device: paints, content entries, resources\<close>

datatype Mode =
    kClear_Mode | kSrc_Mode | kDst_Mode | kSrcOver_Mode | kDstOver_Mode
  | kSrcIn_Mode | kDstIn_Mode | kSrcOut_Mode | kDstOut_Mode
  | kSrcATop_Mode | kDstATop_Mode | kXor_Mode | kPlus_Mode | kMultiply_Mode
  | kScreen_Mode | kOverlay_Mode | kDarken_Mode | kLighten_Mode
  | kColorDodge_Mode | kColorBurn_Mode | kHardLight_Mode | kSoftLight_Mode
  | kDifference_Mode | kExclusion_Mode

text \<open>A transfer mode object: \<^verbatim>\<open>asMode\<close> succeeds on the first kind only.\<close>

datatype SkXfermode = ProcCoeffXfermode Mode | OtherXfermode

text \<open>The attributes of \<^verbatim>\<open>SkPaint\<close> that the device reads; a shader and a path effect
  are pointers (\<open>None\<close> is the null pointer), \<open>getOther\<close> stands for the rest
  (stroke width, alpha of the colour is part of \<open>getColor\<close>).\<close>

record SkPaint =
  getColor :: SkColor
  getShader :: "nat option"
  getXfermode :: "SkXfermode option"
  getStyle :: Style
  getTextScaleX :: SkScalar
  getPathEffect :: "nat option"
  getOther :: nat

text \<open>The paint that the default constructor \<^verbatim>\<open>SkPaint()\<close> builds.\<close>

definition stockPaint :: SkPaint where
  "stockPaint =
     \<lparr>getColor = SK_ColorBLACK, getShader = None, getXfermode = None, getStyle = kFill_Style,
      getTextScaleX = 1, getPathEffect = None, getOther = 0\<rparr>"

text \<open>\<^verbatim>\<open>SkXfermode::Mode xfermode = kSrcOver_Mode; if (paint.getXfermode())
  paint.getXfermode()->asMode(&xfermode);\<close>\<close>

definition paintMode :: "SkPaint \<Rightarrow> Mode" where
  "paintMode paint =
     (case getXfermode paint of
        None \<Rightarrow> kSrcOver_Mode
      | Some OtherXfermode \<Rightarrow> kSrcOver_Mode
      | Some (ProcCoeffXfermode m) \<Rightarrow> m)"

record ContentEntry =
  fState :: GraphicStateEntry
  fContent :: SkWStream
  fNext :: "nat option"

definition ContentEntry_new :: ContentEntry where
  "ContentEntry_new = \<lparr>fState = GraphicStateEntry_new, fContent = [], fNext = None\<rparr>"

text \<open>A pointer to a \<^verbatim>\<open>SkPDFGraphicState\<close>: the canonical object of a paint (named by
  the number the canonicalizer gives it), an object made by
  \<^verbatim>\<open>getSMaskGraphicState\<close> (which makes a new object at every call; named by its place
  among the objects created), or the one object of \<^verbatim>\<open>getNoSMaskGraphicState\<close>.\<close>

datatype GraphicStateRef = ForPaint nat | SMask nat | NoSMask

text \<open>Modelled from the spec: the classes \<^verbatim>\<open>SkPDFFormXObject\<close> and
  \<^verbatim>\<open>SkPDFGraphicState\<close> are not part of the sources.  A form XObject built from a
  device holds the content of the device at that moment (its content entries and its
  resource tables); a soft-mask graphic state holds the form XObject that is its mask
  and the invert flag.\<close>

record DeviceContent =
  dcEntries :: "ContentEntry list"
  dcHead :: "nat option"
  dcGraphicStates :: "GraphicStateRef list"
  dcXObjects :: "nat list"
  dcFonts :: "nat list"
  dcShaders :: "nat list"

text \<open>\<^verbatim>\<open>SkBitmap\<close> is declared outside the sources: its size and its pixels.\<close>

record SkBitmap =
  bitmapWidth :: int
  bitmapHeight :: int
  bitmapPixels :: nat

text \<open>Modelled from the spec: \<^verbatim>\<open>SkPDFImage\<close> is not part of the sources.  The image module
  provides the creation of an embeddable image object from pixel data and a source
  sub-rectangle; the object holds both.\<close>

datatype SkPDFObject =
    SkPDFFormXObject DeviceContent
  | SMaskGraphicState nat bool
  | SkPDFImage SkBitmap SkIRect

text \<open>The device.  Its members are those of the class; the pointers \<open>fContentEntries\<close>
  and \<open>fLastContentEntry\<close> are addresses in \<open>heapEntries\<close>, the store of the
  \<^verbatim>\<open>ContentEntry\<close> objects (\<^verbatim>\<open>new\<close> adds one at the end, its address is its index), and
  \<open>heapObjects\<close> is the store of the PDF objects made with \<^verbatim>\<open>new\<close>, in the order of
  their creation (reference counts are not modelled).\<close>

record SkPDFDevice =
  fPageSize :: "int \<times> int"
  fContentSize :: "int \<times> int"
  fWidth :: int
  fHeight :: int
  fOrigin :: SkIPoint
  fInitialTransform :: SkMatrix
  fExistingClipStack :: SkClipStack
  fExistingClipRegion :: SkRegion
  fResourceDict :: "nat option"
  fGraphicStateResources :: "GraphicStateRef list"
  fXObjectResources :: "nat list"
  fFontResources :: "nat list"
  fShaderResources :: "nat list"
  fContentEntries :: "nat option"
  fLastContentEntry :: "nat option"
  heapEntries :: "ContentEntry list"
  heapObjects :: "SkPDFObject list"

text \<open>The canonicalizers and the other collaborators of the device that are not part of
  the sources, as parameters: \<^verbatim>\<open>SkPDFShader::getPDFShader\<close> (null is \<open>None\<close>),
  \<^verbatim>\<open>shader->asAGradient\<close> (the colour when the shader is a colour shader),
  \<^verbatim>\<open>SkPDFGraphicState::getGraphicStateForPaint\<close>, \<^verbatim>\<open>SkPDFFont::getFontResource\<close>,
  \<^verbatim>\<open>SkMatrix::postConcat\<close>.\<close>

record factories =
  getPDFShader :: "nat \<Rightarrow> SkMatrix \<Rightarrow> SkIRect \<Rightarrow> nat option"
  asColorGradient :: "nat \<Rightarrow> SkColor option"
  getGraphicStateForPaint :: "SkPaint \<Rightarrow> nat"
  getFontResource :: "nat \<Rightarrow> nat \<Rightarrow> nat"
  postConcat :: "SkMatrix \<Rightarrow> SkMatrix \<Rightarrow> SkMatrix"

text \<open>Modelled from the spec: \<^verbatim>\<open>SkTDArray\<close> is declared outside the sources.
  \<^verbatim>\<open>find\<close> is a linear search for an equal element: the index of the first one, or
  \<open>-1\<close>; \<^verbatim>\<open>push\<close> appends; \<^verbatim>\<open>count\<close> is the length.\<close>

fun SkTDArray_find :: "'a list \<Rightarrow> 'a \<Rightarrow> int" where
  "SkTDArray_find [] elem = - 1"
| "SkTDArray_find (x # xs) elem =
     (if x = elem then 0
      else (let r = SkTDArray_find xs elem in if r < 0 then - 1 else r + 1))"

definition SkTDArray_count :: "'a list \<Rightarrow> int" where
  "SkTDArray_count xs = int (length xs)"

definition init :: "SkPDFDevice \<Rightarrow> SkPDFDevice" where
  "init d = d\<lparr>fResourceDict := None, fContentEntries := None, fLastContentEntry := None,
              heapEntries := []\<rparr>"

definition cleanUp :: "SkPDFDevice \<Rightarrow> SkPDFDevice" where
  "cleanUp d = d\<lparr>fGraphicStateResources := [], fXObjectResources := [],
                 fFontResources := [], fShaderResources := []\<rparr>"

definition addGraphicStateResource :: "GraphicStateRef \<Rightarrow> SkPDFDevice \<Rightarrow> int \<times> SkPDFDevice" where
  "addGraphicStateResource gs d =
     (let result = SkTDArray_find (fGraphicStateResources d) gs in
      if result < 0
      then (SkTDArray_count (fGraphicStateResources d),
            d\<lparr>fGraphicStateResources := fGraphicStateResources d @ [gs]\<rparr>)
      else (result, d))"


text \<open>The part of \<^verbatim>\<open>populateGraphicStateEntryFromPaint\<close> that registers the shader
  (the branch \<^verbatim>\<open>if (pdfShader)\<close>).\<close>

definition addShaderResource :: "nat \<Rightarrow> SkPDFDevice \<Rightarrow> int \<times> SkPDFDevice" where
  "addShaderResource pdfShader d =
     (let resourceIndex = SkTDArray_find (fShaderResources d) pdfShader in
      if resourceIndex < 0
      then (SkTDArray_count (fShaderResources d),
            d\<lparr>fShaderResources := fShaderResources d @ [pdfShader]\<rparr>)
      else (resourceIndex, d))"

definition populateGraphicStateEntryFromPaint ::
  "geometry \<Rightarrow> factories \<Rightarrow> SkMatrix \<Rightarrow> SkClipStack \<Rightarrow> SkRegion \<Rightarrow> SkPaint \<Rightarrow> bool
     \<Rightarrow> GraphicStateEntry \<Rightarrow> SkPDFDevice \<Rightarrow> error + (GraphicStateEntry \<times> SkPDFDevice)" where
  "populateGraphicStateEntryFromPaint G F matrix clipStack clipRegion paint hasText entry d =
     (if getPathEffect paint \<noteq> None then Inl AssertPathEffect
      else
        (let entry1 = entry\<lparr>fMatrix := matrix, fClipStack := clipStack,
                            fClipRegion := clipRegion\<rparr>;
             (pdfShader, color, entry2) =
               (case getShader paint of
                  None \<Rightarrow> (None, getColor paint, entry1)
                | Some shader \<Rightarrow>
                    (case getPDFShader F shader (postConcat F matrix (fInitialTransform d))
                            (regionGetBounds G clipRegion) of
                       Some s \<Rightarrow> (Some s, getColor paint, entry1)
                     | None \<Rightarrow>
                         (case asColorGradient F shader of
                            Some gradientColor \<Rightarrow>
                              (None, gradientColor,
                               entry1\<lparr>fColor := SkColorSetA gradientColor 0xFF\<rparr>)
                          | None \<Rightarrow> (None, 0, entry1\<lparr>fColor := 0\<rparr>))));
             (entry3, color3, d1) =
               (case pdfShader of
                  Some s \<Rightarrow>
                    (let (resourceIndex, d') = addShaderResource s d
                     in (entry2\<lparr>fShaderIndex := resourceIndex\<rparr>, color, d'))
                | None \<Rightarrow>
                    (entry2\<lparr>fShaderIndex := - 1,
                            fColor := SkColorSetA (getColor paint) 0xFF\<rparr>,
                     getColor paint, d));
             newGraphicState =
               (if color3 = getColor paint then getGraphicStateForPaint F paint
                else getGraphicStateForPaint F (paint\<lparr>getColor := color3\<rparr>));
             (resourceIndex, d2) = addGraphicStateResource (ForPaint newGraphicState) d1;
             entry4 = entry3\<lparr>fGraphicStateIndex := resourceIndex\<rparr>
         in Inr (if hasText
                 then entry4\<lparr>fTextScaleX := getTextScaleX paint, fTextFill := getStyle paint\<rparr>
                 else entry4\<lparr>fTextScaleX := 0\<rparr>,
                 d2)))"

definition entryAt :: "SkPDFDevice \<Rightarrow> nat \<Rightarrow> ContentEntry option" where
  "entryAt d a = (if a < length (heapEntries d) then Some (heapEntries d ! a) else None)"

definition lookupEntry :: "SkPDFDevice \<Rightarrow> nat \<Rightarrow> error + ContentEntry" where
  "lookupEntry d a = (case entryAt d a of None \<Rightarrow> Inl BadPointer | Some e \<Rightarrow> Inr e)"

definition storeEntry :: "nat \<Rightarrow> ContentEntry \<Rightarrow> SkPDFDevice \<Rightarrow> SkPDFDevice" where
  "storeEntry a e d = d\<lparr>heapEntries := (heapEntries d)[a := e]\<rparr>"

text \<open>Writes made through \<^verbatim>\<open>&entry->fContent\<close>.\<close>

definition writeEntry :: "nat \<Rightarrow> pdf_op list \<Rightarrow> SkPDFDevice \<Rightarrow> error + SkPDFDevice" where
  "writeEntry a ops d =
     bindE (lookupEntry d a) (\<lambda>e. Inr (storeEntry a (e\<lparr>fContent := fContent e @ ops\<rparr>) d))"

definition isContentEmpty :: "SkPDFDevice \<Rightarrow> error + bool" where
  "isContentEmpty d =
     (case fContentEntries d of
        None \<Rightarrow> Inr True
      | Some h \<Rightarrow>
          bindE (lookupEntry d h) (\<lambda>e.
            if fContent e = []
            then (if fNext e \<noteq> None then Inl AssertChain else Inr True)
            else Inr False))"

definition deviceContent :: "SkPDFDevice \<Rightarrow> DeviceContent" where
  "deviceContent d =
     \<lparr>dcEntries = heapEntries d, dcHead = fContentEntries d,
      dcGraphicStates = fGraphicStateResources d, dcXObjects = fXObjectResources d,
      dcFonts = fFontResources d, dcShaders = fShaderResources d\<rparr>"

definition createFormXObjectFromDevice :: "SkPDFDevice \<Rightarrow> nat \<times> SkPDFDevice" where
  "createFormXObjectFromDevice d =
     (length (heapObjects d),
      init (cleanUp (d\<lparr>heapObjects := heapObjects d @ [SkPDFFormXObject (deviceContent d)]\<rparr>)))"

text \<open>\<^verbatim>\<open>SkPDFGraphicState::getSMaskGraphicState\<close>: a new object at every call.\<close>

definition getSMaskGraphicState :: "nat \<Rightarrow> bool \<Rightarrow> SkPDFDevice \<Rightarrow> GraphicStateRef \<times> SkPDFDevice" where
  "getSMaskGraphicState sMask invertMask d =
     (SMask (length (heapObjects d)),
      d\<lparr>heapObjects := heapObjects d @ [SMaskGraphicState sMask invertMask]\<rparr>)"

text \<open>\<^verbatim>\<open>setUpContentEntry\<close>, from the declaration of \<^verbatim>\<open>entry\<close> to the call of
  \<^verbatim>\<open>populateGraphicStateEntryFromPaint\<close>: the last entry when it is still empty,
  otherwise a new one, owned by \<^verbatim>\<open>newEntry\<close> (the flag).\<close>

definition chooseEntry :: "SkPDFDevice \<Rightarrow> error + (nat \<times> bool \<times> SkPDFDevice)" where
  "chooseEntry d =
     (let fresh = (length (heapEntries d), True,
                   d\<lparr>heapEntries := heapEntries d @ [ContentEntry_new]\<rparr>) in
      case fLastContentEntry d of
        None \<Rightarrow> Inr fresh
      | Some lastEntry \<Rightarrow>
          bindE (lookupEntry d lastEntry) (\<lambda>l.
            if fContent l = [] then Inr (lastEntry, False, d) else Inr fresh))"

text \<open>\<^verbatim>\<open>setUpContentEntry\<close> from there to its end.  When the function returns the last
  entry, the destructor of \<^verbatim>\<open>newEntry\<close> deletes the entry it still owns, which is the
  one added last to the store.\<close>

definition setUpContentEntry_entry ::
  "geometry \<Rightarrow> factories \<Rightarrow> SkClipStack \<Rightarrow> SkRegion \<Rightarrow> SkMatrix \<Rightarrow> SkPaint \<Rightarrow> bool \<Rightarrow> Mode
     \<Rightarrow> SkPDFDevice \<Rightarrow> error + (nat option \<times> SkPDFDevice)" where
  "setUpContentEntry_entry G F clipStack clipRegion matrix paint hasText xfermode d =
     bindE (chooseEntry d) (\<lambda>(entry, isNew, d1).
     bindE (lookupEntry d1 entry) (\<lambda>e.
     bindE (populateGraphicStateEntryFromPaint G F matrix clipStack clipRegion paint hasText
              (fState e) d1) (\<lambda>(st, d2).
       let d3 = storeEntry entry (e\<lparr>fState := st\<rparr>) d2 in
       case fLastContentEntry d3 of
         None \<Rightarrow>
           Inr (Some entry, d3\<lparr>fContentEntries := Some entry, fLastContentEntry := Some entry\<rparr>)
       | Some lastEntry \<Rightarrow>
           bindE (lookupEntry d3 lastEntry) (\<lambda>l.
           bindE (lookupEntry d3 entry) (\<lambda>e3.
             if xfermode \<noteq> kDstOver_Mode \<and> compareInitialState (fState e3) (fState l)
             then Inr (Some lastEntry,
                       if isNew then d3\<lparr>heapEntries := butlast (heapEntries d3)\<rparr> else d3)
             else if xfermode = kDstOver_Mode
             then Inr (Some entry,
                       (storeEntry entry (e3\<lparr>fNext := fContentEntries d3\<rparr>) d3)
                         \<lparr>fContentEntries := Some entry\<rparr>)
             else Inr (Some entry,
                       (storeEntry lastEntry (l\<lparr>fNext := Some entry\<rparr>) d3)
                         \<lparr>fLastContentEntry := Some entry\<rparr>))))))"

definition internalDrawPaint ::
  "geometry \<Rightarrow> SkPaint \<Rightarrow> nat option \<Rightarrow> SkPDFDevice \<Rightarrow> error + SkPDFDevice" where
  "internalDrawPaint G paint contentEntry d =
     (case contentEntry of
        None \<Rightarrow> Inr d
      | Some a \<Rightarrow>
          bindE (lookupEntry d a) (\<lambda>e.
            let bbox = SkRect 0 0 (of_int (fWidth d)) (of_int (fHeight d));
                totalTransform = preConcat G (fInitialTransform d) (fMatrix (fState e));
                inverseTransform = (case invert G totalTransform of Some i \<Rightarrow> i | None \<Rightarrow> matrix_reset)
            in writeEntry a [AppendRectangle (mapRect G inverseTransform bbox),
                             PaintPath (getStyle paint) kWinding_FillType] d))"

definition isMaskMode :: "Mode \<Rightarrow> bool" where
  "isMaskMode xfermode =
     (xfermode = kSrcIn_Mode \<or> xfermode = kDstIn_Mode \<or>
      xfermode = kSrcOut_Mode \<or> xfermode = kDstOut_Mode)"

text \<open>The clip stack that \<^verbatim>\<open>setUpContentEntry\<close> uses: the one passed, or, for a null
  pointer, the existing one, followed by the boundary path of the region with the op
  replace when the region is not the existing one.\<close>

definition effectiveClipStack ::
  "geometry \<Rightarrow> SkClipStack option \<Rightarrow> SkRegion \<Rightarrow> SkPDFDevice \<Rightarrow> SkClipStack" where
  "effectiveClipStack G clipStack clipRegion d =
     (case clipStack of
        Some cs \<Rightarrow> cs
      | None \<Rightarrow>
          if clipRegion = fExistingClipRegion d then fExistingClipStack d
          else fExistingClipStack d @
               [\<lparr>fRect = None,
                 fPath = Some (case getBoundaryPath G clipRegion of
                                 Some p \<Rightarrow> p
                               | None \<Rightarrow> \<lparr>fFillType = kWinding_FillType, fPoints = []\<rparr>),
                 fOp = kReplace_Op\<rparr>])"

text \<open>The end of \<^verbatim>\<open>drawFormXObjectWithClip\<close>: the form XObject drawn into the entry
  under the soft mask, then the mask removed.\<close>

definition drawFormXObjectWithClip_draw ::
  "nat \<Rightarrow> GraphicStateRef \<Rightarrow> nat \<Rightarrow> SkPDFDevice \<Rightarrow> error + SkPDFDevice" where
  "drawFormXObjectWithClip_draw xobject sMaskGS a d4 =
     (let (i1, d5) = addGraphicStateResource sMaskGS d4 in
      bindE (writeEntry a [ApplyGraphicState i1] d5) (\<lambda>d6.
      bindE (writeEntry a [DrawFormXObject (SkTDArray_count (fXObjectResources d6))] d6) (\<lambda>d7.
        let d8 = d7\<lparr>fXObjectResources := fXObjectResources d7 @ [xobject]\<rparr>;
            (i2, d9) = addGraphicStateResource NoSMask d8
        in writeEntry a [ApplyGraphicState i2] d9)))"

text \<open>The end of \<^verbatim>\<open>finishContentEntry\<close>: the source, or the destination, drawn into the
  entry under the soft mask made of the other one.\<close>

definition finishContentEntry_draw ::
  "Mode \<Rightarrow> nat \<Rightarrow> nat \<Rightarrow> nat \<Rightarrow> SkPDFDevice \<Rightarrow> error + SkPDFDevice" where
  "finishContentEntry_draw xfermode dst srcFormXObject a d3 =
     (let (sMaskGS, d4) =
            (if xfermode = kSrcIn_Mode \<or> xfermode = kSrcOut_Mode
             then (let (g, d') = getSMaskGraphicState dst (xfermode = kSrcOut_Mode) d3
                   in (g, d'\<lparr>fXObjectResources := fXObjectResources d' @ [srcFormXObject]\<rparr>))
             else getSMaskGraphicState srcFormXObject (xfermode = kDstOut_Mode) d3);
          (i1, d5) = addGraphicStateResource sMaskGS d4
      in
        bindE (writeEntry a [ApplyGraphicState i1] d5) (\<lambda>d6.
        bindE (writeEntry a [DrawFormXObject (SkTDArray_count (fXObjectResources d6) - 1)] d6)
          (\<lambda>d7.
             let (i2, d8) = addGraphicStateResource NoSMask d7
             in writeEntry a [ApplyGraphicState i2] d8)))"

text \<open>The recursion among the five functions below ends because the nested calls use
  the stock paint, whose mode is source-over: the rank of a call decreases.\<close>

definition callRank ::
  "((geometry \<times> factories \<times> SkClipStack option \<times> SkRegion \<times> SkMatrix \<times> SkPaint \<times> bool \<times> SkPDFDevice) +
    (geometry \<times> factories \<times> SkClipStack \<times> SkRegion \<times> SkPDFDevice)) +
   (geometry \<times> factories \<times> nat \<times> SkClipStack option \<times> SkRegion \<times> bool \<times> SkPDFDevice) +
   (geometry \<times> factories \<times> SkClipStack option \<times> SkRegion \<times> SkMatrix \<times> SkPaint \<times> SkPDFDevice) +
   (geometry \<times> factories \<times> Mode \<times> nat option \<times> SkPDFDevice) \<Rightarrow> nat" where
  "callRank c =
     (case c of
        Inl (Inl (G, F, cs, cr, m, paint, ht, d)) \<Rightarrow>
          if paintMode paint = kClear_Mode \<or> paintMode paint = kSrc_Mode then 10 else 1
      | Inl (Inr (G, F, cs, cr, d)) \<Rightarrow> 9
      | Inr (Inl (G, F, x, cs, cr, i, d)) \<Rightarrow> 6
      | Inr (Inr (Inl (G, F, cs, cr, m, paint, d))) \<Rightarrow>
          if paintMode paint = kClear_Mode \<or> paintMode paint = kSrc_Mode then 11
          else if isMaskMode (paintMode paint) then 8 else 2
      | Inr (Inr (Inr (G, F, xfermode, dst, d))) \<Rightarrow>
          if isMaskMode xfermode then 7 else 0)"

lemma bindE_cong [fundef_cong]:
  "m = m' \<Longrightarrow> (\<And>a. m' = Inr a \<Longrightarrow> f a = f' a) \<Longrightarrow> bindE m f = bindE m' f'"
  by (cases m') (simp_all add: bindE_def)

function setUpContentEntry ::
    "geometry \<Rightarrow> factories \<Rightarrow> SkClipStack option \<Rightarrow> SkRegion \<Rightarrow> SkMatrix \<Rightarrow> SkPaint \<Rightarrow> bool
       \<Rightarrow> SkPDFDevice \<Rightarrow> error + (nat option \<times> nat option \<times> SkPDFDevice)"
  and clearClipFromContent ::
    "geometry \<Rightarrow> factories \<Rightarrow> SkClipStack \<Rightarrow> SkRegion \<Rightarrow> SkPDFDevice \<Rightarrow> error + SkPDFDevice"
  and drawFormXObjectWithClip ::
    "geometry \<Rightarrow> factories \<Rightarrow> nat \<Rightarrow> SkClipStack option \<Rightarrow> SkRegion \<Rightarrow> bool \<Rightarrow> SkPDFDevice
       \<Rightarrow> error + SkPDFDevice"
  and drawPaint ::
    "geometry \<Rightarrow> factories \<Rightarrow> SkClipStack option \<Rightarrow> SkRegion \<Rightarrow> SkMatrix \<Rightarrow> SkPaint
       \<Rightarrow> SkPDFDevice \<Rightarrow> error + SkPDFDevice"
  and finishContentEntry ::
    "geometry \<Rightarrow> factories \<Rightarrow> Mode \<Rightarrow> nat option \<Rightarrow> SkPDFDevice \<Rightarrow> error + SkPDFDevice"
where
  "setUpContentEntry G F clipStack clipRegion matrix paint hasText d =
     (if regionIsEmpty G clipRegion then Inr (None, None, d)
      else
        (let clipStack' = effectiveClipStack G clipStack clipRegion d;
             xfermode = paintMode paint
         in
           bindE
             (if xfermode = kClear_Mode \<or> xfermode = kSrc_Mode
              then bindE (clearClipFromContent G F clipStack' clipRegion d)
                     (\<lambda>d1. Inr (Some (None, d1)))
              else if isMaskMode xfermode
              then bindE (isContentEmpty d) (\<lambda>isEmpty.
                     if isEmpty then Inr None
                     else (let (dst, d1) = createFormXObjectFromDevice d
                           in Inr (Some (Some dst, d1))))
              else Inr (Some (None, d)))
             (\<lambda>r. case r of
                     None \<Rightarrow> Inr (None, None, d)
                   | Some (dst, d1) \<Rightarrow>
                       if xfermode = kClear_Mode \<or> xfermode = kDst_Mode
                       then Inr (None, dst, d1)
                       else bindE (setUpContentEntry_entry G F clipStack' clipRegion matrix
                                     paint hasText xfermode d1)
                              (\<lambda>(entry, d2). Inr (entry, dst, d2)))))"
| "clearClipFromContent G F clipStack clipRegion d =
     (if regionIsEmpty G clipRegion then Inr d
      else
        bindE (isContentEmpty d) (\<lambda>isEmpty.
          if isEmpty then Inr d
          else (let (curContent, d1) = createFormXObjectFromDevice d
                in drawFormXObjectWithClip G F curContent (Some clipStack) clipRegion True d1)))"
| "drawFormXObjectWithClip G F xobject clipStack clipRegion invertClip d =
     (if regionIsEmpty G clipRegion \<and> \<not> invertClip then Inr d
      else
        bindE (drawPaint G F clipStack clipRegion matrix_reset stockPaint d) (\<lambda>d1.
          let (maskFormXObject, d2) = createFormXObjectFromDevice d1;
              (sMaskGS, d3) = getSMaskGraphicState maskFormXObject invertClip d2
          in
            bindE (setUpContentEntry G F (Some (fExistingClipStack d3)) (fExistingClipRegion d3)
                     matrix_reset stockPaint False d3) (\<lambda>(entry, dst, d4).
              case entry of
                None \<Rightarrow> Inr d4
              | Some a \<Rightarrow>
                  bindE (drawFormXObjectWithClip_draw xobject sMaskGS a d4) (\<lambda>d10.
                    finishContentEntry G F (paintMode stockPaint) dst d10))))"
| "drawPaint G F clipStack clipRegion matrix paint d =
     (let newPaint = paint\<lparr>getStyle := kFill_Style\<rparr> in
      bindE (setUpContentEntry G F clipStack clipRegion matrix newPaint False d)
        (\<lambda>(entry, dst, d1).
           bindE (internalDrawPaint G newPaint entry d1) (\<lambda>d2.
             case entry of
               None \<Rightarrow> Inr d2
             | Some a \<Rightarrow> finishContentEntry G F (paintMode newPaint) dst d2)))"
| "finishContentEntry G F xfermode dst d =
     (if \<not> isMaskMode xfermode
      then (if dst \<noteq> None then Inl AssertDst else Inr d)
      else
        (case dst of
           None \<Rightarrow> Inl AssertDst
         | Some dstX \<Rightarrow>
             (case fContentEntries d of
                None \<Rightarrow> Inl BadPointer
              | Some h \<Rightarrow>
                  bindE (lookupEntry d h) (\<lambda>he.
                    if fNext he \<noteq> None then Inl AssertChain
                    else
                      bindE (isContentEmpty d) (\<lambda>isEmpty.
                        let (srcFormXObject, d1) =
                              (if \<not> isEmpty
                               then (let (x, d') = createFormXObjectFromDevice d in (Some x, d'))
                               else (None, d))
                        in
                          bindE (drawFormXObjectWithClip G F dstX
                                   (Some (fClipStack (fState he))) (fClipRegion (fState he))
                                   True d1) (\<lambda>d2.
                            case srcFormXObject of
                              None \<Rightarrow> Inr d2
                            | Some src \<Rightarrow>
                                bindE (setUpContentEntry G F (Some (fExistingClipStack d2))
                                         (fExistingClipRegion d2) matrix_reset stockPaint False d2)
                                  (\<lambda>(entry, dst', d3).
                                     case entry of
                                       None \<Rightarrow> Inr d3
                                     | Some a \<Rightarrow>
                                         bindE (finishContentEntry_draw xfermode dstX src a d3)
                                           (\<lambda>d9. finishContentEntry G F
                                                    (paintMode stockPaint) dst' d9))))))))"
  by pat_completeness auto
termination
  by (relation "measure callRank")
     (auto simp: callRank_def paintMode_def stockPaint_def isMaskMode_def)

declare setUpContentEntry.simps [simp del]
declare clearClipFromContent.simps [simp del]
declare drawFormXObjectWithClip.simps [simp del]
declare drawPaint.simps [simp del]
declare finishContentEntry.simps [simp del]

text \<open>A draw method of the device, as \<^verbatim>\<open>drawRect\<close>, \<^verbatim>\<open>drawPath\<close> or \<^verbatim>\<open>drawPoints\<close> are
  written when the paint has no path effect: a \<^verbatim>\<open>ContentEntryAccessor\<close> is built
  (\<^verbatim>\<open>setUpContentEntry\<close>), the method returns when there is no entry, else it writes
  its instructions \<open>ops\<close> into the entry, and the destructor of the accessor calls
  \<^verbatim>\<open>finishContentEntry\<close>.\<close>

definition drawWithContentEntry ::
  "geometry \<Rightarrow> factories \<Rightarrow> SkClipStack option \<Rightarrow> SkRegion \<Rightarrow> SkMatrix \<Rightarrow> SkPaint \<Rightarrow> bool
     \<Rightarrow> pdf_op list \<Rightarrow> SkPDFDevice \<Rightarrow> error + SkPDFDevice" where
  "drawWithContentEntry G F clipStack clipRegion matrix paint hasText ops d =
     bindE (setUpContentEntry G F clipStack clipRegion matrix paint hasText d)
       (\<lambda>(entry, dst, d1).
          case entry of
            None \<Rightarrow> Inr d1
          | Some a \<Rightarrow>
              bindE (writeEntry a ops d1) (\<lambda>d2.
                finishContentEntry G F (paintMode paint) dst d2))"

section \<open>Notions and concrete inputs used to state the properties of the device\<close>


text \<open>The common shape of the three intern functions, on the table alone.\<close>

definition intern :: "'a list \<Rightarrow> 'a \<Rightarrow> int \<times> 'a list" where
  "intern table x =
     (let r = SkTDArray_find table x in
      if r < 0 then (SkTDArray_count table, table @ [x]) else (r, table))"


definition FT :: factories where
  "FT = \<lparr>getPDFShader = (\<lambda>shader m bounds. Some (shader + 100)),
         asColorGradient = (\<lambda>shader. None),
         getGraphicStateForPaint = (\<lambda>paint. getOther paint),
         getFontResource = (\<lambda>typeface glyphID. typeface),
         postConcat = (\<lambda>a b. a)\<rparr>"

definition dev0 :: SkPDFDevice where
  "dev0 =
     \<lparr>fPageSize = (100, 100), fContentSize = (100, 100), fWidth = 100, fHeight = 100,
      fOrigin = SkIPoint 0 0, fInitialTransform = SkMatrix 1 0 0 0 (- 1) 100 0 0 1,
      fExistingClipStack = [clipA], fExistingClipRegion = regionW, fResourceDict = None,
      fGraphicStateResources = [], fXObjectResources = [], fFontResources = [],
      fShaderResources = [], fContentEntries = None, fLastContentEntry = None,
      heapEntries = [], heapObjects = []\<rparr>"

text \<open>A device with one entry that holds the instructions of a rectangle.\<close>

definition rectOps :: "pdf_op list" where
  "rectOps = [AppendRectangle (SkRect 1 2 3 4), PaintPath kFill_Style kWinding_FillType]"

definition entryR :: ContentEntry where
  "entryR =
     \<lparr>fState = GraphicStateEntry_new
         \<lparr>fClipStack := [clipA], fClipRegion := regionW, fGraphicStateIndex := 0,
          fTextScaleX := 0\<rparr>,
      fContent = rectOps, fNext = None\<rparr>"

definition dev1 :: SkPDFDevice where
  "dev1 = dev0\<lparr>fGraphicStateResources := [ForPaint 0], fContentEntries := Some 0,
              fLastContentEntry := Some 0, heapEntries := [entryR]\<rparr>"

definition paintDst :: SkPaint where
  "paintDst = stockPaint\<lparr>getXfermode := Some (ProcCoeffXfermode kDst_Mode)\<rparr>"


subsection \<open>The chain of entries; inputs for the merge and destination-over properties\<close>

text \<open>The entries reached from a pointer by following \<open>fNext\<close>, in order.\<close>

fun chain :: "SkPDFDevice \<Rightarrow> nat option \<Rightarrow> ContentEntry list \<Rightarrow> bool" where
  "chain d None [] = True"
| "chain d (Some a) (e # es) = (entryAt d a = Some e \<and> chain d (fNext e) es)"
| "chain d None (e # es) = False"
| "chain d (Some a) [] = False"

definition paintDstOver :: SkPaint where
  "paintDstOver = stockPaint\<lparr>getXfermode := Some (ProcCoeffXfermode kDstOver_Mode)\<rparr>"

text \<open>The state that \<^verbatim>\<open>populateGraphicStateEntryFromPaint\<close> builds for the stock paint,
  the identity matrix and the existing clip, without text.\<close>

definition stateS :: GraphicStateEntry where
  "stateS = GraphicStateEntry_new
     \<lparr>fClipStack := [clipA], fClipRegion := regionW, fGraphicStateIndex := 0, fTextScaleX := 0\<rparr>"

definition dev1D :: SkPDFDevice where
  "dev1D = dev1\<lparr>heapEntries := [entryR, \<lparr>fState = stateS, fContent = [], fNext = Some 0\<rparr>],
                fContentEntries := Some 1\<rparr>"

definition dev0D :: SkPDFDevice where
  "dev0D = dev0\<lparr>fGraphicStateResources := [ForPaint 0],
                heapEntries := [\<lparr>fState = stateS, fContent = [], fNext = None\<rparr>],
                fContentEntries := Some 0, fLastContentEntry := Some 0\<rparr>"

text \<open>The entry whose state \<^verbatim>\<open>setUpContentEntry\<close> fills: the state of the last entry when
  that entry is still empty and is used again, the state of a new entry otherwise.\<close>

definition entryStateBefore :: "SkPDFDevice \<Rightarrow> GraphicStateEntry" where
  "entryStateBefore d =
     (case fLastContentEntry d of
        None \<Rightarrow> GraphicStateEntry_new
      | Some t \<Rightarrow>
          (case entryAt d t of
             None \<Rightarrow> GraphicStateEntry_new
           | Some te \<Rightarrow> if fContent te = [] then fState te else GraphicStateEntry_new))"

definition paintWide :: SkPaint where
  "paintWide = stockPaint\<lparr>getTextScaleX := 2\<rparr>"

definition textOps :: "pdf_op list" where
  "textOps = [WriteText ''BT'', WriteText ''ET'']"

text \<open>The states that \<^verbatim>\<open>populateGraphicStateEntryFromPaint\<close> builds for text drawn with the
  stock paint and with the paint \<^verbatim>\<open>paintWide\<close>.\<close>

definition stateT1 :: GraphicStateEntry where
  "stateT1 = stateS\<lparr>fTextScaleX := 1, fTextFill := kFill_Style\<rparr>"

definition stateT2 :: GraphicStateEntry where
  "stateT2 = stateS\<lparr>fTextScaleX := 2, fTextFill := kFill_Style\<rparr>"

definition devT1 :: SkPDFDevice where
  "devT1 = dev0\<lparr>fGraphicStateResources := [ForPaint 0],
                heapEntries := [\<lparr>fState = stateT1, fContent = textOps, fNext = None\<rparr>],
                fContentEntries := Some 0, fLastContentEntry := Some 0\<rparr>"

definition devT2 :: SkPDFDevice where
  "devT2 = devT1\<lparr>heapEntries :=
                   [\<lparr>fState = stateT1, fContent = textOps @ rectOps, fNext = None\<rparr>]\<rparr>"

definition devT3 :: SkPDFDevice where
  "devT3 = devT2\<lparr>heapEntries :=
                   [\<lparr>fState = stateT1, fContent = textOps @ rectOps, fNext = Some 1\<rparr>,
                    \<lparr>fState = stateT2, fContent = [], fNext = None\<rparr>],
                 fLastContentEntry := Some 1\<rparr>"


subsection \<open>\<^verbatim>\<open>SkPDFDevice::content\<close>\<close>

text \<open>\<^verbatim>\<open>SkIPoint::negate\<close>.\<close>

definition SkIPoint_negate :: "SkIPoint \<Rightarrow> SkIPoint" where
  "SkIPoint_negate p = SkIPoint (- fX p) (- fY p)"

text \<open>\<^verbatim>\<open>SkPDFDevice::content\<close>.  The body of its loop has four statements; a point of
  the loop is the entry the loop is at and the statement that comes next.\<close>

datatype content_pc = AtUpdateClip | AtUpdateMatrix | AtUpdateDrawingState | AtWrite

definition content_statement ::
  "geometry \<Rightarrow> SkPDFDevice \<Rightarrow> nat \<Rightarrow> content_pc \<Rightarrow> GraphicStackState
     \<Rightarrow> error + (nat option \<times> content_pc \<times> GraphicStackState)" where
  "content_statement G d a pc gsState =
     bindE (lookupEntry d a) (\<lambda>entry.
       case pc of
         AtUpdateClip \<Rightarrow>
           bindE (updateClip G (fClipStack (fState entry)) (fClipRegion (fState entry))
                    (SkIPoint_negate (fOrigin d)) gsState)
             (\<lambda>gs. Inr (Some a, AtUpdateMatrix, gs))
       | AtUpdateMatrix \<Rightarrow>
           bindE (updateMatrix (fMatrix (fState entry)) gsState)
             (\<lambda>gs. Inr (Some a, AtUpdateDrawingState, gs))
       | AtUpdateDrawingState \<Rightarrow>
           bindE (updateDrawingState (fState entry) gsState)
             (\<lambda>gs. Inr (Some a, AtWrite, gs))
       | AtWrite \<Rightarrow> Inr (fNext entry, AtUpdateClip, writeOps (fContent entry) gsState))"

text \<open>The loop, for at most \<open>n\<close> statements: it stops at the null pointer.  The chain of
  entries may be cyclic, and then the loop of the source does not end.\<close>

fun content_run ::
  "geometry \<Rightarrow> SkPDFDevice \<Rightarrow> nat \<Rightarrow> nat option \<times> content_pc \<times> GraphicStackState
     \<Rightarrow> error + (nat option \<times> content_pc \<times> GraphicStackState)" where
  "content_run G d 0 c = Inr c"
| "content_run G d (Suc n) (None, pc, gsState) = Inr (None, pc, gsState)"
| "content_run G d (Suc n) (Some a, pc, gsState) =
     bindE (content_statement G d a pc gsState) (content_run G d n)"

text \<open>The stream and the stack that the loop starts with.\<close>

definition content_start :: "SkPDFDevice \<Rightarrow> error + GraphicStackState" where
  "content_start d =
     (let data = (if \<not> isIdentity (fInitialTransform d)
                  then [AppendTransform (fInitialTransform d)] else [])
      in bindE (if fPageSize d \<noteq> fContentSize d
                then emit_clip None (Some (SkRect 0 0 (of_int (fWidth d)) (of_int (fHeight d)))) data
                else Inr data)
           (\<lambda>data1. Inr (GraphicStackState_new (fExistingClipStack d) (fExistingClipRegion d) data1)))"

text \<open>The whole function: \<open>None\<close> when the loop has not ended after \<open>fuel\<close> statements.\<close>

definition content :: "geometry \<Rightarrow> nat \<Rightarrow> SkPDFDevice \<Rightarrow> (error + SkWStream) option" where
  "content G fuel d =
     (case content_start d of
        Inl e \<Rightarrow> Some (Inl e)
      | Inr gsState \<Rightarrow>
          (case content_run G d fuel (fContentEntries d, AtUpdateClip, gsState) of
             Inl e \<Rightarrow> Some (Inl e)
           | Inr (Some a, pc, gs) \<Rightarrow> None
           | Inr (None, pc, gs) \<Rightarrow>
               (case drainStack gs of
                  Inl e \<Rightarrow> Some (Inl e)
                | Inr gs' \<Rightarrow> Some (Inr (fContentStream gs')))))"

text \<open>What holds of the stack all along the loop: at most two frames above the first;
  the first frame has the identity matrix; with two frames, the lower has the identity
  matrix and the upper has not.\<close>

definition depth2_inv :: "GraphicStackState \<Rightarrow> bool" where
  "depth2_inv s =
     (wf_stack s \<and> fStackDepth s \<le> 2 \<and> isIdentity (fMatrix (fEntries s ! 0)) \<and>
      (if fStackDepth s = 2
       then isIdentity (fMatrix (fEntries s ! 1)) \<and> \<not> isIdentity (fMatrix (fEntries s ! 2))
       else True))"

definition entryC :: ContentEntry where
  "entryC = \<lparr>fState = stateS\<lparr>fMatrix := setTranslate 5 5, fClipStack := [clipA, clipB]\<rparr>,
             fContent = rectOps, fNext = None\<rparr>"

definition devC :: SkPDFDevice where
  "devC = dev0\<lparr>fGraphicStateResources := [ForPaint 0], fContentEntries := Some 0,
              fLastContentEntry := Some 0, heapEntries := [entryC]\<rparr>"


subsection \<open>Names used for the source-in emulation\<close>

text \<open>Names for the proofs about \<^verbatim>\<open>createFormXObjectFromDevice\<close>: the device after it, with
  the store of PDF objects \<open>H\<close>; the state that \<^verbatim>\<open>populateGraphicStateEntryFromPaint\<close> builds
  for the stock paint and the identity matrix; a device with its tables and one entry.\<close>

definition emptied :: "SkPDFDevice \<Rightarrow> SkPDFObject list \<Rightarrow> SkPDFDevice" where
  "emptied d H = init (cleanUp (d\<lparr>heapObjects := H\<rparr>))"

definition stockState :: "SkClipStack \<Rightarrow> SkRegion \<Rightarrow> int \<Rightarrow> GraphicStateEntry" where
  "stockState cs cr i =
     GraphicStateEntry_new\<lparr>fMatrix := matrix_reset, fClipStack := cs, fClipRegion := cr,
       fColor := SkColorSetA (getColor stockPaint) 0xFF, fShaderIndex := - 1,
       fGraphicStateIndex := i, fTextScaleX := 0\<rparr>"

definition oneEntry ::
  "SkPDFDevice \<Rightarrow> GraphicStateRef list \<Rightarrow> nat list \<Rightarrow> ContentEntry \<Rightarrow> SkPDFDevice" where
  "oneEntry dv gs xs e =
     dv\<lparr>fGraphicStateResources := gs, fXObjectResources := xs, heapEntries := [e],
        fContentEntries := Some 0, fLastContentEntry := Some 0\<rparr>"

text \<open>The instructions that \<^verbatim>\<open>internalDrawPaint\<close> writes on a device whose entry has the
  identity matrix.\<close>

definition paintOps :: "geometry \<Rightarrow> SkPDFDevice \<Rightarrow> pdf_op list" where
  "paintOps G d =
     [AppendRectangle
        (mapRect G
           (case invert G (preConcat G (fInitialTransform d) matrix_reset) of
              Some i \<Rightarrow> i | None \<Rightarrow> matrix_reset)
           (SkRect 0 0 (of_int (fWidth d)) (of_int (fHeight d)))),
      PaintPath kFill_Style kWinding_FillType]"

definition paintSrcIn :: SkPaint where
  "paintSrcIn = stockPaint\<lparr>getXfermode := Some (ProcCoeffXfermode kSrcIn_Mode)\<rparr>"


subsection \<open>The functions that fill the table of XObjects\<close>













section \<open>Properties of the graphic-state stack\<close>

lemma bindE_Inr_iff: "bindE m f = Inr y \<longleftrightarrow> (\<exists>a. m = Inr a \<and> f a = Inr y)"
  by (cases m) (simp_all add: bindE_def)

lemma balanced_step_refl: "balanced_step s s"
  by (simp add: balanced_step_def)

lemma balanced_step_trans:
  "balanced_step s s1 \<Longrightarrow> balanced_step s1 s2 \<Longrightarrow> balanced_step s s2"
  unfolding balanced_step_def
  by (elim exE conjE, rule_tac x="e @ ea" in exI) simp

lemma setCurrentEntry_simps:
  "fStackDepth (setCurrentEntry e s) = fStackDepth s"
  "fContentStream (setCurrentEntry e s) = fContentStream s"
  "fEntries (setCurrentEntry e s) = (fEntries s)[fStackDepth s := e]"
  by (simp_all add: setCurrentEntry_def)

lemma writeOps_simps:
  "fStackDepth (writeOps ops s) = fStackDepth s"
  "fContentStream (writeOps ops s) = fContentStream s @ ops"
  "fEntries (writeOps ops s) = fEntries s"
  "currentEntry (writeOps ops s) = currentEntry s"
  by (simp_all add: writeOps_def currentEntry_def)

lemma push_balanced: "push s = Inr s' \<Longrightarrow> balanced_step s s'"
  by (auto simp: push_def balanced_step_def opSave_def opRestore_def split: if_splits)

lemma pop_balanced: "pop s = Inr s' \<Longrightarrow> balanced_step s s'"
  by (auto simp: pop_def balanced_step_def opSave_def opRestore_def split: if_splits)

lemma drainStack_balanced:
  "\<exists>s'. drainStack s = Inr s' \<and> fStackDepth s' = 0 \<and> balanced_step s s'"
proof (induction s rule: drainStack.induct)
  case (1 s)
  show ?case
  proof (cases "fStackDepth s = 0")
    case True
    then show ?thesis by (simp add: balanced_step_refl drainStack.simps[of s])
  next
    case False
    then obtain s1 where p: "pop s = Inr s1" by (auto simp: pop_def)
    from "1.IH"[OF False p] obtain s' where
      d: "drainStack s1 = Inr s'" "fStackDepth s' = 0" "balanced_step s1 s'" by blast
    from False p d show ?thesis
      by (auto simp: drainStack.simps[of s] intro: balanced_step_trans pop_balanced)
  qed
qed

lemma replicate_Suc_snoc: "x # replicate n x = replicate n x @ [x]"
  by (induction n) simp_all

lemma updateClip_pop_result:
  "updateClip_pop cs s = Inr (b, s') \<Longrightarrow>
     fEntries s' = fEntries s \<and> fStackDepth s' \<le> fStackDepth s \<and>
     fContentStream s' =
       fContentStream s @ replicate (fStackDepth s - fStackDepth s') (WriteText ''Q\<newline>'') \<and>
     (b \<longrightarrow> cs = fClipStack (currentEntry s') \<and> fStackDepth s' < fStackDepth s) \<and>
     (\<not> b \<longrightarrow> fStackDepth s' = 0)"
proof (induction cs s rule: updateClip_pop.induct)
  case (1 clipStack s)
  show ?case
  proof (cases "fStackDepth s > 0")
    case False
    with "1.prems" show ?thesis by (simp add: updateClip_pop.simps[of clipStack s])
  next
    case True
    define s1 where "s1 = s\<lparr>fContentStream := fContentStream s @ [WriteText ''Q\<newline>''],
                  fStackDepth := fStackDepth s - 1\<rparr>"
    have p: "pop s = Inr s1" using True by (simp add: pop_def s1_def)
    have step: "updateClip_pop clipStack s =
        (if clipStack = fClipStack (currentEntry s1) then Inr (True, s1)
         else updateClip_pop clipStack s1)"
      using True p by (simp add: updateClip_pop.simps[of clipStack s])
    show ?thesis
    proof (cases "clipStack = fClipStack (currentEntry s1)")
      case eq: True
      from "1.prems"[unfolded step] eq have "b" "s' = s1" by simp_all
      with eq True show ?thesis by (simp add: s1_def)
    next
      case ne: False
      from "1.prems"[unfolded step] ne have r: "updateClip_pop clipStack s1 = Inr (b, s')"
        by simp
      from "1.IH"[OF True p ne r] have ih:
        "fEntries s' = fEntries s1" "fStackDepth s' \<le> fStackDepth s1"
        "fContentStream s' = fContentStream s1 @
           replicate (fStackDepth s1 - fStackDepth s') (WriteText ''Q\<newline>'')"
        "b \<longrightarrow> clipStack = fClipStack (currentEntry s') \<and> fStackDepth s' < fStackDepth s1"
        "\<not> b \<longrightarrow> fStackDepth s' = 0" by simp_all
      have d: "fStackDepth s - fStackDepth s' = Suc (fStackDepth s1 - fStackDepth s')"
        using ih(2) True by (simp add: s1_def)
      show ?thesis using ih True
        by (simp add: d replicate_Suc_snoc[symmetric]) (auto simp: s1_def)
    qed
  qed
qed

lemma updateClip_pop_total: "\<exists>b s'. updateClip_pop cs s = Inr (b, s')"
proof (induction cs s rule: updateClip_pop.induct)
  case (1 clipStack s)
  show ?case
  proof (cases "fStackDepth s > 0")
    case False
    then show ?thesis by (auto simp: updateClip_pop.simps[of clipStack s])
  next
    case True
    then obtain s1 where p: "pop s = Inr s1" by (auto simp: pop_def)
    have step: "updateClip_pop clipStack s =
        (if clipStack = fClipStack (currentEntry s1) then Inr (True, s1)
         else updateClip_pop clipStack s1)"
      using True p by (simp add: updateClip_pop.simps[of clipStack s])
    show ?thesis
    proof (cases "clipStack = fClipStack (currentEntry s1)")
      case eq: True
      then show ?thesis unfolding step by auto
    next
      case ne: False
      from "1.IH"[OF True p ne] ne show ?thesis unfolding step by simp
    qed
  qed
qed

lemma updateClip_pop_not_found:
  "\<forall>d<fStackDepth s. fClipStack (fEntries s ! d) \<noteq> cs \<Longrightarrow>
   updateClip_pop cs s =
     Inr (False, s\<lparr>fContentStream :=
                     fContentStream s @ replicate (fStackDepth s) (WriteText ''Q\<newline>''),
                   fStackDepth := 0\<rparr>)"
proof (induction cs s rule: updateClip_pop.induct)
  case (1 clipStack s)
  show ?case
  proof (cases "fStackDepth s > 0")
    case False
    then show ?thesis by (simp add: updateClip_pop.simps[of clipStack s])
  next
    case True
    define s1 where "s1 = s\<lparr>fContentStream := fContentStream s @ [WriteText ''Q\<newline>''],
                  fStackDepth := fStackDepth s - 1\<rparr>"
    have p: "pop s = Inr s1" using True by (simp add: pop_def s1_def)
    have "fStackDepth s - 1 < fStackDepth s" using True by simp
    with "1.prems" have "fClipStack (fEntries s ! (fStackDepth s - 1)) \<noteq> clipStack" by blast
    then have ne: "clipStack \<noteq> fClipStack (currentEntry s1)"
      by (auto simp: currentEntry_def s1_def)
    have pre: "\<forall>d<fStackDepth s1. fClipStack (fEntries s1 ! d) \<noteq> clipStack"
      using "1.prems" by (simp add: s1_def)
    have sd: "fStackDepth s = Suc (fStackDepth s1)" using True by (simp add: s1_def)
    have step: "updateClip_pop clipStack s = updateClip_pop clipStack s1"
      using True p ne by (simp add: updateClip_pop.simps[of clipStack s])
    from "1.IH"[OF True p ne pre] show ?thesis
      unfolding step
      by (simp add: sd replicate_Suc_snoc[symmetric]) (simp add: s1_def)
  qed
qed

lemma needRegion_iff: "needRegion iter \<longleftrightarrow> (\<exists>c\<in>set iter. needs_region c)"
  by (induction iter) (auto simp: needs_region_def)

lemma skip_clip_stack_prefix_append: "skip_clip_stack_prefix pre (pre @ suf) = Inr suf"
  by (induction pre) simp_all

lemma skip_clip_stack_prefix_Inr:
  "skip_clip_stack_prefix pre st = Inr suf \<Longrightarrow> st = pre @ suf"
  by (induction pre st rule: skip_clip_stack_prefix.induct) (auto split: if_splits)

lemma emit_clip_region: "emit_clip (Some p) None out = Inr (out @ region_clip_instruction p)"
  by (simp add: emit_clip_def region_clip_instruction_def)

lemma emit_clip_entries_plain:
  "\<forall>c\<in>set iter. fOp c = kIntersect_Op \<and> (fRect c \<noteq> None \<or> fPath c \<noteq> None) \<Longrightarrow>
   emit_clip_entries G t iter out = Inr (out @ concat (map (clip_instruction G t) iter))"
proof (induction iter arbitrary: out)
  case Nil
  then show ?case by simp
next
  case (Cons c iter)
  then show ?case
    by (cases "fRect c"; cases "fPath c")
       (auto simp: emit_clip_def clip_instruction_def bindE_def)
qed

lemma bindE_simps [simp]:
  "bindE (Inr a) f = f a"
  "bindE (Inl e) f = Inl e"
  by (simp_all add: bindE_def)

lemma updateClip_replay:
  assumes ne: "\<forall>d\<le>fStackDepth s. fClipStack (fEntries s ! d) \<noteq> clipStack"
    and pre: "clipStack = fClipStack (fEntries s ! 0) @ suffix"
    and len: "1 < length (fEntries s)"
  shows "updateClip G clipStack clipRegion tr s =
     bindE
       (if needRegion suffix
        then (case getBoundaryPath G clipRegion of
                None \<Rightarrow> Inl AssertBoundaryPath
              | Some bp \<Rightarrow>
                  emit_clip (Some bp) None
                    (fContentStream s @ replicate (fStackDepth s) (WriteText ''Q\<newline>'')
                       @ [WriteText ''q\<newline>'']))
        else emit_clip_entries G (setTranslate (of_int (fX tr)) (of_int (fY tr))) suffix
               (fContentStream s @ replicate (fStackDepth s) (WriteText ''Q\<newline>'')
                  @ [WriteText ''q\<newline>'']))
       (\<lambda>out. Inr \<lparr>fEntries = (fEntries s)[1 := (fEntries s ! 0)
                                   \<lparr>fClipStack := clipStack, fClipRegion := clipRegion\<rparr>],
                    fStackDepth = 1, fContentStream = out\<rparr>)"
proof -
  let ?out2 = "fContentStream s @ replicate (fStackDepth s) (WriteText ''Q\<newline>'')
                       @ [WriteText ''q\<newline>'']"
  let ?s1 = "s\<lparr>fContentStream :=
                     fContentStream s @ replicate (fStackDepth s) (WriteText ''Q\<newline>''),
                   fStackDepth := 0\<rparr>"
  let ?s2 = "\<lparr>fEntries = (fEntries s)[1 := fEntries s ! 0], fStackDepth = 1,
              fContentStream = ?out2\<rparr>"
  have cur: "clipStack \<noteq> fClipStack (currentEntry s)"
    using ne by (auto simp: currentEntry_def)
  have nf: "\<forall>d<fStackDepth s. fClipStack (fEntries s ! d) \<noteq> clipStack"
    using ne by auto
  have pl: "updateClip_pop clipStack s = Inr (False, ?s1)"
    by (rule updateClip_pop_not_found[OF nf])
  have ps: "push ?s1 = Inr ?s2"
    by (simp add: push_def kMaxStackDepth_def)
  have sk: "skip_clip_stack_prefix (fClipStack (fEntries s ! 0)) clipStack = Inr suffix"
    by (simp add: pre skip_clip_stack_prefix_append)
  have fin: "\<And>out. setCurrentEntry
                        ((currentEntry ?s2)\<lparr>fClipStack := clipStack, fClipRegion := clipRegion\<rparr>)
                        (?s2\<lparr>fContentStream := out\<rparr>) =
          \<lparr>fEntries = (fEntries s)[1 := (fEntries s ! 0)
                                   \<lparr>fClipStack := clipStack, fClipRegion := clipRegion\<rparr>],
                    fStackDepth = 1, fContentStream = out\<rparr>"
    using len by (simp add: setCurrentEntry_def currentEntry_def)
  have "updateClip G clipStack clipRegion tr s =
     bindE (push ?s1) (\<lambda>s2.
            bindE (skip_clip_stack_prefix (fClipStack (fEntries s2 ! 0)) clipStack) (\<lambda>iter.
            bindE
              (if needRegion iter
               then (case getBoundaryPath G clipRegion of
                       None \<Rightarrow> Inl AssertBoundaryPath
                     | Some clipPath \<Rightarrow> emit_clip (Some clipPath) None (fContentStream s2))
               else
                 bindE (skip_clip_stack_prefix (fClipStack (fEntries s2 ! 0)) clipStack) (\<lambda>iter2.
                   emit_clip_entries G
                     (setTranslate (of_int (fX tr)) (of_int (fY tr)))
                     iter2 (fContentStream s2)))
              (\<lambda>out.
                 Inr (setCurrentEntry
                        ((currentEntry s2)\<lparr>fClipStack := clipStack, fClipRegion := clipRegion\<rparr>)
                        (s2\<lparr>fContentStream := out\<rparr>)))))"
    unfolding updateClip_def using cur by (simp add: pl)
  also have "\<dots> = bindE
              (if needRegion suffix
               then (case getBoundaryPath G clipRegion of
                       None \<Rightarrow> Inl AssertBoundaryPath
                     | Some clipPath \<Rightarrow> emit_clip (Some clipPath) None ?out2)
               else
                   emit_clip_entries G
                     (setTranslate (of_int (fX tr)) (of_int (fY tr)))
                     suffix ?out2)
              (\<lambda>out.
                 Inr (setCurrentEntry
                        ((currentEntry ?s2)\<lparr>fClipStack := clipStack, fClipRegion := clipRegion\<rparr>)
                        (?s2\<lparr>fContentStream := out\<rparr>)))"
    by (simp add: ps sk cong: option.case_cong)
  finally show ?thesis unfolding fin .
qed

lemma quiet_append [simp]: "quiet (a @ b) \<longleftrightarrow> quiet a \<and> quiet b"
  by (auto simp: quiet_def)

lemma quiet_Nil [simp]: "quiet []"
  by (simp add: quiet_def)

lemma balanced_quiet:
  "fContentStream s' = fContentStream s @ e \<Longrightarrow> quiet e \<Longrightarrow> fStackDepth s' = fStackDepth s
   \<Longrightarrow> balanced_step s s'"
  unfolding balanced_step_def quiet_def
  by (rule exI[of _ e]) (simp add: count_list_0_iff)

lemma emit_clip_quiet:
  "emit_clip p r out = Inr out' \<Longrightarrow> \<exists>e. out' = out @ e \<and> quiet e"
  by (auto simp: emit_clip_def quiet_def opSave_def opRestore_def split: option.splits if_splits)

lemma emit_clip_entries_quiet:
  "emit_clip_entries G t iter out = Inr out' \<Longrightarrow> \<exists>e. out' = out @ e \<and> quiet e"
proof (induction iter arbitrary: out)
  case Nil
  then show ?case by simp
next
  case (Cons c iter)
  define first where "first =
        (case fRect c of
           Some r \<Rightarrow> emit_clip None (Some (mapRect G t r)) out
         | None \<Rightarrow>
             (case fPath c of
                Some p \<Rightarrow> emit_clip (Some (transformPath G t p)) None out
              | None \<Rightarrow> Inl AssertClipShape))"
  have eq: "emit_clip_entries G t (c # iter) out =
      (if fOp c \<noteq> kIntersect_Op then Inl AssertClipOp
       else bindE first (emit_clip_entries G t iter))"
    by (simp add: first_def bindE_def split: option.splits)
  from Cons.prems obtain mid where
    m: "first = Inr mid" and r: "emit_clip_entries G t iter mid = Inr out'"
    unfolding eq by (auto simp: bindE_Inr_iff split: if_splits)
  from m have "\<exists>p r. emit_clip p r out = Inr mid"
    unfolding first_def by (cases "fRect c"; cases "fPath c") auto
  then obtain e1 where e1: "mid = out @ e1" "quiet e1" using emit_clip_quiet by blast
  from Cons.IH[OF r] obtain e2 where e2: "out' = mid @ e2" "quiet e2" by blast
  show ?case using e1 e2 by (intro exI[of _ "e1 @ e2"]) simp
qed

lemma emit_pdf_color_quiet:
  "emit_pdf_color c out = Inr out' \<Longrightarrow> \<exists>e. out' = out @ e \<and> quiet e"
  by (auto simp: emit_pdf_color_def quiet_def opSave_def opRestore_def split: if_splits)

lemma wf_push: "wf_stack s \<Longrightarrow> push s = Inr s' \<Longrightarrow> wf_stack s'"
  by (auto simp: wf_stack_def push_def split: if_splits)

lemma wf_pop: "wf_stack s \<Longrightarrow> pop s = Inr s' \<Longrightarrow> wf_stack s'"
  by (auto simp: wf_stack_def pop_def split: if_splits)

lemma wf_setCurrentEntry [simp]: "wf_stack (setCurrentEntry e s) = wf_stack s"
  by (simp add: wf_stack_def setCurrentEntry_def)

lemma wf_writeOps [simp]: "wf_stack (writeOps ops s) = wf_stack s"
  by (simp add: wf_stack_def writeOps_def)

lemma wf_stream_update [simp]: "wf_stack (s\<lparr>fContentStream := out\<rparr>) = wf_stack s"
  by (simp add: wf_stack_def)

lemma count_list_replicate:
  "count_list (replicate n x) y = (if x = y then n else 0)"
  by (induction n) auto

lemma updateClip_cases:
  assumes "updateClip G cs cr tr s = Inr s'"
  shows "(cs = fClipStack (currentEntry s) \<and> s' = s) \<or>
         (cs \<noteq> fClipStack (currentEntry s) \<and> updateClip_pop cs s = Inr (True, s')) \<or>
         (cs \<noteq> fClipStack (currentEntry s) \<and>
          (\<exists>s1 s2 out e. updateClip_pop cs s = Inr (False, s1) \<and> push s1 = Inr s2 \<and>
             out = fContentStream s2 @ e \<and> quiet e \<and>
             s' = setCurrentEntry ((currentEntry s2)\<lparr>fClipStack := cs, fClipRegion := cr\<rparr>)
                        (s2\<lparr>fContentStream := out\<rparr>)))"
proof (cases "cs = fClipStack (currentEntry s)")
  case True
  with assms show ?thesis by (simp add: updateClip_def)
next
  case False
  obtain b s1 where pl: "updateClip_pop cs s = Inr (b, s1)"
    using updateClip_pop_total by blast
  show ?thesis
  proof (cases b)
    case True
    with assms False pl show ?thesis by (simp add: updateClip_def)
  next
    case nb: False
    define emit where "emit = (\<lambda>s2. bindE (skip_clip_stack_prefix (fClipStack (fEntries s2 ! 0)) cs) (\<lambda>iter.
            bindE
              (if needRegion iter
               then (case getBoundaryPath G cr of
                       None \<Rightarrow> Inl AssertBoundaryPath
                     | Some clipPath \<Rightarrow> emit_clip (Some clipPath) None (fContentStream s2))
               else
                 bindE (skip_clip_stack_prefix (fClipStack (fEntries s2 ! 0)) cs) (\<lambda>iter2.
                   emit_clip_entries G
                     (setTranslate (of_int (fX tr)) (of_int (fY tr)))
                     iter2 (fContentStream s2)))
              (\<lambda>out.
                 Inr (setCurrentEntry
                        ((currentEntry s2)\<lparr>fClipStack := cs, fClipRegion := cr\<rparr>)
                        (s2\<lparr>fContentStream := out\<rparr>)))))"
    have "bindE (push s1) emit = Inr s'"
      using assms False pl nb by (simp add: updateClip_def emit_def)
    then obtain s2 where ps: "push s1 = Inr s2" and em: "emit s2 = Inr s'"
      by (auto simp: bindE_Inr_iff)
    define body where "body = (\<lambda>iter. (if needRegion iter
               then (case getBoundaryPath G cr of
                       None \<Rightarrow> Inl AssertBoundaryPath
                     | Some clipPath \<Rightarrow> emit_clip (Some clipPath) None (fContentStream s2))
               else
                 bindE (skip_clip_stack_prefix (fClipStack (fEntries s2 ! 0)) cs) (\<lambda>iter2.
                   emit_clip_entries G
                     (setTranslate (of_int (fX tr)) (of_int (fY tr)))
                     iter2 (fContentStream s2))))"
    have em2: "emit s2 = bindE (skip_clip_stack_prefix (fClipStack (fEntries s2 ! 0)) cs) (\<lambda>iter.
            bindE (body iter)
              (\<lambda>out.
                 Inr (setCurrentEntry
                        ((currentEntry s2)\<lparr>fClipStack := cs, fClipRegion := cr\<rparr>)
                        (s2\<lparr>fContentStream := out\<rparr>))))"
      by (simp add: emit_def body_def)
    from em obtain iter out where bd: "body iter = Inr out"
      and fin: "s' = setCurrentEntry ((currentEntry s2)\<lparr>fClipStack := cs, fClipRegion := cr\<rparr>)
                        (s2\<lparr>fContentStream := out\<rparr>)"
      unfolding em2 by (auto simp: bindE_Inr_iff)
    have "\<exists>e. out = fContentStream s2 @ e \<and> quiet e"
    proof (cases "needRegion iter")
      case True
      with bd obtain p where "emit_clip (Some p) None (fContentStream s2) = Inr out"
        by (cases "getBoundaryPath G cr") (simp_all add: body_def)
      then show ?thesis by (rule emit_clip_quiet)
    next
      case False
      with bd obtain iter2 where
        "emit_clip_entries G (setTranslate (of_int (fX tr)) (of_int (fY tr))) iter2
           (fContentStream s2) = Inr out"
        by (auto simp: body_def bindE_Inr_iff)
      then show ?thesis by (rule emit_clip_entries_quiet)
    qed
    then obtain e where e: "out = fContentStream s2 @ e" "quiet e" by blast
    have "\<exists>s1 s2 out e. updateClip_pop cs s = Inr (False, s1) \<and> push s1 = Inr s2 \<and>
             out = fContentStream s2 @ e \<and> quiet e \<and>
             s' = setCurrentEntry ((currentEntry s2)\<lparr>fClipStack := cs, fClipRegion := cr\<rparr>)
                        (s2\<lparr>fContentStream := out\<rparr>)"
      using pl nb ps fin e
      by (intro exI[of _ s1] exI[of _ s2] exI[of _ out] exI[of _ e]) simp
    with False show ?thesis by simp
  qed
qed

lemma updateClip_steps:
  assumes "updateClip G cs cr tr s = Inr s'"
  shows "(wf_stack s \<longrightarrow> wf_stack s') \<and> balanced_step s s'"
proof -
  have pop_step: "wf_stack s \<longrightarrow> wf_stack s1" "balanced_step s s1"
    if pl: "updateClip_pop cs s = Inr (b, s1)" for b s1
  proof -
    note r = updateClip_pop_result[OF pl]
    show "wf_stack s \<longrightarrow> wf_stack s1" using r by (simp add: wf_stack_def)
    show "balanced_step s s1"
      unfolding balanced_step_def using r
      by (intro exI[of _ "replicate (fStackDepth s - fStackDepth s1) (WriteText ''Q\<newline>'')"])
         (simp add: opSave_def opRestore_def count_list_replicate)
  qed
  from updateClip_cases[OF assms] consider
      (same) "s' = s"
    | (found) "updateClip_pop cs s = Inr (True, s')"
    | (replay) s1 s2 out e where "updateClip_pop cs s = Inr (False, s1)" "push s1 = Inr s2"
             "out = fContentStream s2 @ e" "quiet e"
             "s' = setCurrentEntry ((currentEntry s2)\<lparr>fClipStack := cs, fClipRegion := cr\<rparr>)
                        (s2\<lparr>fContentStream := out\<rparr>)"
    by blast
  then show ?thesis
  proof cases
    case same
    then show ?thesis by (simp add: balanced_step_refl)
  next
    case found
    from pop_step[OF found] show ?thesis by simp
  next
    case replay
    note p = pop_step[OF replay(1)]
    have b2: "balanced_step s1 s2" by (rule push_balanced[OF replay(2)])
    have b3: "balanced_step s2 s'"
      by (rule balanced_quiet[of _ _ e]) (simp_all add: replay setCurrentEntry_simps)
    have w: "wf_stack s1 \<longrightarrow> wf_stack s'" using wf_push[OF _ replay(2)] by (simp add: replay(5))
    from p b2 b3 w show ?thesis by (blast intro: balanced_step_trans)
  qed
qed

lemma updateMatrix_cases:
  assumes "updateMatrix m s = Inr s'"
  shows "(m = fMatrix (currentEntry s) \<and> s' = s) \<or>
         (m \<noteq> fMatrix (currentEntry s) \<and>
          (\<exists>s1. (isIdentity (fMatrix (currentEntry s)) \<and> s1 = s \<or>
                 \<not> isIdentity (fMatrix (currentEntry s)) \<and> pop s = Inr s1 \<and>
                   isIdentity (fMatrix (currentEntry s1))) \<and>
                (isIdentity m \<and> s' = s1 \<or>
                 \<not> isIdentity m \<and>
                 (\<exists>s2. push s1 = Inr s2 \<and>
                    s' = setCurrentEntry ((currentEntry s2)\<lparr>fMatrix := m\<rparr>)
                           (writeOps [AppendTransform m] s2)))))"
proof (cases "m = fMatrix (currentEntry s)")
  case True
  with assms show ?thesis by (simp add: updateMatrix_def)
next
  case False
  define first where "first =
          (if \<not> isIdentity (fMatrix (currentEntry s))
           then
             (if \<not> fStackDepth s > 0 then Inl AssertStackNotEmpty
              else if fClipStack (fEntries s ! fStackDepth s) \<noteq>
                      fClipStack (fEntries s ! (fStackDepth s - 1)) then Inl AssertMatrixFrame
              else
                bindE (pop s) (\<lambda>s1.
                  if isIdentity (fMatrix (currentEntry s1)) then Inr s1
                  else Inl AssertMatrixFrame))
           else Inr s)"
  define rest where "rest = (\<lambda>s1.
             if isIdentity m then Inr s1
             else
               bindE (push s1) (\<lambda>s2.
                 Inr (setCurrentEntry ((currentEntry s2)\<lparr>fMatrix := m\<rparr>)
                        (writeOps [AppendTransform m] s2))))"
  have "bindE first rest = Inr s'"
    using assms False by (simp add: updateMatrix_def first_def rest_def)
  then obtain s1 where f: "first = Inr s1" and r: "rest s1 = Inr s'"
    by (auto simp: bindE_Inr_iff)
  have f': "isIdentity (fMatrix (currentEntry s)) \<and> s1 = s \<or>
                 \<not> isIdentity (fMatrix (currentEntry s)) \<and> pop s = Inr s1 \<and>
                   isIdentity (fMatrix (currentEntry s1))"
  proof (cases "isIdentity (fMatrix (currentEntry s))")
    case True
    with f show ?thesis by (simp add: first_def)
  next
    case False
    with f have "bindE (pop s) (\<lambda>s1.
                  if isIdentity (fMatrix (currentEntry s1)) then Inr s1
                  else Inl AssertMatrixFrame) = Inr s1"
      by (simp add: first_def split: if_splits)
    then have "pop s = Inr s1 \<and> isIdentity (fMatrix (currentEntry s1))"
      by (auto simp: bindE_Inr_iff split: if_splits)
    with False show ?thesis by simp
  qed
  have r': "isIdentity m \<and> s' = s1 \<or>
                 \<not> isIdentity m \<and>
                 (\<exists>s2. push s1 = Inr s2 \<and>
                    s' = setCurrentEntry ((currentEntry s2)\<lparr>fMatrix := m\<rparr>)
                           (writeOps [AppendTransform m] s2))"
    using r by (cases "isIdentity m") (auto simp: rest_def bindE_Inr_iff)
  from False f' r' show ?thesis by blast
qed

lemma updateMatrix_steps:
  assumes "updateMatrix m s = Inr s'"
  shows "(wf_stack s \<longrightarrow> wf_stack s') \<and> balanced_step s s'"
proof -
  from updateMatrix_cases[OF assms] consider
      (same) "s' = s"
    | (other) s1 where "s1 = s \<or> pop s = Inr s1"
        "s' = s1 \<or> (\<exists>s2. push s1 = Inr s2 \<and>
                    s' = setCurrentEntry ((currentEntry s2)\<lparr>fMatrix := m\<rparr>)
                           (writeOps [AppendTransform m] s2))"
    by blast
  then show ?thesis
  proof cases
    case same
    then show ?thesis by (simp add: balanced_step_refl)
  next
    case other
    have b1: "balanced_step s s1" using other(1) by (auto intro: balanced_step_refl pop_balanced)
    have w1: "wf_stack s \<longrightarrow> wf_stack s1" using other(1) by (auto intro: wf_pop)
    from other(2) show ?thesis
    proof
      assume "s' = s1"
      with b1 w1 show ?thesis by simp
    next
      assume "\<exists>s2. push s1 = Inr s2 \<and>
                    s' = setCurrentEntry ((currentEntry s2)\<lparr>fMatrix := m\<rparr>)
                           (writeOps [AppendTransform m] s2)"
      then obtain s2 where ps: "push s1 = Inr s2"
        and fin: "s' = setCurrentEntry ((currentEntry s2)\<lparr>fMatrix := m\<rparr>)
                        (writeOps [AppendTransform m] s2)" by blast
      have b2: "balanced_step s1 s2" by (rule push_balanced[OF ps])
      have b3: "balanced_step s2 s'"
        by (rule balanced_quiet[of _ _ "[AppendTransform m]"])
           (simp_all add: fin setCurrentEntry_simps writeOps_simps quiet_def opSave_def opRestore_def)
      have w: "wf_stack s1 \<longrightarrow> wf_stack s'" using wf_push[OF _ ps] by (simp add: fin)
      from b1 b2 b3 w w1 show ?thesis by (blast intro: balanced_step_trans)
    qed
  qed
qed

lemma updateDrawingState_fill_cases:
  assumes "updateDrawingState_fill st s = Inr s'"
  shows "s' = s \<or>
         (\<exists>e ops. quiet ops \<and> s' = setCurrentEntry e (writeOps ops s))"
proof (cases "fShaderIndex st \<ge> 0")
  case True
  have q: "quiet [WriteText ''/Pattern CS /Pattern cs /P'',
                      WriteDecAsText (fShaderIndex st),
                      WriteText '' SCN /P'',
                      WriteDecAsText (fShaderIndex st),
                      WriteText '' scn\<newline>'']"
    by (simp add: quiet_def opSave_def opRestore_def)
  show ?thesis
  proof (cases "fShaderIndex st \<noteq> fShaderIndex (currentEntry s)")
    case ne: True
    with True assms q show ?thesis
      unfolding updateDrawingState_fill_def by auto
  next
    case False
    with True assms show ?thesis by (simp add: updateDrawingState_fill_def)
  qed
next
  case False
  show ?thesis
  proof (cases "fColor st \<noteq> fColor (currentEntry s) \<or> fShaderIndex (currentEntry s) \<ge> 0")
    case c: False
    with False assms show ?thesis by (simp add: updateDrawingState_fill_def)
  next
    case c: True
    with False assms have "bindE (emit_pdf_color (fColor st) (fContentStream s)) (\<lambda>out1.
           bindE (emit_pdf_color (fColor st) (out1 @ [WriteText ''RG ''])) (\<lambda>out2.
             Inr (setCurrentEntry
                    ((currentEntry s)\<lparr>fColor := fColor st, fShaderIndex := - 1\<rparr>)
                    (s\<lparr>fContentStream := out2 @ [WriteText ''rg\<newline>'']\<rparr>)))) = Inr s'"
      by (simp add: updateDrawingState_fill_def)
    then obtain out1 out2 where o1: "emit_pdf_color (fColor st) (fContentStream s) = Inr out1"
      and o2: "emit_pdf_color (fColor st) (out1 @ [WriteText ''RG '']) = Inr out2"
      and fin: "s' = setCurrentEntry
                    ((currentEntry s)\<lparr>fColor := fColor st, fShaderIndex := - 1\<rparr>)
                    (s\<lparr>fContentStream := out2 @ [WriteText ''rg\<newline>'']\<rparr>)"
      by (auto simp: bindE_Inr_iff)
    from o1 obtain e1 where e1: "out1 = fContentStream s @ e1" "quiet e1"
      using emit_pdf_color_quiet by blast
    from o2 obtain e2 where e2: "out2 = (out1 @ [WriteText ''RG '']) @ e2" "quiet e2"
      using emit_pdf_color_quiet by blast
    have q: "quiet (e1 @ [WriteText ''RG ''] @ e2 @ [WriteText ''rg\<newline>''])"
      using e1 e2 by (simp add: quiet_def opSave_def opRestore_def)
    have "s\<lparr>fContentStream := out2 @ [WriteText ''rg\<newline>'']\<rparr> =
          writeOps (e1 @ [WriteText ''RG ''] @ e2 @ [WriteText ''rg\<newline>'']) s"
      by (simp add: writeOps_def e1 e2)
    with fin have "s' = setCurrentEntry
                    ((currentEntry s)\<lparr>fColor := fColor st, fShaderIndex := - 1\<rparr>)
                    (writeOps (e1 @ [WriteText ''RG ''] @ e2 @ [WriteText ''rg\<newline>'']) s)"
      by simp
    with q show ?thesis by blast
  qed
qed

lemma updateDrawingState_fill_steps:
  assumes "updateDrawingState_fill st s = Inr s'"
  shows "(wf_stack s \<longrightarrow> wf_stack s') \<and> fStackDepth s' = fStackDepth s \<and>
         (\<exists>e. fContentStream s' = fContentStream s @ e \<and> quiet e)"
  using updateDrawingState_fill_cases[OF assms]
proof
  assume "s' = s"
  then show ?thesis by simp
next
  assume "\<exists>e ops. quiet ops \<and> s' = setCurrentEntry e (writeOps ops s)"
  then obtain e ops where "quiet ops" "s' = setCurrentEntry e (writeOps ops s)" by blast
  then show ?thesis by (auto simp: setCurrentEntry_simps writeOps_simps)
qed

lemma updateDrawingState_gs_steps:
  "(wf_stack (updateDrawingState_gs st s) = wf_stack s) \<and>
   fStackDepth (updateDrawingState_gs st s) = fStackDepth s \<and>
   (\<exists>e. fContentStream (updateDrawingState_gs st s) = fContentStream s @ e \<and> quiet e)"
proof (cases "fGraphicStateIndex st \<noteq> fGraphicStateIndex (currentEntry s)")
  case True
  have "quiet [ApplyGraphicState (fGraphicStateIndex st)]"
    by (simp add: quiet_def opSave_def opRestore_def)
  with True show ?thesis
    by (auto simp: updateDrawingState_gs_def setCurrentEntry_simps writeOps_simps)
next
  case False
  then show ?thesis by (simp add: updateDrawingState_gs_def)
qed

lemma updateDrawingState_text_steps:
  "(wf_stack (updateDrawingState_text st s) = wf_stack s) \<and>
   fStackDepth (updateDrawingState_text st s) = fStackDepth s \<and>
   (\<exists>e. fContentStream (updateDrawingState_text st s) = fContentStream s @ e \<and> quiet e)"
proof (cases "fTextScaleX st \<noteq> 0")
  case False
  then show ?thesis by (simp add: updateDrawingState_text_def)
next
  case True
  define s1 where "s1 = (if fTextScaleX st \<noteq> fTextScaleX (currentEntry s) then
              setCurrentEntry ((currentEntry s)\<lparr>fTextScaleX := fTextScaleX st\<rparr>)
                (writeOps [ScalarAppend (fTextScaleX st * 100), WriteText '' Tz\<newline>''] s)
            else s)"
  have q1: "quiet [ScalarAppend (fTextScaleX st * 100), WriteText '' Tz\<newline>'']"
    by (simp add: quiet_def opSave_def opRestore_def)
  have q2: "quiet [WriteDecAsText (style_value (fTextFill st)), WriteText '' Tr\<newline>'']"
    by (simp add: quiet_def opSave_def opRestore_def)
  have a: "wf_stack s1 = wf_stack s \<and> fStackDepth s1 = fStackDepth s \<and>
       (\<exists>e. fContentStream s1 = fContentStream s @ e \<and> quiet e)"
    using q1 by (auto simp: s1_def setCurrentEntry_simps writeOps_simps)
  have r: "updateDrawingState_text st s =
        (if fTextFill st \<noteq> fTextFill (currentEntry s1) then
              setCurrentEntry ((currentEntry s1)\<lparr>fTextFill := fTextFill st\<rparr>)
                (writeOps [WriteDecAsText (style_value (fTextFill st)),
                           WriteText '' Tr\<newline>''] s1)
            else s1)"
    using True by (simp add: updateDrawingState_text_def s1_def Let_def)
  have b: "wf_stack (updateDrawingState_text st s) = wf_stack s1 \<and>
       fStackDepth (updateDrawingState_text st s) = fStackDepth s1 \<and>
       (\<exists>e. fContentStream (updateDrawingState_text st s) = fContentStream s1 @ e \<and> quiet e)"
    unfolding r using q2 by (auto simp: setCurrentEntry_simps writeOps_simps)
  from a obtain e1 where e1: "fContentStream s1 = fContentStream s @ e1" "quiet e1" by blast
  from b obtain e2 where e2: "fContentStream (updateDrawingState_text st s) = fContentStream s1 @ e2"
     "quiet e2" by blast
  have "fContentStream (updateDrawingState_text st s) = fContentStream s @ (e1 @ e2) \<and> quiet (e1 @ e2)"
    using e1 e2 by simp
  then have "\<exists>e. fContentStream (updateDrawingState_text st s) = fContentStream s @ e \<and> quiet e"
    by blast
  with a b show ?thesis by simp
qed

lemma updateDrawingState_steps:
  assumes "updateDrawingState st s = Inr s'"
  shows "(wf_stack s \<longrightarrow> wf_stack s') \<and> fStackDepth s' = fStackDepth s \<and>
         (\<exists>e. fContentStream s' = fContentStream s @ e \<and> quiet e)"
proof -
  from assms obtain s1 where f: "updateDrawingState_fill st s = Inr s1"
    and fin: "s' = updateDrawingState_text st (updateDrawingState_gs st s1)"
    by (auto simp: updateDrawingState_def bindE_Inr_iff)
  note a = updateDrawingState_fill_steps[OF f]
  note b = updateDrawingState_gs_steps[of st s1]
  note c = updateDrawingState_text_steps[of st "updateDrawingState_gs st s1"]
  from a obtain e1 where e1: "fContentStream s1 = fContentStream s @ e1" "quiet e1" by blast
  from b obtain e2 where e2: "fContentStream (updateDrawingState_gs st s1) = fContentStream s1 @ e2"
    "quiet e2" by blast
  from c obtain e3 where e3: "fContentStream s' = fContentStream (updateDrawingState_gs st s1) @ e3"
    "quiet e3" unfolding fin by blast
  have "fContentStream s' = fContentStream s @ (e1 @ e2 @ e3) \<and> quiet (e1 @ e2 @ e3)"
    using e1 e2 e3 by simp
  then have ex: "\<exists>e. fContentStream s' = fContentStream s @ e \<and> quiet e" by blast
  have w: "wf_stack s \<longrightarrow> wf_stack s'" using a b c unfolding fin by simp
  have d: "fStackDepth s' = fStackDepth s" using a b c unfolding fin by simp
  from ex w d show ?thesis by simp
qed

lemma wf_stack_new: "wf_stack (GraphicStackState_new cs cr out)"
  by (simp add: wf_stack_def GraphicStackState_new_def)

lemma apply_stack_op_steps:
  assumes "apply_stack_op G x s = Inr s'"
  shows "(wf_stack s \<longrightarrow> wf_stack s') \<and> balanced_step s s'"
proof (cases x)
  case OpPush
  with assms show ?thesis by (auto intro: wf_push push_balanced)
next
  case OpPop
  with assms show ?thesis by (auto intro: wf_pop pop_balanced)
next
  case (OpUpdateClip cs cr tr)
  with assms show ?thesis using updateClip_steps by simp
next
  case (OpUpdateMatrix m)
  with assms show ?thesis using updateMatrix_steps by simp
next
  case (OpUpdateDrawingState st)
  with assms have u: "updateDrawingState st s = Inr s'" by simp
  from updateDrawingState_steps[OF u] show ?thesis
    by (auto intro: balanced_quiet)
qed

lemma run_stack_ops_steps:
  "run_stack_ops G xs s = Inr s' \<Longrightarrow> (wf_stack s \<longrightarrow> wf_stack s') \<and> balanced_step s s'"
proof (induction xs arbitrary: s)
  case Nil
  then show ?case by (simp add: balanced_step_refl)
next
  case (Cons x xs)
  from Cons.prems obtain s1 where a: "apply_stack_op G x s = Inr s1"
    and r: "run_stack_ops G xs s1 = Inr s'" by (auto simp: bindE_Inr_iff)
  from apply_stack_op_steps[OF a] Cons.IH[OF r] show ?case
    by (blast intro: balanced_step_trans)
qed

lemma run_stack_ops_append:
  "run_stack_ops G (xs @ ys) s = bindE (run_stack_ops G xs s) (run_stack_ops G ys)"
  by (induction xs arbitrary: s) (simp_all add: bindE_def split: sum.splits)

lemma run_stack_ops_prefix:
  assumes "run_stack_ops G xs s = Inr s'"
  shows "\<exists>sn. run_stack_ops G (take n xs) s = Inr sn"
proof -
  have "run_stack_ops G (take n xs @ drop n xs) s = Inr s'" using assms by simp
  then show ?thesis unfolding run_stack_ops_append by (auto simp: bindE_Inr_iff)
qed

text \<open>
  Claim C6.  The stack of \<^verbatim>\<open>GraphicStackState\<close> is balanced and bounded.  A push
  below the limit writes exactly one \<^verbatim>\<open>q\<close> and raises the depth by one; a pop above
  depth 0 writes exactly one \<^verbatim>\<open>Q\<close> and lowers it by one.  Along every sequence of
  stack operations that runs without a failed assertion, started on a new stack, the
  depth stays at most \<open>kMaxStackDepth = 12\<close> after every step; and \<^verbatim>\<open>drainStack\<close> then
  returns, at depth 0, with as many \<^verbatim>\<open>q\<close> as \<^verbatim>\<open>Q\<close> among the writes made since the
  stack was created.
\<close>

theorem stack_balanced_and_bounded:
  "(\<forall>s. fStackDepth s < kMaxStackDepth \<longrightarrow>
        push s = Inr (s\<lparr>fContentStream := fContentStream s @ [WriteText ''q\<newline>''],
                        fStackDepth := fStackDepth s + 1,
                        fEntries := (fEntries s)[fStackDepth s + 1 := fEntries s ! fStackDepth s]\<rparr>)) \<and>
   (\<forall>s. 0 < fStackDepth s \<longrightarrow>
        pop s = Inr (s\<lparr>fContentStream := fContentStream s @ [WriteText ''Q\<newline>''],
                       fStackDepth := fStackDepth s - 1\<rparr>)) \<and>
   (\<forall>G ops cs cr out s.
      run_stack_ops G ops (GraphicStackState_new cs cr out) = Inr s \<longrightarrow>
        (\<forall>n. \<exists>sn. run_stack_ops G (take n ops) (GraphicStackState_new cs cr out) = Inr sn \<and>
                  fStackDepth sn \<le> kMaxStackDepth) \<and>
        (\<exists>s' emitted.
           drainStack s = Inr s' \<and> fStackDepth s' = 0 \<and>
           fContentStream s' = out @ emitted \<and>
           count_list emitted (WriteText ''q\<newline>'') =
           count_list emitted (WriteText ''Q\<newline>'')))"
proof (intro conjI allI impI)
  fix s :: GraphicStackState assume "fStackDepth s < kMaxStackDepth"
  then show "push s = Inr (s\<lparr>fContentStream := fContentStream s @ [WriteText ''q\<newline>''],
                        fStackDepth := fStackDepth s + 1,
                        fEntries := (fEntries s)[fStackDepth s + 1 := fEntries s ! fStackDepth s]\<rparr>)"
    by (simp add: push_def)
next
  fix s :: GraphicStackState assume "0 < fStackDepth s"
  then show "pop s = Inr (s\<lparr>fContentStream := fContentStream s @ [WriteText ''Q\<newline>''],
                       fStackDepth := fStackDepth s - 1\<rparr>)"
    by (simp add: pop_def)
next
  fix G ops cs cr out s n
  assume run: "run_stack_ops G ops (GraphicStackState_new cs cr out) = Inr s"
  from run_stack_ops_prefix[OF run, of n] obtain sn where
    sn: "run_stack_ops G (take n ops) (GraphicStackState_new cs cr out) = Inr sn" by blast
  from run_stack_ops_steps[OF sn] wf_stack_new have "wf_stack sn" by blast
  with sn show "\<exists>sn. run_stack_ops G (take n ops) (GraphicStackState_new cs cr out) = Inr sn \<and>
                  fStackDepth sn \<le> kMaxStackDepth"
    by (auto simp: wf_stack_def)
next
  fix G ops cs cr out s
  assume run: "run_stack_ops G ops (GraphicStackState_new cs cr out) = Inr s"
  let ?s0 = "GraphicStackState_new cs cr out"
  from run_stack_ops_steps[OF run] have b1: "balanced_step ?s0 s" by blast
  from drainStack_balanced[of s] obtain s' where
    d: "drainStack s = Inr s'" "fStackDepth s' = 0" "balanced_step s s'" by blast
  from balanced_step_trans[OF b1 d(3)] obtain e where
    e: "fContentStream s' = fContentStream ?s0 @ e"
       "count_list e opSave + fStackDepth ?s0 = count_list e opRestore + fStackDepth s'"
    unfolding balanced_step_def by blast
  have "fContentStream s' = out @ e" using e(1) by (simp add: GraphicStackState_new_def)
  moreover have "count_list e (WriteText ''q\<newline>'') = count_list e (WriteText ''Q\<newline>'')"
    using e(2) d(2) by (simp add: GraphicStackState_new_def opSave_def opRestore_def)
  ultimately show "\<exists>s' emitted.
           drainStack s = Inr s' \<and> fStackDepth s' = 0 \<and>
           fContentStream s' = out @ emitted \<and>
           count_list emitted (WriteText ''q\<newline>'') =
           count_list emitted (WriteText ''Q\<newline>'')"
    using d(1,2) by blast
qed

lemma run_w: "\<exists>s. run_stack_ops G0 [OpPush, OpPush, OpPop, OpUpdateMatrix (setTranslate 1 2)] sW = Inr s \<and> fStackDepth s = 2"
  by (simp add: sW_def GraphicStackState_new_def push_def pop_def kMaxStackDepth_def
       updateMatrix_def currentEntry_def setCurrentEntry_def writeOps_def isIdentity_def
       matrix_reset_def setTranslate_def GraphicStateEntry_new_def)

theorem stack_balanced_and_bounded_witness:
  "fStackDepth sW < kMaxStackDepth \<and>
   push sW = Inr (sW\<lparr>fContentStream := fContentStream sW @ [WriteText ''q\<newline>''],
                        fStackDepth := fStackDepth sW + 1,
                        fEntries := (fEntries sW)[fStackDepth sW + 1 := fEntries sW ! fStackDepth sW]\<rparr>) \<and>
   0 < fStackDepth (sW\<lparr>fStackDepth := 1\<rparr>) \<and>
   pop (sW\<lparr>fStackDepth := 1\<rparr>) = Inr (sW\<lparr>fContentStream := [WriteText ''Q\<newline>''], fStackDepth := 0\<rparr>) \<and>
   (\<exists>s. run_stack_ops G0 [OpPush, OpPush, OpPop, OpUpdateMatrix (setTranslate 1 2)] sW = Inr s \<and>
        fStackDepth s = 2 \<and>
        (\<exists>s' emitted.
           drainStack s = Inr s' \<and> fStackDepth s' = 0 \<and>
           fContentStream s' = [] @ emitted \<and>
           count_list emitted (WriteText ''q\<newline>'') =
           count_list emitted (WriteText ''Q\<newline>'')))"
proof -
  have d0: "fStackDepth sW < kMaxStackDepth"
    by (simp add: sW_def GraphicStackState_new_def kMaxStackDepth_def)
  have d1: "0 < fStackDepth (sW\<lparr>fStackDepth := 1\<rparr>)" by simp
  from run_w obtain s where
    r: "run_stack_ops G0 [OpPush, OpPush, OpPop, OpUpdateMatrix (setTranslate 1 2)]
          (GraphicStackState_new [] (SkRegion []) []) = Inr s" and d: "fStackDepth s = 2"
    unfolding sW_def by blast
  note T = stack_balanced_and_bounded
  note p1 = T[THEN conjunct1, rule_format, OF d0]
  note p2 = T[THEN conjunct2, THEN conjunct1, rule_format, OF d1]
  note p3 = T[THEN conjunct2, THEN conjunct2, rule_format, OF r, THEN conjunct2]
  have c: "\<exists>s. run_stack_ops G0 [OpPush, OpPush, OpPop, OpUpdateMatrix (setTranslate 1 2)] sW = Inr s \<and>
        fStackDepth s = 2 \<and>
        (\<exists>s' emitted.
           drainStack s = Inr s' \<and> fStackDepth s' = 0 \<and>
           fContentStream s' = [] @ emitted \<and>
           count_list emitted (WriteText ''q\<newline>'') =
           count_list emitted (WriteText ''Q\<newline>''))"
    using r d p3 unfolding sW_def by blast
  have b: "pop (sW\<lparr>fStackDepth := 1\<rparr>) = Inr (sW\<lparr>fContentStream := [WriteText ''Q\<newline>''], fStackDepth := 0\<rparr>)"
    using p2 by (simp add: sW_def GraphicStackState_new_def)
  from d0 p1 d1 b c show ?thesis by simp
qed

lemma currentEntry_setCurrentEntry:
  "fStackDepth s < length (fEntries s) \<Longrightarrow> currentEntry (setCurrentEntry e s) = e"
  by (simp add: currentEntry_def setCurrentEntry_def)

lemma wf_stack_depth_less: "wf_stack s \<Longrightarrow> fStackDepth s < length (fEntries s)"
  by (simp add: wf_stack_def)

lemma currentEntry_stream_update [simp]:
  "currentEntry (s\<lparr>fContentStream := out\<rparr>) = currentEntry s"
  by (simp add: currentEntry_def)

lemma updateClip_applied:
  assumes u: "updateClip G cs cr tr s = Inr s'" and wf: "wf_stack s"
  shows "fClipStack (currentEntry s') = cs"
proof -
  from updateClip_cases[OF u] consider
      (same) "cs = fClipStack (currentEntry s)" "s' = s"
    | (found) "updateClip_pop cs s = Inr (True, s')"
    | (replay) s1 s2 out where "updateClip_pop cs s = Inr (False, s1)" "push s1 = Inr s2"
             "s' = setCurrentEntry ((currentEntry s2)\<lparr>fClipStack := cs, fClipRegion := cr\<rparr>)
                        (s2\<lparr>fContentStream := out\<rparr>)"
    by blast
  then show ?thesis
  proof cases
    case same
    then show ?thesis by simp
  next
    case found
    from updateClip_pop_result[OF found] show ?thesis by simp
  next
    case replay
    from updateClip_pop_result[OF replay(1)] wf have "wf_stack s1" by (simp add: wf_stack_def)
    then have "wf_stack s2" using replay(2) by (rule wf_push)
    then have "fStackDepth (s2\<lparr>fContentStream := out\<rparr>) < length (fEntries (s2\<lparr>fContentStream := out\<rparr>))"
      by (simp add: wf_stack_def)
    from currentEntry_setCurrentEntry[OF this] show ?thesis by (simp add: replay(3))
  qed
qed

lemma updateMatrix_applied:
  assumes u: "updateMatrix m s = Inr s'" and wf: "wf_stack s"
  shows "fMatrix (currentEntry s') = m"
proof -
  from updateMatrix_cases[OF u] consider
      (same) "m = fMatrix (currentEntry s)" "s' = s"
    | (ident) "isIdentity m" "isIdentity (fMatrix (currentEntry s'))"
    | (pushed) s1 s2 where "s1 = s \<or> pop s = Inr s1" "push s1 = Inr s2"
          "s' = setCurrentEntry ((currentEntry s2)\<lparr>fMatrix := m\<rparr>) (writeOps [AppendTransform m] s2)"
    by (auto simp: isIdentity_def)
  then show ?thesis
  proof cases
    case same
    then show ?thesis by simp
  next
    case ident
    then show ?thesis by (simp add: isIdentity_def)
  next
    case pushed
    from pushed(1) wf have "wf_stack s1" by (auto intro: wf_pop)
    then have "wf_stack s2" using pushed(2) by (rule wf_push)
    then have "fStackDepth (writeOps [AppendTransform m] s2) < length (fEntries (writeOps [AppendTransform m] s2))"
      by (simp add: wf_stack_def writeOps_simps)
    from currentEntry_setCurrentEntry[OF this] show ?thesis by (simp add: pushed(3))
  qed
qed

lemma fill_noop: "fill_applied st (currentEntry s) \<Longrightarrow> updateDrawingState_fill st s = Inr s"
  by (auto simp: fill_applied_def updateDrawingState_fill_def split: if_splits)

lemma gs_noop:
  "fGraphicStateIndex (currentEntry s) = fGraphicStateIndex st \<Longrightarrow> updateDrawingState_gs st s = s"
  by (simp add: updateDrawingState_gs_def)

lemma text_noop: "text_applied st (currentEntry s) \<Longrightarrow> updateDrawingState_text st s = s"
  by (auto simp: text_applied_def updateDrawingState_text_def)

lemma fill_post:
  assumes u: "updateDrawingState_fill st s = Inr s'" and wf: "wf_stack s"
  shows "fill_applied st (currentEntry s') \<and> wf_stack s'"
proof -
  note L = currentEntry_setCurrentEntry
  have len: "\<And>ops. fStackDepth (writeOps ops s) < length (fEntries (writeOps ops s))"
     "\<And>out. fStackDepth (s\<lparr>fContentStream := out\<rparr>) < length (fEntries (s\<lparr>fContentStream := out\<rparr>))"
    using wf by (simp_all add: wf_stack_def writeOps_simps)
  show ?thesis
  proof (cases "fShaderIndex st \<ge> 0")
    case True
    with u wf show ?thesis
      by (auto simp: updateDrawingState_fill_def fill_applied_def L[OF len(1)] split: if_splits)
  next
    case False
    show ?thesis
    proof (cases "fColor st \<noteq> fColor (currentEntry s) \<or> fShaderIndex (currentEntry s) \<ge> 0")
      case c: False
      with False u wf show ?thesis by (auto simp: updateDrawingState_fill_def fill_applied_def)
    next
      case c: True
      with False u obtain out where "s' = setCurrentEntry
                    ((currentEntry s)\<lparr>fColor := fColor st, fShaderIndex := - 1\<rparr>)
                    (s\<lparr>fContentStream := out\<rparr>)"
        by (auto simp: updateDrawingState_fill_def bindE_Inr_iff)
      with False wf show ?thesis by (simp add: L[OF len(2)] fill_applied_def)
    qed
  qed
qed

lemma gs_post:
  assumes wf: "wf_stack s"
  shows "fGraphicStateIndex (currentEntry (updateDrawingState_gs st s)) = fGraphicStateIndex st \<and>
         fColor (currentEntry (updateDrawingState_gs st s)) = fColor (currentEntry s) \<and>
         fShaderIndex (currentEntry (updateDrawingState_gs st s)) = fShaderIndex (currentEntry s) \<and>
         wf_stack (updateDrawingState_gs st s)"
proof -
  have len: "\<And>ops. fStackDepth (writeOps ops s) < length (fEntries (writeOps ops s))"
    using wf by (simp_all add: wf_stack_def writeOps_simps)
  show ?thesis using wf
    by (simp add: updateDrawingState_gs_def currentEntry_setCurrentEntry[OF len] writeOps_simps)
qed

lemma text_post:
  assumes wf: "wf_stack s"
  shows "text_applied st (currentEntry (updateDrawingState_text st s)) \<and>
         fGraphicStateIndex (currentEntry (updateDrawingState_text st s)) = fGraphicStateIndex (currentEntry s) \<and>
         fColor (currentEntry (updateDrawingState_text st s)) = fColor (currentEntry s) \<and>
         fShaderIndex (currentEntry (updateDrawingState_text st s)) = fShaderIndex (currentEntry s) \<and>
         wf_stack (updateDrawingState_text st s)"
proof (cases "fTextScaleX st \<noteq> 0")
  case False
  with wf show ?thesis by (simp add: updateDrawingState_text_def text_applied_def)
next
  case True
  define s1 where "s1 = (if fTextScaleX st \<noteq> fTextScaleX (currentEntry s) then
              setCurrentEntry ((currentEntry s)\<lparr>fTextScaleX := fTextScaleX st\<rparr>)
                (writeOps [ScalarAppend (fTextScaleX st * 100), WriteText '' Tz\<newline>''] s)
            else s)"
  have len: "\<And>ops s. wf_stack s \<Longrightarrow> fStackDepth (writeOps ops s) < length (fEntries (writeOps ops s))"
    by (simp_all add: wf_stack_def writeOps_simps)
  have a: "wf_stack s1 \<and> fTextScaleX (currentEntry s1) = fTextScaleX st \<and>
        fGraphicStateIndex (currentEntry s1) = fGraphicStateIndex (currentEntry s) \<and>
        fColor (currentEntry s1) = fColor (currentEntry s) \<and>
        fShaderIndex (currentEntry s1) = fShaderIndex (currentEntry s)"
    using wf by (simp add: s1_def currentEntry_setCurrentEntry[OF len[OF wf]] writeOps_simps)
  then have wf1: "wf_stack s1" by simp
  have r: "updateDrawingState_text st s =
        (if fTextFill st \<noteq> fTextFill (currentEntry s1) then
              setCurrentEntry ((currentEntry s1)\<lparr>fTextFill := fTextFill st\<rparr>)
                (writeOps [WriteDecAsText (style_value (fTextFill st)),
                           WriteText '' Tr\<newline>''] s1)
            else s1)"
    using True by (simp add: updateDrawingState_text_def s1_def Let_def)
  show ?thesis unfolding r using a
    by (simp add: currentEntry_setCurrentEntry[OF len[OF wf1]] writeOps_simps text_applied_def)
qed

lemma updateDrawingState_applied:
  assumes u: "updateDrawingState st s = Inr s'" and wf: "wf_stack s"
  shows "updateDrawingState st s' = Inr s'"
proof -
  from u obtain s1 where f: "updateDrawingState_fill st s = Inr s1"
    and fin: "s' = updateDrawingState_text st (updateDrawingState_gs st s1)"
    by (auto simp: updateDrawingState_def bindE_Inr_iff)
  note a = fill_post[OF f wf]
  then have wf1: "wf_stack s1" by simp
  note b = gs_post[OF wf1, of st]
  then have wf2: "wf_stack (updateDrawingState_gs st s1)" by simp
  note c = text_post[OF wf2, of st]
  have F: "fill_applied st (currentEntry s')"
    using a b c unfolding fin fill_applied_def by simp
  have G: "fGraphicStateIndex (currentEntry s') = fGraphicStateIndex st"
    using b c unfolding fin by simp
  have T: "text_applied st (currentEntry s')" using c unfolding fin by simp
  show ?thesis
    by (simp add: updateDrawingState_def fill_noop[OF F] gs_noop[OF G] text_noop[OF T])
qed

text \<open>
  Claim C5.  Each of \<^verbatim>\<open>updateClip\<close>, \<^verbatim>\<open>updateMatrix\<close> and \<^verbatim>\<open>updateDrawingState\<close> is
  idempotent: when a call has returned, a second call with the same target returns the
  very same stack state, so it writes nothing more to the content stream.
\<close>

theorem updates_idempotent:
  assumes "wf_stack s"
  shows "(updateClip G clipStack clipRegion translation s = Inr s1 \<longrightarrow>
            updateClip G clipStack clipRegion translation s1 = Inr s1) \<and>
         (updateMatrix matrix s = Inr s2 \<longrightarrow> updateMatrix matrix s2 = Inr s2) \<and>
         (updateDrawingState state s = Inr s3 \<longrightarrow> updateDrawingState state s3 = Inr s3)"
proof (intro conjI impI)
  assume u: "updateClip G clipStack clipRegion translation s = Inr s1"
  from updateClip_applied[OF u assms]
  show "updateClip G clipStack clipRegion translation s1 = Inr s1"
    by (simp add: updateClip_def)
next
  assume u: "updateMatrix matrix s = Inr s2"
  from updateMatrix_applied[OF u assms]
  show "updateMatrix matrix s2 = Inr s2" by (simp add: updateMatrix_def)
next
  assume u: "updateDrawingState state s = Inr s3"
  from updateDrawingState_applied[OF u assms]
  show "updateDrawingState state s3 = Inr s3" .
qed

lemma clip_in_effect_iff:
  "clip_in_effect cs s \<longleftrightarrow> (\<exists>d\<le>fStackDepth s. fClipStack (fEntries s ! d) = cs)"
proof -
  have "clip_in_effect cs s \<longleftrightarrow> (\<exists>d<Suc (fStackDepth s). fClipStack (fEntries s ! d) = cs)"
    by (simp add: clip_in_effect_def list_ex_iff Bex_def del: upt_Suc)
  then show ?thesis by (simp only: less_Suc_eq_le)
qed

lemma needRegion_plain: "list_all plain_clip iter \<Longrightarrow> \<not> needRegion iter"
  by (induction iter) (auto simp: plain_clip_def split: option.splits)

text \<open>
  Claim C4.  \<^verbatim>\<open>updateClip\<close> never writes the inherited clip of frame 0 again.  When
  the target clip stack is the one of the current frame, nothing changes and nothing is
  written.  When the target extends the inherited clip stack by intersect elements that
  need no region (rectangles, or paths whose fill type is not inverse) and is not already
  in effect in a frame of the stack, the writes are the pops, one \<^verbatim>\<open>q\<close>, and then
  exactly one clip instruction for each element of the extension, in order: a rectangle
  mapped by the translation, a path transformed by it.
\<close>

theorem updateClip_skips_inherited_prefix:
  assumes "wf_stack s"
  shows "(clipStack = fClipStack (currentEntry s) \<longrightarrow>
            updateClip G clipStack clipRegion translation s = Inr s) \<and>
         (\<not> clip_in_effect (fClipStack (fEntries s ! 0) @ suffix) s \<and> list_all plain_clip suffix \<longrightarrow>
            updateClip G (fClipStack (fEntries s ! 0) @ suffix) clipRegion translation s =
              Inr \<lparr>fEntries = (fEntries s)[1 := (fEntries s ! 0)
                      \<lparr>fClipStack := fClipStack (fEntries s ! 0) @ suffix,
                       fClipRegion := clipRegion\<rparr>],
                   fStackDepth = 1,
                   fContentStream =
                     fContentStream s @ replicate (fStackDepth s) (WriteText ''Q\<newline>'') @
                     [WriteText ''q\<newline>''] @
                     concat (map (clip_instruction G
                                    (setTranslate (of_int (fX translation)) (of_int (fY translation))))
                               suffix)\<rparr>)"
proof (intro conjI impI)
  assume "clipStack = fClipStack (currentEntry s)"
  then show "updateClip G clipStack clipRegion translation s = Inr s"
    by (simp add: updateClip_def)
next
  assume a: "\<not> clip_in_effect (fClipStack (fEntries s ! 0) @ suffix) s \<and> list_all plain_clip suffix"
  let ?cs = "fClipStack (fEntries s ! 0) @ suffix"
  have ne: "\<forall>d\<le>fStackDepth s. fClipStack (fEntries s ! d) \<noteq> ?cs"
    using a by (simp add: clip_in_effect_iff)
  have len: "1 < length (fEntries s)" using assms by (simp add: wf_stack_def kMaxStackDepth_def)
  have nr: "\<not> needRegion suffix" using a by (simp add: needRegion_plain)
  have pl: "\<forall>c\<in>set suffix. fOp c = kIntersect_Op \<and> (fRect c \<noteq> None \<or> fPath c \<noteq> None)"
    using a by (auto simp: list_all_iff plain_clip_def)
  show "updateClip G ?cs clipRegion translation s =
              Inr \<lparr>fEntries = (fEntries s)[1 := (fEntries s ! 0)
                      \<lparr>fClipStack := ?cs, fClipRegion := clipRegion\<rparr>],
                   fStackDepth = 1,
                   fContentStream =
                     fContentStream s @ replicate (fStackDepth s) (WriteText ''Q\<newline>'') @
                     [WriteText ''q\<newline>''] @
                     concat (map (clip_instruction G
                                    (setTranslate (of_int (fX translation)) (of_int (fY translation))))
                               suffix)\<rparr>"
    by (simp add: updateClip_replay[OF ne refl len] nr emit_clip_entries_plain[OF pl])
qed

text \<open>
  Claim C3.  When the part of the target clip stack that follows the inherited prefix
  has an element whose op is not intersect, or a path with an inverse fill type, and the
  target is not already in effect in a frame of the stack, \<^verbatim>\<open>updateClip\<close> writes the
  pops, one \<^verbatim>\<open>q\<close>, and then the single clip instruction made of the boundary path of
  the clip region: no instruction for any single element.
\<close>

theorem updateClip_region_fallback:
  assumes "wf_stack s"
    and "\<not> clip_in_effect (fClipStack (fEntries s ! 0) @ suffix) s"
    and "list_ex needs_region suffix"
    and "getBoundaryPath G clipRegion = Some boundary"
  shows "updateClip G (fClipStack (fEntries s ! 0) @ suffix) clipRegion translation s =
              Inr \<lparr>fEntries = (fEntries s)[1 := (fEntries s ! 0)
                      \<lparr>fClipStack := fClipStack (fEntries s ! 0) @ suffix,
                       fClipRegion := clipRegion\<rparr>],
                   fStackDepth = 1,
                   fContentStream =
                     fContentStream s @ replicate (fStackDepth s) (WriteText ''Q\<newline>'') @
                     [WriteText ''q\<newline>''] @ region_clip_instruction boundary\<rparr>"
proof -
  let ?cs = "fClipStack (fEntries s ! 0) @ suffix"
  have ne: "\<forall>d\<le>fStackDepth s. fClipStack (fEntries s ! d) \<noteq> ?cs"
    using assms(2) by (simp add: clip_in_effect_iff)
  have len: "1 < length (fEntries s)" using assms(1) by (simp add: wf_stack_def kMaxStackDepth_def)
  have nr: "needRegion suffix" using assms(3) by (simp add: needRegion_iff list_ex_iff)
  show ?thesis
    by (simp add: updateClip_replay[OF ne refl len] nr assms(4) emit_clip_region)
qed

lemma sA_facts:
  "wf_stack sA" "fStackDepth sA = 0" "fClipStack (fEntries sA ! 0) = [clipA]"
  "fContentStream sA = []" "currentEntry sA = fEntries sA ! 0"
  by (simp_all add: sA_def wf_stack_def GraphicStackState_new_def kMaxStackDepth_def currentEntry_def)

lemma clip_distinct: "clipB \<noteq> clipA" "clipD \<noteq> clipA"
  by (simp_all add: clipA_def clipB_def clipD_def)

theorem updateClip_skips_inherited_prefix_witness:
  "wf_stack sA \<and>
   updateClip GT [clipA] regionW (SkIPoint 5 7) sA = Inr sA \<and>
   \<not> clip_in_effect [clipA, clipB, clipC] sA \<and>
   list_all plain_clip [clipB, clipC] \<and>
   (\<exists>s'. updateClip GT [clipA, clipB, clipC] regionW (SkIPoint 5 7) sA = Inr s' \<and>
         fContentStream s' =
           [WriteText ''q\<newline>'',
            AppendRectangle (SkRect 15 17 55 57), WriteText ''W n\<newline>'',
            EmitPath \<lparr>fFillType = kEvenOdd_FillType, fPoints = [(5, 7), (15, 7), (15, 17)]\<rparr>,
            WriteText ''W* n\<newline>''])"
proof -
  have nie: "\<not> clip_in_effect (fClipStack (fEntries sA ! 0) @ [clipB, clipC]) sA"
    by (simp add: clip_in_effect_def sA_facts)
  have pl: "list_all plain_clip [clipB, clipC]"
    by (simp add: plain_clip_def clipB_def clipC_def isInverseFillType_def)
  note T = updateClip_skips_inherited_prefix[OF sA_facts(1), of _ GT regionW "SkIPoint 5 7"]
  have a: "updateClip GT [clipA] regionW (SkIPoint 5 7) sA = Inr sA"
    using T[of "[clipA]", THEN conjunct1] by (simp add: sA_facts)
  from T[of "[]" "[clipB, clipC]", THEN conjunct2, rule_format, OF conjI[OF nie pl]]
  have b: "\<exists>s'. updateClip GT [clipA, clipB, clipC] regionW (SkIPoint 5 7) sA = Inr s' \<and>
         fContentStream s' =
           [WriteText ''q\<newline>'',
            AppendRectangle (SkRect 15 17 55 57), WriteText ''W n\<newline>'',
            EmitPath \<lparr>fFillType = kEvenOdd_FillType, fPoints = [(5, 7), (15, 7), (15, 17)]\<rparr>,
            WriteText ''W* n\<newline>'']"
    by (simp add: sA_facts clip_instruction_def GT_def clipB_def clipC_def setTranslate_def)
  from nie have nie': "\<not> clip_in_effect [clipA, clipB, clipC] sA" by (simp add: sA_facts)
  from sA_facts(1) a nie' pl b show ?thesis by simp
qed

theorem updateClip_region_fallback_witness:
  "wf_stack sA \<and>
   \<not> clip_in_effect [clipA, clipB, clipD] sA \<and>
   list_ex needs_region [clipB, clipD] \<and>
   getBoundaryPath GT regionW = Some \<lparr>fFillType = kWinding_FillType, fPoints = [(0, 0)]\<rparr> \<and>
   (\<exists>s'. updateClip GT [clipA, clipB, clipD] regionW (SkIPoint 5 7) sA = Inr s' \<and>
         fContentStream s' =
           [WriteText ''q\<newline>'',
            EmitPath \<lparr>fFillType = kWinding_FillType, fPoints = [(0, 0)]\<rparr>,
            WriteText ''W n\<newline>''])"
proof -
  have nie: "\<not> clip_in_effect (fClipStack (fEntries sA ! 0) @ [clipB, clipD]) sA"
    by (simp add: clip_in_effect_def sA_facts)
  have nr: "list_ex needs_region [clipB, clipD]"
    by (simp add: needs_region_def clipD_def)
  have bp: "getBoundaryPath GT regionW = Some \<lparr>fFillType = kWinding_FillType, fPoints = [(0, 0)]\<rparr>"
    by (simp add: GT_def regionW_def)
  from updateClip_region_fallback[OF sA_facts(1) nie nr bp, of "SkIPoint 5 7"]
  have b: "\<exists>s'. updateClip GT [clipA, clipB, clipD] regionW (SkIPoint 5 7) sA = Inr s' \<and>
         fContentStream s' =
           [WriteText ''q\<newline>'',
            EmitPath \<lparr>fFillType = kWinding_FillType, fPoints = [(0, 0)]\<rparr>,
            WriteText ''W n\<newline>'']"
    by (simp add: sA_facts region_clip_instruction_def)
  from nie have nie': "\<not> clip_in_effect [clipA, clipB, clipD] sA" by (simp add: sA_facts)
  from sA_facts(1) nie' nr bp b show ?thesis by simp
qed

theorem updates_idempotent_witness:
  "wf_stack sA \<and>
   (\<exists>s1. updateClip GT [clipA, clipB] regionW (SkIPoint 5 7) sA = Inr s1 \<and>
          fContentStream s1 \<noteq> [] \<and>
          updateClip GT [clipA, clipB] regionW (SkIPoint 5 7) s1 = Inr s1) \<and>
   (\<exists>s2. updateMatrix (setTranslate 3 4) sA = Inr s2 \<and>
          fContentStream s2 \<noteq> [] \<and>
          updateMatrix (setTranslate 3 4) s2 = Inr s2) \<and>
   (\<exists>s3. updateDrawingState stateW sA = Inr s3 \<and>
          fContentStream s3 \<noteq> [] \<and>
          updateDrawingState stateW s3 = Inr s3)"
proof -
  have nie: "\<not> clip_in_effect (fClipStack (fEntries sA ! 0) @ [clipB]) sA"
    by (simp add: clip_in_effect_def sA_facts)
  have pl: "list_all plain_clip [clipB]"
    by (simp add: plain_clip_def clipB_def)
  have len: "1 < length (fEntries sA)" using sA_facts(1) by (simp add: wf_stack_def kMaxStackDepth_def)
  have ne: "\<forall>d\<le>fStackDepth sA. fClipStack (fEntries sA ! d) \<noteq> fClipStack (fEntries sA ! 0) @ [clipB]"
    using nie by (simp add: clip_in_effect_iff)
  have "\<exists>s1. updateClip GT (fClipStack (fEntries sA ! 0) @ [clipB]) regionW (SkIPoint 5 7) sA = Inr s1 \<and>
          fContentStream s1 \<noteq> []"
    unfolding updateClip_replay[OF ne refl len] by (simp add: clipB_def emit_clip_def)
  then obtain s1 where u1: "updateClip GT [clipA, clipB] regionW (SkIPoint 5 7) sA = Inr s1"
    and n1: "fContentStream s1 \<noteq> []" by (auto simp: sA_facts)
  have "\<exists>s2. updateMatrix (setTranslate 3 4) sA = Inr s2 \<and> fContentStream s2 \<noteq> []"
    by (simp add: updateMatrix_def sA_def GraphicStackState_new_def currentEntry_def
          GraphicStateEntry_new_def matrix_reset_def setTranslate_def isIdentity_def
          push_def kMaxStackDepth_def setCurrentEntry_def writeOps_def)
  then obtain s2 where u2: "updateMatrix (setTranslate 3 4) sA = Inr s2"
    and n2: "fContentStream s2 \<noteq> []" by blast
  have "\<exists>s3. updateDrawingState stateW sA = Inr s3 \<and> fContentStream s3 \<noteq> []"
    by (simp add: updateDrawingState_def updateDrawingState_fill_def updateDrawingState_gs_def
          updateDrawingState_text_def stateW_def sA_def GraphicStackState_new_def currentEntry_def
          GraphicStateEntry_new_def setCurrentEntry_def writeOps_def emit_pdf_color_def
          SkColorGetA_def SK_ColorBLACK_def Let_def)
  then obtain s3 where u3: "updateDrawingState stateW sA = Inr s3"
    and n3: "fContentStream s3 \<noteq> []" by blast
  note T = updates_idempotent[OF sA_facts(1)]
  from T[of GT "[clipA, clipB]" regionW "SkIPoint 5 7" s1, THEN conjunct1, rule_format, OF u1]
       T[of _ _ _ _ _ "setTranslate 3 4" s2, THEN conjunct2, THEN conjunct1, rule_format, OF u2]
       T[of _ _ _ _ _ _ _ stateW s3, THEN conjunct2, THEN conjunct2, rule_format, OF u3]
       u1 u2 u3 n1 n2 n3 sA_facts(1)
  show ?thesis by blast
qed

section \<open>Properties of the device\<close>

lemma find_nonneg_or_minus1: "SkTDArray_find xs x = - 1 \<or> 0 \<le> SkTDArray_find xs x"
  by (induction xs) (auto simp: Let_def)

lemma find_neg_iff: "SkTDArray_find xs x < 0 \<longleftrightarrow> x \<notin> set xs"
  using find_nonneg_or_minus1[of _ x]
  by (induction xs) (auto simp: Let_def)

lemma find_bound: "x \<in> set xs \<Longrightarrow> 0 \<le> SkTDArray_find xs x \<and> SkTDArray_find xs x < int (length xs)"
  by (induction xs) (auto simp: Let_def find_neg_iff)

lemma find_nth: "x \<in> set xs \<Longrightarrow> xs ! nat (SkTDArray_find xs x) = x"
proof (induction xs)
  case Nil
  then show ?case by simp
next
  case (Cons y ys)
  show ?case
  proof (cases "y = x")
    case True
    then show ?thesis by simp
  next
    case False
    with Cons.prems have m: "x \<in> set ys" by simp
    from find_bound[OF m] have "nat (SkTDArray_find ys x + 1) = Suc (nat (SkTDArray_find ys x))"
      by (simp add: nat_add_distrib)
    with False m Cons.IH show ?thesis by (simp add: Let_def find_neg_iff)
  qed
qed

lemma find_append_member:
  "x \<in> set xs \<Longrightarrow> SkTDArray_find (xs @ ys) x = SkTDArray_find xs x"
  by (induction xs) (auto simp: Let_def find_neg_iff)




lemma intern_index:
  "fst (intern table x) = (if x \<in> set table then SkTDArray_find table x else int (length table))"
  by (simp add: intern_def Let_def find_neg_iff SkTDArray_count_def)








text \<open>
  Claim C7.  \<^verbatim>\<open>setUpContentEntry\<close> returns no entry, and leaves the device as it was,
  when the clip region is empty and when the mode of the paint is destination; a draw
  call then returns the device unchanged, without an error.
\<close>

theorem no_entry_for_empty_clip_or_dst_mode:
  "(regionIsEmpty G clipRegion \<or> paintMode paint = kDst_Mode \<longrightarrow>
      setUpContentEntry G F clipStack clipRegion matrix paint hasText d = Inr (None, None, d) \<and>
      drawWithContentEntry G F clipStack clipRegion matrix paint hasText ops d = Inr d)"
proof (intro impI)
  assume a: "regionIsEmpty G clipRegion \<or> paintMode paint = kDst_Mode"
  have s: "setUpContentEntry G F clipStack clipRegion matrix paint hasText d = Inr (None, None, d)"
    using a by (auto simp: setUpContentEntry.simps isMaskMode_def Let_def)
  then show "setUpContentEntry G F clipStack clipRegion matrix paint hasText d = Inr (None, None, d) \<and>
      drawWithContentEntry G F clipStack clipRegion matrix paint hasText ops d = Inr d"
    by (simp add: drawWithContentEntry_def)
qed

theorem no_entry_for_empty_clip_or_dst_mode_witness:
  "regionIsEmpty GT (SkRegion []) \<and>
   setUpContentEntry GT FT (Some [clipA, clipB]) (SkRegion []) matrix_reset stockPaint False dev1
     = Inr (None, None, dev1) \<and>
   drawWithContentEntry GT FT (Some [clipA, clipB]) (SkRegion []) matrix_reset stockPaint False
     rectOps dev1 = Inr dev1 \<and>
   \<not> regionIsEmpty GT regionW \<and> paintMode paintDst = kDst_Mode \<and>
   setUpContentEntry GT FT (Some [clipA]) regionW matrix_reset paintDst False dev1
     = Inr (None, None, dev1) \<and>
   drawWithContentEntry GT FT (Some [clipA]) regionW matrix_reset paintDst False rectOps dev1
     = Inr dev1"
proof -
  have e: "regionIsEmpty GT (SkRegion [])" by (simp add: GT_def)
  have n: "\<not> regionIsEmpty GT regionW" by (simp add: GT_def regionW_def)
  have m: "paintMode paintDst = kDst_Mode" by (simp add: paintMode_def paintDst_def)
  note T = no_entry_for_empty_clip_or_dst_mode
  from T[of GT "SkRegion []" stockPaint FT "Some [clipA, clipB]" matrix_reset False dev1 rectOps]
       T[of GT regionW paintDst FT "Some [clipA]" matrix_reset False dev1 rectOps] e n m
  show ?thesis by simp
qed


subsection \<open>Merging of entries and the destination-over order\<close>

lemma addGraphicStateResource_heap:
  "addGraphicStateResource gs (d\<lparr>heapEntries := h\<rparr>) =
     (fst (addGraphicStateResource gs d), (snd (addGraphicStateResource gs d))\<lparr>heapEntries := h\<rparr>)"
  by (simp add: addGraphicStateResource_def Let_def)

lemma addShaderResource_heap:
  "addShaderResource s (d\<lparr>heapEntries := h\<rparr>) =
     (fst (addShaderResource s d), (snd (addShaderResource s d))\<lparr>heapEntries := h\<rparr>)"
  by (simp add: addShaderResource_def Let_def)

lemma populate_heap:
  "populateGraphicStateEntryFromPaint G F m cs cr p ht e (d\<lparr>heapEntries := h\<rparr>) =
     bindE (populateGraphicStateEntryFromPaint G F m cs cr p ht e d)
       (\<lambda>(st, d'). Inr (st, d'\<lparr>heapEntries := h\<rparr>))"
  by (simp add: populateGraphicStateEntryFromPaint_def Let_def split_beta
        addGraphicStateResource_heap addShaderResource_heap
      split: option.splits)

lemma addGraphicStateResource_frame:
  "heapEntries (snd (addGraphicStateResource gs d)) = heapEntries d \<and>
   fLastContentEntry (snd (addGraphicStateResource gs d)) = fLastContentEntry d \<and>
   fContentEntries (snd (addGraphicStateResource gs d)) = fContentEntries d \<and>
   heapObjects (snd (addGraphicStateResource gs d)) = heapObjects d \<and>
   fXObjectResources (snd (addGraphicStateResource gs d)) = fXObjectResources d"
  by (simp add: addGraphicStateResource_def Let_def)

lemma addShaderResource_frame:
  "heapEntries (snd (addShaderResource gs d)) = heapEntries d \<and>
   fLastContentEntry (snd (addShaderResource gs d)) = fLastContentEntry d \<and>
   fContentEntries (snd (addShaderResource gs d)) = fContentEntries d \<and>
   heapObjects (snd (addShaderResource gs d)) = heapObjects d \<and>
   fXObjectResources (snd (addShaderResource gs d)) = fXObjectResources d"
  by (simp add: addShaderResource_def Let_def)

lemma populate_frame:
  assumes "populateGraphicStateEntryFromPaint G F m cs cr p ht e d = Inr (st, d')"
  shows "heapEntries d' = heapEntries d \<and> fLastContentEntry d' = fLastContentEntry d \<and>
         fContentEntries d' = fContentEntries d \<and> heapObjects d' = heapObjects d \<and>
         fXObjectResources d' = fXObjectResources d"
  using assms
  by (auto simp: populateGraphicStateEntryFromPaint_def Let_def split_beta
        addGraphicStateResource_frame addShaderResource_frame
      split: option.splits if_splits)

lemma compareInitialState_refl: "compareInitialState a a"
  by (simp add: compareInitialState_def)

lemma lookupEntry_Some: "entryAt d a = Some e \<Longrightarrow> lookupEntry d a = Inr e"
  by (simp add: lookupEntry_def)

lemma entryAt_less: "entryAt d a = Some e \<Longrightarrow> a < length (heapEntries d) \<and> heapEntries d ! a = e"
  by (auto simp: entryAt_def split: if_splits)

text \<open>The device after \<^verbatim>\<open>new ContentEntry\<close> and the call of
  \<^verbatim>\<open>populateGraphicStateEntryFromPaint\<close> on the new entry.\<close>

lemma setUp_entry_fresh_prefix:
  assumes fresh: "chooseEntry d = Inr (length (heapEntries d), True,
                    d\<lparr>heapEntries := heapEntries d @ [ContentEntry_new]\<rparr>)"
    and pop: "populateGraphicStateEntryFromPaint G F m cs cr p ht GraphicStateEntry_new d = Inr (st, dP)"
  shows "setUpContentEntry_entry G F cs cr m p ht mode d =
     (let n = length (heapEntries d);
          d3 = dP\<lparr>heapEntries := heapEntries d @ [ContentEntry_new\<lparr>fState := st\<rparr>]\<rparr> in
       case fLastContentEntry d3 of
         None \<Rightarrow>
           Inr (Some n, d3\<lparr>fContentEntries := Some n, fLastContentEntry := Some n\<rparr>)
       | Some lastEntry \<Rightarrow>
           bindE (lookupEntry d3 lastEntry) (\<lambda>l.
           bindE (lookupEntry d3 n) (\<lambda>e3.
             if mode \<noteq> kDstOver_Mode \<and> compareInitialState (fState e3) (fState l)
             then Inr (Some lastEntry, d3\<lparr>heapEntries := butlast (heapEntries d3)\<rparr>)
             else if mode = kDstOver_Mode
             then Inr (Some n,
                       (storeEntry n (e3\<lparr>fNext := fContentEntries d3\<rparr>) d3)
                         \<lparr>fContentEntries := Some n\<rparr>)
             else Inr (Some n,
                       (storeEntry lastEntry (l\<lparr>fNext := Some n\<rparr>) d3)
                         \<lparr>fLastContentEntry := Some n\<rparr>))))"
proof -
  let ?n = "length (heapEntries d)"
  let ?d1 = "d\<lparr>heapEntries := heapEntries d @ [ContentEntry_new]\<rparr>"
  have l1: "lookupEntry ?d1 ?n = Inr ContentEntry_new"
    by (simp add: lookupEntry_def entryAt_def)
  have p1: "populateGraphicStateEntryFromPaint G F m cs cr p ht (fState ContentEntry_new) ?d1 =
     Inr (st, dP\<lparr>heapEntries := heapEntries d @ [ContentEntry_new]\<rparr>)"
    by (simp add: populate_heap pop ContentEntry_new_def)
  have s: "storeEntry ?n (ContentEntry_new\<lparr>fState := st\<rparr>)
             (dP\<lparr>heapEntries := heapEntries d @ [ContentEntry_new]\<rparr>) =
           dP\<lparr>heapEntries := heapEntries d @ [ContentEntry_new\<lparr>fState := st\<rparr>]\<rparr>"
    by (simp add: storeEntry_def)
  show ?thesis
    unfolding setUpContentEntry_entry_def fresh
    by (simp add: l1 p1 s Let_def cong: option.case_cong if_cong)
qed

lemma chooseEntry_first:
  "fLastContentEntry d = None \<Longrightarrow>
   chooseEntry d = Inr (length (heapEntries d), True,
                    d\<lparr>heapEntries := heapEntries d @ [ContentEntry_new]\<rparr>)"
  by (simp add: chooseEntry_def)

lemma chooseEntry_fresh:
  "fLastContentEntry d = Some t \<Longrightarrow> entryAt d t = Some te \<Longrightarrow> fContent te \<noteq> [] \<Longrightarrow>
   chooseEntry d = Inr (length (heapEntries d), True,
                    d\<lparr>heapEntries := heapEntries d @ [ContentEntry_new]\<rparr>)"
  by (simp add: chooseEntry_def lookupEntry_Some)

lemma chooseEntry_reuse:
  "fLastContentEntry d = Some t \<Longrightarrow> entryAt d t = Some te \<Longrightarrow> fContent te = [] \<Longrightarrow>
   chooseEntry d = Inr (t, False, d)"
  by (simp add: chooseEntry_def lookupEntry_Some)

lemma setUp_entry_first:
  assumes "fLastContentEntry d = None"
    and pop: "populateGraphicStateEntryFromPaint G F m cs cr p ht GraphicStateEntry_new d = Inr (st, dP)"
  shows "setUpContentEntry_entry G F cs cr m p ht mode d =
     Inr (Some (length (heapEntries d)),
          dP\<lparr>heapEntries := heapEntries d @ [ContentEntry_new\<lparr>fState := st\<rparr>],
             fContentEntries := Some (length (heapEntries d)),
             fLastContentEntry := Some (length (heapEntries d))\<rparr>)"
  using populate_frame[OF pop] assms(1)
  by (simp add: setUp_entry_fresh_prefix[OF chooseEntry_first[OF assms(1)] pop] Let_def)

lemma setUp_entry_fresh:
  assumes t: "fLastContentEntry d = Some t" "entryAt d t = Some te" "fContent te \<noteq> []"
    and pop: "populateGraphicStateEntryFromPaint G F m cs cr p ht GraphicStateEntry_new d = Inr (st, dP)"
  shows "setUpContentEntry_entry G F cs cr m p ht mode d =
     (if mode \<noteq> kDstOver_Mode \<and> compareInitialState st (fState te)
      then Inr (Some t, dP)
      else if mode = kDstOver_Mode
      then Inr (Some (length (heapEntries d)),
                dP\<lparr>heapEntries := heapEntries d @
                      [\<lparr>fState = st, fContent = [], fNext = fContentEntries d\<rparr>],
                   fContentEntries := Some (length (heapEntries d))\<rparr>)
      else Inr (Some (length (heapEntries d)),
                dP\<lparr>heapEntries := (heapEntries d)[t := te\<lparr>fNext := Some (length (heapEntries d))\<rparr>] @
                      [\<lparr>fState = st, fContent = [], fNext = None\<rparr>],
                   fLastContentEntry := Some (length (heapEntries d))\<rparr>))"
proof -
  note fr = populate_frame[OF pop]
  let ?n = "length (heapEntries d)"
  let ?d3 = "dP\<lparr>heapEntries := heapEntries d @ [ContentEntry_new\<lparr>fState := st\<rparr>]\<rparr>"
  from entryAt_less[OF t(2)] have tl: "t < ?n" "heapEntries d ! t = te" by simp_all
  have l: "lookupEntry ?d3 t = Inr te"
    using tl by (simp add: lookupEntry_def entryAt_def nth_append)
  have e3: "lookupEntry ?d3 ?n = Inr (ContentEntry_new\<lparr>fState := st\<rparr>)"
    by (simp add: lookupEntry_def entryAt_def)
  have same: "dP\<lparr>heapEntries := heapEntries d\<rparr> = dP" using fr by simp
  have tail: "fLastContentEntry ?d3 = Some t" using fr t(1) by simp
  have "setUpContentEntry_entry G F cs cr m p ht mode d =
     (if mode \<noteq> kDstOver_Mode \<and> compareInitialState st (fState te)
             then Inr (Some t, ?d3\<lparr>heapEntries := butlast (heapEntries ?d3)\<rparr>)
             else if mode = kDstOver_Mode
             then Inr (Some ?n,
                       (storeEntry ?n (ContentEntry_new\<lparr>fState := st, fNext := fContentEntries ?d3\<rparr>) ?d3)
                         \<lparr>fContentEntries := Some ?n\<rparr>)
             else Inr (Some ?n,
                       (storeEntry t (te\<lparr>fNext := Some ?n\<rparr>) ?d3)
                         \<lparr>fLastContentEntry := Some ?n\<rparr>))"
    unfolding setUp_entry_fresh_prefix[OF chooseEntry_fresh[OF t] pop] Let_def tail
    by (simp add: l e3)
  also have "\<dots> = (if mode \<noteq> kDstOver_Mode \<and> compareInitialState st (fState te)
      then Inr (Some t, dP)
      else if mode = kDstOver_Mode
      then Inr (Some (length (heapEntries d)),
                dP\<lparr>heapEntries := heapEntries d @
                      [\<lparr>fState = st, fContent = [], fNext = fContentEntries d\<rparr>],
                   fContentEntries := Some (length (heapEntries d))\<rparr>)
      else Inr (Some (length (heapEntries d)),
                dP\<lparr>heapEntries := (heapEntries d)[t := te\<lparr>fNext := Some (length (heapEntries d))\<rparr>] @
                      [\<lparr>fState = st, fContent = [], fNext = None\<rparr>],
                   fLastContentEntry := Some (length (heapEntries d))\<rparr>))"
    using fr tl
    by (simp add: same storeEntry_def ContentEntry_new_def list_update_append)
  finally show ?thesis .
qed

lemma setUp_entry_reuse:
  assumes t: "fLastContentEntry d = Some t" "entryAt d t = Some te" "fContent te = []"
    and pop: "populateGraphicStateEntryFromPaint G F m cs cr p ht (fState te) d = Inr (st, dP)"
    and mode: "mode \<noteq> kDstOver_Mode"
  shows "setUpContentEntry_entry G F cs cr m p ht mode d =
     Inr (Some t, dP\<lparr>heapEntries := (heapEntries d)[t := te\<lparr>fState := st\<rparr>]\<rparr>)"
proof -
  note fr = populate_frame[OF pop]
  from entryAt_less[OF t(2)] have tl: "t < length (heapEntries d)" "heapEntries d ! t = te" by simp_all
  let ?d3 = "dP\<lparr>heapEntries := (heapEntries d)[t := te\<lparr>fState := st\<rparr>]\<rparr>"
  have s: "storeEntry t (te\<lparr>fState := st\<rparr>) dP = ?d3"
    using fr by (simp add: storeEntry_def)
  have l: "lookupEntry ?d3 t = Inr (te\<lparr>fState := st\<rparr>)"
    using tl by (simp add: lookupEntry_def entryAt_def)
  have tail: "fLastContentEntry ?d3 = Some t" using fr t(1) by simp
  show ?thesis
    unfolding setUpContentEntry_entry_def chooseEntry_reuse[OF t]
    using mode
    by (simp add: lookupEntry_Some[OF t(2)] pop s tail l compareInitialState_refl Let_def)
qed

lemma setUp_plain:
  assumes "\<not> regionIsEmpty G cr"
    and "paintMode p = kSrcOver_Mode \<or> paintMode p = kDstOver_Mode"
  shows "setUpContentEntry G F cs cr m p ht d =
     bindE (setUpContentEntry_entry G F (effectiveClipStack G cs cr d) cr m p ht (paintMode p) d)
       (\<lambda>(entry, d2). Inr (entry, None, d2))"
  using assms by (auto simp: setUpContentEntry.simps isMaskMode_def Let_def)

lemma finish_plain:
  "\<not> isMaskMode mode \<Longrightarrow> finishContentEntry G F mode None d = Inr d"
  by (simp add: finishContentEntry.simps)

lemma chain_extend:
  "chain d p es \<Longrightarrow> \<forall>a<length (heapEntries d). entryAt d' a = entryAt d a \<Longrightarrow> chain d' p es"
proof (induction es arbitrary: p)
  case Nil
  then show ?case by (cases p) simp_all
next
  case (Cons e es)
  from Cons.prems(1) obtain a where p: "p = Some a" and e: "entryAt d a = Some e"
    and r: "chain d (fNext e) es" by (cases p) simp_all
  from entryAt_less[OF e] Cons.prems(2) e have "entryAt d' a = Some e" by simp
  with Cons.IH[OF r Cons.prems(2)] p show ?case by simp
qed

text \<open>
  Claim C2, as amended.  A draw call whose mode is destination-over and for which a new
  content entry is made (the chain is empty, or its last entry has content) gets the new
  entry at the head of the chain: the chain of the device is then the new entry followed
  by the entries it had, so the new entry is replayed first.  The tail pointer is left
  as it was exactly when the chain was not empty; for an empty chain it becomes the new
  entry.
\<close>

theorem dstover_entry_becomes_head:
  assumes "paintMode paint = kDstOver_Mode"
    and "\<not> regionIsEmpty G clipRegion"
    and "populateGraphicStateEntryFromPaint G F matrix
           (effectiveClipStack G clipStack clipRegion d) clipRegion paint hasText
           GraphicStateEntry_new d = Inr (st, dP)"
    and "chain d (fContentEntries d) es"
    and "case fLastContentEntry d of
           None \<Rightarrow> fContentEntries d = None
         | Some t \<Rightarrow> (case entryAt d t of None \<Rightarrow> False | Some te \<Rightarrow> fContent te \<noteq> [])"
  shows "\<exists>d'. setUpContentEntry G F clipStack clipRegion matrix paint hasText d =
                Inr (Some (length (heapEntries d)), None, d') \<and>
              fContentEntries d' = Some (length (heapEntries d)) \<and>
              chain d' (fContentEntries d')
                (\<lparr>fState = st, fContent = [], fNext = fContentEntries d\<rparr> # es) \<and>
              (fLastContentEntry d' = fLastContentEntry d) = (fLastContentEntry d \<noteq> None) \<and>
              (fLastContentEntry d = None \<longrightarrow>
                 fLastContentEntry d' = Some (length (heapEntries d)))"
proof -
  let ?n = "length (heapEntries d)"
  let ?new = "\<lparr>fState = st, fContent = [], fNext = fContentEntries d\<rparr>"
  let ?cs = "effectiveClipStack G clipStack clipRegion d"
  note pl = setUp_plain[OF assms(2) disjI2[OF assms(1)], of F clipStack matrix hasText d]
  show ?thesis
  proof (cases "fLastContentEntry d")
    case None
    with assms(5) have h: "fContentEntries d = None" by simp
    let ?d' = "dP\<lparr>heapEntries := heapEntries d @ [ContentEntry_new\<lparr>fState := st\<rparr>],
             fContentEntries := Some ?n, fLastContentEntry := Some ?n\<rparr>"
    have s: "setUpContentEntry G F clipStack clipRegion matrix paint hasText d =
                Inr (Some ?n, None, ?d')"
      unfolding pl by (simp add: setUp_entry_first[OF None assms(3)])
    have old: "\<forall>a<length (heapEntries d). entryAt ?d' a = entryAt d a"
      by (simp add: entryAt_def nth_append)
    have c: "chain ?d' (Some ?n) (?new # es)"
      using chain_extend[OF assms(4) old] h
      by (simp add: entryAt_def ContentEntry_new_def)
    from s c None show ?thesis by (intro exI[of _ ?d']) simp
  next
    case (Some t)
    with assms(5) obtain te where te: "entryAt d t = Some te" "fContent te \<noteq> []"
      by (auto split: option.splits)
    let ?d' = "dP\<lparr>heapEntries := heapEntries d @ [?new], fContentEntries := Some ?n\<rparr>"
    have s: "setUpContentEntry G F clipStack clipRegion matrix paint hasText d =
                Inr (Some ?n, None, ?d')"
      unfolding pl by (simp add: setUp_entry_fresh[OF Some te assms(3)] assms(1))
    have old: "\<forall>a<length (heapEntries d). entryAt ?d' a = entryAt d a"
      by (simp add: entryAt_def nth_append)
    have c: "chain ?d' (Some ?n) (?new # es)"
      using chain_extend[OF assms(4) old]
      by (simp add: entryAt_def)
    have tl: "fLastContentEntry ?d' = fLastContentEntry d"
      using populate_frame[OF assms(3)] by simp
    from s c Some tl show ?thesis by (intro exI[of _ ?d']) simp
  qed
qed

lemma populate_stock_dev1:
  "populateGraphicStateEntryFromPaint GT FT matrix_reset [clipA] regionW paintDstOver False
     GraphicStateEntry_new dev1 = Inr (stateS, dev1)"
  by (simp add: populateGraphicStateEntryFromPaint_def paintDstOver_def stockPaint_def Let_def
        addGraphicStateResource_def FT_def dev1_def dev0_def stateS_def GraphicStateEntry_new_def
        SkColorSetA_def SK_ColorBLACK_def matrix_reset_def)

lemma populate_stock_dev0:
  "populateGraphicStateEntryFromPaint GT FT matrix_reset [clipA] regionW paintDstOver False
     GraphicStateEntry_new dev0 = Inr (stateS, dev0\<lparr>fGraphicStateResources := [ForPaint 0]\<rparr>)"
  by (simp add: populateGraphicStateEntryFromPaint_def paintDstOver_def stockPaint_def Let_def
        addGraphicStateResource_def FT_def dev0_def stateS_def GraphicStateEntry_new_def
        SkColorSetA_def SK_ColorBLACK_def matrix_reset_def SkTDArray_count_def)

lemma fixture_facts:
  "\<not> regionIsEmpty GT regionW" "paintMode paintDstOver = kDstOver_Mode"
  "effectiveClipStack GT (Some cs) cr d = cs"
  "fLastContentEntry dev1 = Some 0" "entryAt dev1 0 = Some entryR" "fContent entryR \<noteq> []"
  "fLastContentEntry dev0 = None" "fContentEntries dev0 = None" "fContentEntries dev1 = Some 0"
  "heapEntries dev1 = [entryR]" "heapEntries dev0 = []"
  by (simp_all add: GT_def regionW_def paintMode_def paintDstOver_def effectiveClipStack_def
        dev1_def dev0_def entryAt_def entryR_def rectOps_def)

theorem dstover_tail_pointer_counterexample:
  "setUpContentEntry GT FT (Some [clipA]) regionW matrix_reset paintDstOver False dev1 =
     Inr (Some 1, None, dev1D) \<and>
   fContentEntries dev1 = Some 0 \<and> fLastContentEntry dev1 = Some 0 \<and>
   fLastContentEntry dev1D = fLastContentEntry dev1 \<and>
   setUpContentEntry GT FT (Some [clipA]) regionW matrix_reset paintDstOver False dev0 =
     Inr (Some 0, None, dev0D) \<and>
   fContentEntries dev0 = None \<and> fLastContentEntry dev0 = None \<and>
   fLastContentEntry dev0D = Some 0"
proof -
  have a: "setUpContentEntry GT FT (Some [clipA]) regionW matrix_reset paintDstOver False dev1 =
     Inr (Some 1, None, dev1D)"
    unfolding setUp_plain[OF fixture_facts(1) disjI2[OF fixture_facts(2)]] fixture_facts(3)
      setUp_entry_fresh[OF fixture_facts(4,5,6) populate_stock_dev1]
    by (simp add: fixture_facts dev1D_def)
  have b: "setUpContentEntry GT FT (Some [clipA]) regionW matrix_reset paintDstOver False dev0 =
     Inr (Some 0, None, dev0D)"
    unfolding setUp_plain[OF fixture_facts(1) disjI2[OF fixture_facts(2)]] fixture_facts(3)
      setUp_entry_first[OF fixture_facts(7) populate_stock_dev0]
    by (simp add: fixture_facts dev0D_def ContentEntry_new_def)
  show ?thesis using a b by (simp add: fixture_facts dev1D_def dev0D_def dev1_def dev0_def)
qed

theorem dstover_entry_becomes_head_witness:
  "paintMode paintDstOver = kDstOver_Mode \<and> \<not> regionIsEmpty GT regionW \<and>
   populateGraphicStateEntryFromPaint GT FT matrix_reset [clipA] regionW paintDstOver False
     GraphicStateEntry_new dev1 = Inr (stateS, dev1) \<and>
   chain dev1 (fContentEntries dev1) [entryR] \<and>
   (\<exists>d'. setUpContentEntry GT FT (Some [clipA]) regionW matrix_reset paintDstOver False dev1 =
           Inr (Some 1, None, d') \<and>
         fContentEntries d' = Some 1 \<and>
         chain d' (fContentEntries d')
           [\<lparr>fState = stateS, fContent = [], fNext = Some 0\<rparr>, entryR] \<and>
         fLastContentEntry d' = Some 0)"
proof -
  have c: "chain dev1 (fContentEntries dev1) [entryR]"
    by (simp add: fixture_facts) (simp add: entryR_def)
  have n: "case fLastContentEntry dev1 of
           None \<Rightarrow> fContentEntries dev1 = None
         | Some t \<Rightarrow> (case entryAt dev1 t of None \<Rightarrow> False | Some te \<Rightarrow> fContent te \<noteq> [])"
    by (simp add: fixture_facts)
  have p: "populateGraphicStateEntryFromPaint GT FT matrix_reset
           (effectiveClipStack GT (Some [clipA]) regionW dev1) regionW paintDstOver False
           GraphicStateEntry_new dev1 = Inr (stateS, dev1)"
    by (simp add: fixture_facts populate_stock_dev1)
  from dstover_entry_becomes_head[OF fixture_facts(2,1) p c n]
  have "\<exists>d'. setUpContentEntry GT FT (Some [clipA]) regionW matrix_reset paintDstOver False dev1 =
           Inr (Some 1, None, d') \<and>
         fContentEntries d' = Some 1 \<and>
         chain d' (fContentEntries d')
           [\<lparr>fState = stateS, fContent = [], fNext = Some 0\<rparr>, entryR] \<and>
         fLastContentEntry d' = Some 0"
    by (simp add: fixture_facts)
  with fixture_facts(1,2) populate_stock_dev1 c show ?thesis by simp
qed

lemma writeEntry_result:
  assumes "entryAt d a = Some e"
  shows "writeEntry a ops d =
           Inr (d\<lparr>heapEntries := (heapEntries d)[a := e\<lparr>fContent := fContent e @ ops\<rparr>]\<rparr>)"
  by (simp add: writeEntry_def lookupEntry_Some[OF assms] storeEntry_def)

lemma drawWith_plain:
  assumes "\<not> regionIsEmpty G cr" and "paintMode p = kSrcOver_Mode"
  shows "drawWithContentEntry G F cs cr m p ht ops d =
     bindE (setUpContentEntry_entry G F (effectiveClipStack G cs cr d) cr m p ht kSrcOver_Mode d)
       (\<lambda>(entry, d2). case entry of None \<Rightarrow> Inr d2 | Some a \<Rightarrow> writeEntry a ops d2)"
proof -
  have nm: "\<not> isMaskMode kSrcOver_Mode" by (simp add: isMaskMode_def)
  have w: "\<And>a d2. bindE (writeEntry a ops d2) (\<lambda>d3. finishContentEntry G F kSrcOver_Mode None d3)
              = writeEntry a ops d2"
    by (simp add: bindE_def finish_plain[OF nm] split: sum.splits)
  show ?thesis
    unfolding drawWithContentEntry_def setUp_plain[OF assms(1) disjI1[OF assms(2)]] assms(2)
    by (cases "setUpContentEntry_entry G F (effectiveClipStack G cs cr d) cr m p ht kSrcOver_Mode d")
       (auto simp: w split: option.splits)
qed

lemma bindE3_inversion:
  assumes "bindE c (\<lambda>(entry, isNew, d1). bindE (L d1 entry)
             (\<lambda>e. bindE (P e d1) (K entry isNew d1 e))) = Inr r"
  shows "\<exists>entry isNew d1 e y. c = Inr (entry, isNew, d1) \<and> L d1 entry = Inr e \<and> P e d1 = Inr y"
  using assms by (auto simp: bindE_Inr_iff)

lemma setUp_entry_inversion:
  assumes "setUpContentEntry_entry G F cs cr m p ht mode d = Inr r"
  shows "(fLastContentEntry d = None \<or> (\<exists>t te. fLastContentEntry d = Some t \<and> entryAt d t = Some te)) \<and>
         (\<exists>st dP. populateGraphicStateEntryFromPaint G F m cs cr p ht (entryStateBefore d) d = Inr (st, dP))"
proof -
  from assms have "\<exists>entry isNew d1 e y. chooseEntry d = Inr (entry, isNew, d1) \<and>
      lookupEntry d1 entry = Inr e \<and>
      populateGraphicStateEntryFromPaint G F m cs cr p ht (fState e) d1 = Inr y"
    unfolding setUpContentEntry_entry_def by (rule bindE3_inversion)
  then obtain entry isNew d1 e st d2 where c: "chooseEntry d = Inr (entry, isNew, d1)"
    and l: "lookupEntry d1 entry = Inr e"
    and p: "populateGraphicStateEntryFromPaint G F m cs cr p ht (fState e) d1 = Inr (st, d2)"
    by (metis surj_pair)
  show ?thesis
  proof (cases "fLastContentEntry d")
    case None
    with c have "d1 = d\<lparr>heapEntries := heapEntries d @ [ContentEntry_new]\<rparr>"
      "entry = length (heapEntries d)" by (simp_all add: chooseEntry_def)
    with l have "e = ContentEntry_new" by (simp add: lookupEntry_def entryAt_def)
    with p \<open>d1 = _\<close> have "\<exists>st dP. populateGraphicStateEntryFromPaint G F m cs cr p ht GraphicStateEntry_new d = Inr (st, dP)"
      by (auto simp: populate_heap bindE_Inr_iff ContentEntry_new_def)
    with None show ?thesis by (simp add: entryStateBefore_def)
  next
    case (Some t)
    with c obtain te where te: "entryAt d t = Some te"
      by (auto simp: chooseEntry_def lookupEntry_def bindE_Inr_iff split: option.splits)
    show ?thesis
    proof (cases "fContent te = []")
      case True
      with c Some te have "d1 = d" "entry = t"
        by (simp_all add: chooseEntry_reuse[OF Some te True])
      with l te have "e = te" by (simp add: lookupEntry_def)
      with p \<open>d1 = d\<close> Some te True show ?thesis by (auto simp: entryStateBefore_def)
    next
      case False
      with c Some te have "d1 = d\<lparr>heapEntries := heapEntries d @ [ContentEntry_new]\<rparr>"
        "entry = length (heapEntries d)"
        by (simp_all add: chooseEntry_fresh[OF Some te False])
      with l have "e = ContentEntry_new" by (simp add: lookupEntry_def entryAt_def)
      with p \<open>d1 = _\<close> have "\<exists>st dP. populateGraphicStateEntryFromPaint G F m cs cr p ht GraphicStateEntry_new d = Inr (st, dP)"
        by (auto simp: populate_heap bindE_Inr_iff ContentEntry_new_def)
      with Some te False show ?thesis by (auto simp: entryStateBefore_def)
    qed
  qed
qed

text \<open>A source-over call that gets an entry gets the last entry of the chain, and its
  instructions are at the end of the buffer of that entry.\<close>

lemma srcover_call_writes_tail:
  assumes ne: "\<not> regionIsEmpty G cr" and so: "paintMode p = kSrcOver_Mode"
    and run: "drawWithContentEntry G F cs cr m p ht ops d = Inr dA"
  shows "\<exists>t te c. fLastContentEntry dA = Some t \<and> entryAt dA t = Some te \<and>
                  fContent te = c @ ops"
proof -
  let ?cs = "effectiveClipStack G cs cr d"
  from run obtain entry d2 where
    su: "setUpContentEntry_entry G F ?cs cr m p ht kSrcOver_Mode d = Inr (entry, d2)"
    and wr: "(case entry of None \<Rightarrow> Inr d2 | Some a \<Rightarrow> writeEntry a ops d2) = Inr dA"
    unfolding drawWith_plain[OF ne so] bindE_Inr_iff by auto
  from setUp_entry_inversion[OF su] obtain st dP where
    tl: "fLastContentEntry d = None \<or> (\<exists>t te. fLastContentEntry d = Some t \<and> entryAt d t = Some te)"
    and pop: "populateGraphicStateEntryFromPaint G F m ?cs cr p ht (entryStateBefore d) d = Inr (st, dP)"
    by blast
  note fr = populate_frame[OF pop]
  have k: "kSrcOver_Mode \<noteq> kDstOver_Mode" by simp
  have "\<exists>t te. entry = Some t \<and> fLastContentEntry d2 = Some t \<and> entryAt d2 t = Some te"
  proof (cases "fLastContentEntry d")
    case None
    then have pop': "populateGraphicStateEntryFromPaint G F m ?cs cr p ht GraphicStateEntry_new d = Inr (st, dP)"
      using pop by (simp add: entryStateBefore_def)
    from su have e: "entry = Some (length (heapEntries d))"
      and d2: "d2 = dP\<lparr>heapEntries := heapEntries d @ [ContentEntry_new\<lparr>fState := st\<rparr>],
             fContentEntries := Some (length (heapEntries d)),
             fLastContentEntry := Some (length (heapEntries d))\<rparr>"
      unfolding setUp_entry_first[OF None pop'] by auto
    have "fLastContentEntry d2 = Some (length (heapEntries d))" unfolding d2 by simp
    moreover have "entryAt d2 (length (heapEntries d)) = Some (ContentEntry_new\<lparr>fState := st\<rparr>)"
      unfolding d2 by (simp add: entryAt_def)
    ultimately show ?thesis using e by blast
  next
    case (Some t)
    with tl obtain te where te: "entryAt d t = Some te" by auto
    from entryAt_less[OF te] have tlen: "t < length (heapEntries d)" by simp
    show ?thesis
    proof (cases "fContent te = []")
      case True
      then have pop': "populateGraphicStateEntryFromPaint G F m ?cs cr p ht (fState te) d = Inr (st, dP)"
        using pop Some te by (simp add: entryStateBefore_def)
      from su have e: "entry = Some t"
        and d2: "d2 = dP\<lparr>heapEntries := (heapEntries d)[t := te\<lparr>fState := st\<rparr>]\<rparr>"
        unfolding setUp_entry_reuse[OF Some te True pop' k] by auto
      have "fLastContentEntry d2 = Some t" unfolding d2 using fr Some by simp
      moreover have "entryAt d2 t = Some (te\<lparr>fState := st\<rparr>)"
        unfolding d2 using tlen by (simp add: entryAt_def)
      ultimately show ?thesis using e by blast
    next
      case False
      then have pop': "populateGraphicStateEntryFromPaint G F m ?cs cr p ht GraphicStateEntry_new d = Inr (st, dP)"
        using pop Some te by (simp add: entryStateBefore_def)
      note r = setUp_entry_fresh[OF Some te False pop', of kSrcOver_Mode]
      show ?thesis
      proof (cases "compareInitialState st (fState te)")
        case True
        from su have e: "entry = Some t" and d2: "d2 = dP"
          unfolding r using True by auto
        have "fLastContentEntry d2 = Some t" unfolding d2 using fr Some by simp
        moreover have "entryAt d2 t = Some te"
          unfolding d2 using te fr by (auto simp: entryAt_def split: if_splits)
        ultimately show ?thesis using e by blast
      next
        case False
        let ?n = "length (heapEntries d)"
        from su have e: "entry = Some ?n"
          and d2: "d2 = dP\<lparr>heapEntries := (heapEntries d)[t := te\<lparr>fNext := Some ?n\<rparr>] @
                      [\<lparr>fState = st, fContent = [], fNext = None\<rparr>],
                   fLastContentEntry := Some ?n\<rparr>"
          unfolding r using False by auto
        have "fLastContentEntry d2 = Some ?n" unfolding d2 by simp
        moreover have "entryAt d2 ?n = Some \<lparr>fState = st, fContent = [], fNext = None\<rparr>"
          unfolding d2 by (simp add: entryAt_def nth_append)
        ultimately show ?thesis using e by blast
      qed
    qed
  qed
  then obtain t te where e: "entry = Some t" and t: "fLastContentEntry d2 = Some t"
    and te: "entryAt d2 t = Some te" by blast
  from entryAt_less[OF te] have tlen: "t < length (heapEntries d2)" by simp
  from wr have "dA = d2\<lparr>heapEntries := (heapEntries d2)[t := te\<lparr>fContent := fContent te @ ops\<rparr>]\<rparr>"
    unfolding e by (simp add: writeEntry_result[OF te])
  with t tlen show ?thesis by (auto simp: entryAt_def)
qed

text \<open>Claim C1, as amended.  After a source-over draw call the device has a last entry
  and the instructions of the call are at the end of its buffer.  A second source-over
  call whose state, as built by \<^verbatim>\<open>populateGraphicStateEntryFromPaint\<close>, compares equal
  under \<^verbatim>\<open>compareInitialState\<close> to the state stored in that last entry (or that finds the
  last entry empty) gets the last entry from \<^verbatim>\<open>setUpContentEntry\<close>: no entry is added to
  the store, the first and last pointers of the chain stay, and the buffer of the entry
  holds the instructions of both calls in order.\<close>

theorem equal_state_call_appends_to_tail:
  assumes first: "drawWithContentEntry G F cs1 cr1 m1 p1 ht1 ops1 d = Inr dA"
    and mode1: "paintMode p1 = kSrcOver_Mode" and region1: "\<not> regionIsEmpty G cr1"
    and mode2: "paintMode p2 = kSrcOver_Mode" and region2: "\<not> regionIsEmpty G cr2"
    and tail: "fLastContentEntry dA = Some t" "entryAt dA t = Some te"
    and pop: "populateGraphicStateEntryFromPaint G F m2 (effectiveClipStack G cs2 cr2 dA) cr2 p2 ht2
                (if fContent te = [] then fState te else GraphicStateEntry_new) dA = Inr (st2, dP)"
    and cmp: "fContent te = [] \<or> compareInitialState st2 (fState te)"
  shows "\<exists>c dS dB te'.
           fContent te = c @ ops1 \<and>
           setUpContentEntry G F cs2 cr2 m2 p2 ht2 dA = Inr (Some t, None, dS) \<and>
           drawWithContentEntry G F cs2 cr2 m2 p2 ht2 ops2 dA = Inr dB \<and>
           length (heapEntries dB) = length (heapEntries dA) \<and>
           fContentEntries dB = fContentEntries dA \<and>
           fLastContentEntry dB = Some t \<and>
           entryAt dB t = Some te' \<and>
           fContent te' = c @ ops1 @ ops2"
proof -
  let ?cs = "effectiveClipStack G cs2 cr2 dA"
  from srcover_call_writes_tail[OF region1 mode1 first] tail
  obtain c where c: "fContent te = c @ ops1" by auto
  note fr = populate_frame[OF pop]
  from entryAt_less[OF tail(2)] have tlen: "t < length (heapEntries dA)" by simp
  have k: "kSrcOver_Mode \<noteq> kDstOver_Mode" by simp
  define dS where "dS = (if fContent te = []
      then dP\<lparr>heapEntries := (heapEntries dA)[t := te\<lparr>fState := st2\<rparr>]\<rparr> else dP)"
  define te1 where "te1 = (if fContent te = [] then te\<lparr>fState := st2\<rparr> else te)"
  have su: "setUpContentEntry_entry G F ?cs cr2 m2 p2 ht2 kSrcOver_Mode dA = Inr (Some t, dS)"
  proof (cases "fContent te = []")
    case True
    with pop have pop': "populateGraphicStateEntryFromPaint G F m2 ?cs cr2 p2 ht2 (fState te) dA = Inr (st2, dP)"
      by simp
    show ?thesis unfolding setUp_entry_reuse[OF tail True pop' k] dS_def using True by simp
  next
    case False
    with pop have pop': "populateGraphicStateEntryFromPaint G F m2 ?cs cr2 p2 ht2 GraphicStateEntry_new dA = Inr (st2, dP)"
      by simp
    from False cmp have "compareInitialState st2 (fState te)" by simp
    then show ?thesis
      unfolding setUp_entry_fresh[OF tail False pop', of kSrcOver_Mode] dS_def using False by simp
  qed
  have lenS: "length (heapEntries dS) = length (heapEntries dA)"
    and headS: "fContentEntries dS = fContentEntries dA"
    and tailS: "fLastContentEntry dS = Some t"
    using fr tail(1) by (simp_all add: dS_def)
  have atS: "entryAt dS t = Some te1"
    using fr tail(2) tlen by (auto simp: dS_def te1_def entryAt_def split: if_splits)
  have c1: "fContent te1 = c @ ops1" using c by (simp add: te1_def)
  define dB where "dB = dS\<lparr>heapEntries := (heapEntries dS)[t := te1\<lparr>fContent := fContent te1 @ ops2\<rparr>]\<rparr>"
  have plain: "setUpContentEntry G F cs2 cr2 m2 p2 ht2 dA = Inr (Some t, None, dS)"
    unfolding setUp_plain[OF region2 disjI1[OF mode2]] mode2 su by simp
  have draw: "drawWithContentEntry G F cs2 cr2 m2 p2 ht2 ops2 dA = Inr dB"
    unfolding drawWith_plain[OF region2 mode2] su by (simp add: writeEntry_result[OF atS] dB_def)
  have "length (heapEntries dB) = length (heapEntries dA)" using lenS by (simp add: dB_def)
  moreover have "fContentEntries dB = fContentEntries dA" using headS by (simp add: dB_def)
  moreover have "fLastContentEntry dB = Some t" using tailS by (simp add: dB_def)
  moreover have "entryAt dB t = Some (te1\<lparr>fContent := fContent te1 @ ops2\<rparr>)"
    using tlen lenS by (simp add: dB_def entryAt_def)
  moreover have "fContent (te1\<lparr>fContent := fContent te1 @ ops2\<rparr>) = c @ ops1 @ ops2"
    using c1 by simp
  ultimately show ?thesis using c plain draw by blast
qed

lemma populate_text_dev0:
  "populateGraphicStateEntryFromPaint GT FT matrix_reset [clipA] regionW stockPaint True
     GraphicStateEntry_new dev0 = Inr (stateT1, dev0\<lparr>fGraphicStateResources := [ForPaint 0]\<rparr>)"
  by (simp add: populateGraphicStateEntryFromPaint_def stockPaint_def Let_def
        addGraphicStateResource_def FT_def dev0_def stateS_def stateT1_def GraphicStateEntry_new_def
        SkColorSetA_def SK_ColorBLACK_def matrix_reset_def SkTDArray_count_def)

lemma populate_rect_devT1:
  "populateGraphicStateEntryFromPaint GT FT matrix_reset [clipA] regionW stockPaint False
     GraphicStateEntry_new devT1 = Inr (stateS, devT1)"
  by (simp add: populateGraphicStateEntryFromPaint_def stockPaint_def Let_def
        addGraphicStateResource_def FT_def devT1_def dev0_def stateS_def GraphicStateEntry_new_def
        SkColorSetA_def SK_ColorBLACK_def matrix_reset_def)

lemma populate_wide_devT2:
  "populateGraphicStateEntryFromPaint GT FT matrix_reset [clipA] regionW paintWide True
     GraphicStateEntry_new devT2 = Inr (stateT2, devT2)"
  by (simp add: populateGraphicStateEntryFromPaint_def paintWide_def stockPaint_def Let_def
        addGraphicStateResource_def FT_def devT2_def devT1_def dev0_def stateS_def stateT2_def
        GraphicStateEntry_new_def SkColorSetA_def SK_ColorBLACK_def matrix_reset_def)

lemma text_fixture_facts:
  "paintMode stockPaint = kSrcOver_Mode" "paintMode paintWide = kSrcOver_Mode"
  "fLastContentEntry devT1 = Some 0"
  "entryAt devT1 0 = Some \<lparr>fState = stateT1, fContent = textOps, fNext = None\<rparr>"
  "fLastContentEntry devT2 = Some 0"
  "entryAt devT2 0 = Some \<lparr>fState = stateT1, fContent = textOps @ rectOps, fNext = None\<rparr>"
  "textOps \<noteq> []" "textOps @ rectOps \<noteq> []"
  "compareInitialState stateS stateT1" "compareInitialState stateT2 stateS"
  "\<not> compareInitialState stateT2 stateT1"
  by (simp_all add: paintMode_def stockPaint_def paintWide_def devT1_def devT2_def dev0_def
        entryAt_def textOps_def compareInitialState_def stateS_def stateT1_def stateT2_def)

lemma text_calls:
  "drawWithContentEntry GT FT (Some [clipA]) regionW matrix_reset stockPaint True textOps dev0 =
     Inr devT1"
  "drawWithContentEntry GT FT (Some [clipA]) regionW matrix_reset stockPaint False rectOps devT1 =
     Inr devT2"
  "setUpContentEntry GT FT (Some [clipA]) regionW matrix_reset paintWide True devT2 =
     Inr (Some 1, None, devT3)"
proof -
  show "drawWithContentEntry GT FT (Some [clipA]) regionW matrix_reset stockPaint True textOps dev0 =
     Inr devT1"
    unfolding drawWith_plain[OF fixture_facts(1) text_fixture_facts(1)] fixture_facts(3)
      setUp_entry_first[OF fixture_facts(7) populate_text_dev0]
    by (simp add: fixture_facts writeEntry_def lookupEntry_def entryAt_def storeEntry_def
          ContentEntry_new_def devT1_def dev0_def)
  have e1: "fContent \<lparr>fState = stateT1, fContent = textOps, fNext = None\<rparr> \<noteq> []"
    by (simp add: textOps_def)
  show "drawWithContentEntry GT FT (Some [clipA]) regionW matrix_reset stockPaint False rectOps devT1 =
     Inr devT2"
    unfolding drawWith_plain[OF fixture_facts(1) text_fixture_facts(1)] fixture_facts(3)
      setUp_entry_fresh[OF text_fixture_facts(3,4) e1 populate_rect_devT1]
    by (simp add: text_fixture_facts writeEntry_def lookupEntry_def entryAt_def storeEntry_def
          devT1_def devT2_def dev0_def)
  have e2: "fContent \<lparr>fState = stateT1, fContent = textOps @ rectOps, fNext = None\<rparr> \<noteq> []"
    by (simp add: textOps_def)
  show "setUpContentEntry GT FT (Some [clipA]) regionW matrix_reset paintWide True devT2 =
     Inr (Some 1, None, devT3)"
    unfolding setUp_plain[OF fixture_facts(1) disjI1[OF text_fixture_facts(2)]] fixture_facts(3)
      setUp_entry_fresh[OF text_fixture_facts(5,6) e2 populate_wide_devT2]
    by (simp add: text_fixture_facts devT1_def devT2_def devT3_def dev0_def)
qed

theorem merge_compares_with_stored_state_counterexample:
  "drawWithContentEntry GT FT (Some [clipA]) regionW matrix_reset stockPaint True textOps dev0 =
     Inr devT1 \<and>
   drawWithContentEntry GT FT (Some [clipA]) regionW matrix_reset stockPaint False rectOps devT1 =
     Inr devT2 \<and>
   paintMode stockPaint = kSrcOver_Mode \<and> paintMode paintWide = kSrcOver_Mode \<and>
   populateGraphicStateEntryFromPaint GT FT matrix_reset [clipA] regionW stockPaint False
     GraphicStateEntry_new devT1 = Inr (stateS, devT1) \<and>
   populateGraphicStateEntryFromPaint GT FT matrix_reset [clipA] regionW paintWide True
     GraphicStateEntry_new devT2 = Inr (stateT2, devT2) \<and>
   compareInitialState stateT2 stateS \<and>
   fLastContentEntry devT2 = Some 0 \<and> length (heapEntries devT2) = 1 \<and>
   setUpContentEntry GT FT (Some [clipA]) regionW matrix_reset paintWide True devT2 =
     Inr (Some 1, None, devT3) \<and>
   length (heapEntries devT3) = 2 \<and> fLastContentEntry devT3 = Some 1"
  using text_calls populate_rect_devT1 populate_wide_devT2 text_fixture_facts
  by (simp add: devT2_def devT3_def)

theorem equal_state_call_appends_to_tail_witness:
  "drawWithContentEntry GT FT (Some [clipA]) regionW matrix_reset stockPaint True textOps dev0 =
     Inr devT1 \<and>
   paintMode stockPaint = kSrcOver_Mode \<and> \<not> regionIsEmpty GT regionW \<and>
   fLastContentEntry devT1 = Some 0 \<and>
   entryAt devT1 0 = Some \<lparr>fState = stateT1, fContent = textOps, fNext = None\<rparr> \<and>
   populateGraphicStateEntryFromPaint GT FT matrix_reset [clipA] regionW stockPaint False
     GraphicStateEntry_new devT1 = Inr (stateS, devT1) \<and>
   compareInitialState stateS stateT1 \<and>
   (\<exists>dS dB te'.
      setUpContentEntry GT FT (Some [clipA]) regionW matrix_reset stockPaint False devT1 =
        Inr (Some 0, None, dS) \<and>
      drawWithContentEntry GT FT (Some [clipA]) regionW matrix_reset stockPaint False rectOps devT1 =
        Inr dB \<and>
      length (heapEntries dB) = 1 \<and> fContentEntries dB = Some 0 \<and>
      fLastContentEntry dB = Some 0 \<and> entryAt dB 0 = Some te' \<and>
      fContent te' = textOps @ rectOps)"
proof -
  let ?te = "\<lparr>fState = stateT1, fContent = textOps, fNext = None\<rparr>"
  have p: "populateGraphicStateEntryFromPaint GT FT matrix_reset
             (effectiveClipStack GT (Some [clipA]) regionW devT1) regionW stockPaint False
             (if fContent ?te = [] then fState ?te else GraphicStateEntry_new) devT1 =
           Inr (stateS, devT1)"
    by (simp add: fixture_facts text_fixture_facts populate_rect_devT1)
  have c: "fContent ?te = [] \<or> compareInitialState stateS (fState ?te)"
    by (simp add: text_fixture_facts)
  from equal_state_call_appends_to_tail[OF text_calls(1) text_fixture_facts(1) fixture_facts(1)
      text_fixture_facts(1) fixture_facts(1) text_fixture_facts(3,4) p c, of rectOps]
  have "\<exists>dS dB te'.
      setUpContentEntry GT FT (Some [clipA]) regionW matrix_reset stockPaint False devT1 =
        Inr (Some 0, None, dS) \<and>
      drawWithContentEntry GT FT (Some [clipA]) regionW matrix_reset stockPaint False rectOps devT1 =
        Inr dB \<and>
      length (heapEntries dB) = 1 \<and> fContentEntries dB = Some 0 \<and>
      fLastContentEntry dB = Some 0 \<and> entryAt dB 0 = Some te' \<and>
      fContent te' = textOps @ rectOps"
    by (auto simp: devT1_def)
  with text_calls(1) text_fixture_facts fixture_facts(1) populate_rect_devT1 show ?thesis
    by simp
qed


subsection \<open>The stack depth during \<^verbatim>\<open>content\<close>\<close>

lemma bindE_not_error:
  assumes "m \<noteq> Inl e" and "\<And>x. m = Inr x \<Longrightarrow> f x \<noteq> Inl e"
  shows "bindE m f \<noteq> Inl e"
  using assms by (cases m) auto

lemma bindE_Inl_iff: "bindE m f = Inl e \<longleftrightarrow> m = Inl e \<or> (\<exists>a. m = Inr a \<and> f a = Inl e)"
  by (cases m) simp_all

lemma skip_clip_stack_prefix_no_depth:
  "skip_clip_stack_prefix p st \<noteq> Inl AssertStackDepth"
  by (induction p st rule: skip_clip_stack_prefix.induct) auto

lemma emit_clip_no_depth: "emit_clip p r out \<noteq> Inl AssertStackDepth"
  by (auto simp: emit_clip_def split: option.splits)

lemma emit_clip_entries_no_depth:
  "emit_clip_entries G t iter out \<noteq> Inl AssertStackDepth"
proof (induction iter arbitrary: out)
  case Nil
  show ?case by simp
next
  case (Cons c iter)
  show ?case
    by (auto simp: bindE_Inl_iff Cons.IH emit_clip_no_depth split: option.splits)
qed

lemma updateClip_no_depth:
  "updateClip G cs cr tr s \<noteq> Inl AssertStackDepth"
proof (cases "cs = fClipStack (currentEntry s)")
  case True
  then show ?thesis by (simp add: updateClip_def)
next
  case False
  obtain b s1 where pl: "updateClip_pop cs s = Inr (b, s1)"
    using updateClip_pop_total by blast
  show ?thesis
  proof (cases b)
    case True
    with False pl show ?thesis by (simp add: updateClip_def)
  next
    case nb: False
    from updateClip_pop_result[OF pl] nb have d0: "fStackDepth s1 = 0" by simp
    then obtain s2 where ps: "push s1 = Inr s2" by (simp add: push_def kMaxStackDepth_def)
    have "bindE (skip_clip_stack_prefix (fClipStack (fEntries s2 ! 0)) cs) (\<lambda>iter.
            bindE
              (if needRegion iter
               then (case getBoundaryPath G cr of
                       None \<Rightarrow> Inl AssertBoundaryPath
                     | Some clipPath \<Rightarrow> emit_clip (Some clipPath) None (fContentStream s2))
               else
                 bindE (skip_clip_stack_prefix (fClipStack (fEntries s2 ! 0)) cs) (\<lambda>iter2.
                   emit_clip_entries G
                     (setTranslate (of_int (fX tr)) (of_int (fY tr)))
                     iter2 (fContentStream s2)))
              (\<lambda>out.
                 Inr (setCurrentEntry
                        ((currentEntry s2)\<lparr>fClipStack := cs, fClipRegion := cr\<rparr>)
                        (s2\<lparr>fContentStream := out\<rparr>)))) \<noteq> Inl AssertStackDepth"
      by (intro bindE_not_error)
         (auto simp: skip_clip_stack_prefix_no_depth emit_clip_no_depth
                     emit_clip_entries_no_depth
               split: option.splits intro!: bindE_not_error)
    with False pl nb ps show ?thesis by (simp add: updateClip_def)
  qed
qed

lemma updateMatrix_no_depth:
  assumes "fStackDepth s < kMaxStackDepth"
  shows "updateMatrix m s \<noteq> Inl AssertStackDepth"
  using assms unfolding updateMatrix_def
  by (auto simp: bindE_Inl_iff push_def pop_def split: if_splits)

lemma updateDrawingState_no_depth:
  "updateDrawingState st s \<noteq> Inl AssertStackDepth"
  unfolding updateDrawingState_def updateDrawingState_fill_def
  by (auto simp: bindE_Inl_iff emit_pdf_color_def split: if_splits)

lemma depth2_inv_new: "depth2_inv (GraphicStackState_new cs cr out)"
  by (simp add: depth2_inv_def wf_stack_new)
     (simp add: GraphicStackState_new_def GraphicStateEntry_new_def isIdentity_def
        kMaxStackDepth_def)

lemma depth2_inv_writeOps [simp]: "depth2_inv (writeOps ops s) = depth2_inv s"
  by (simp add: depth2_inv_def writeOps_simps)

lemma updateClip_inv:
  assumes u: "updateClip G cs cr tr s = Inr s'" and inv: "depth2_inv s"
  shows "depth2_inv s'"
proof -
  from inv have wf: "wf_stack s" by (simp add: depth2_inv_def)
  from updateClip_cases[OF u] consider
      (same) "s' = s"
    | (found) "updateClip_pop cs s = Inr (True, s')"
    | (replay) s1 s2 out where "updateClip_pop cs s = Inr (False, s1)" "push s1 = Inr s2"
             "s' = setCurrentEntry ((currentEntry s2)\<lparr>fClipStack := cs, fClipRegion := cr\<rparr>)
                        (s2\<lparr>fContentStream := out\<rparr>)"
    by blast
  then show ?thesis
  proof cases
    case same
    with inv show ?thesis by simp
  next
    case found
    from updateClip_pop_result[OF found] inv show ?thesis
      by (auto simp: depth2_inv_def wf_stack_def)
  next
    case replay
    from updateClip_pop_result[OF replay(1)]
    have s1: "fEntries s1 = fEntries s" "fStackDepth s1 = 0" by simp_all
    from replay(2) s1 have s2: "fStackDepth s2 = 1"
      "fEntries s2 = (fEntries s)[1 := fEntries s ! 0]"
      by (auto simp: push_def split: if_splits)
    show ?thesis
      unfolding replay(3) using inv s2
      by (simp add: depth2_inv_def wf_stack_def setCurrentEntry_simps kMaxStackDepth_def)
  qed
qed

lemma updateMatrix_inv:
  assumes u: "updateMatrix m s = Inr s'" and inv: "depth2_inv s"
  shows "depth2_inv s'"
proof -
  from inv have wf: "wf_stack s" and len: "length (fEntries s) = 13"
    by (simp_all add: depth2_inv_def wf_stack_def kMaxStackDepth_def)
  from updateMatrix_cases[OF u] consider
      (same) "s' = s"
    | (popped) "\<not> isIdentity (fMatrix (currentEntry s))" "pop s = Inr s'"
    | (pushed) s2 where "isIdentity (fMatrix (currentEntry s))" "\<not> isIdentity m"
        "push s = Inr s2"
        "s' = setCurrentEntry ((currentEntry s2)\<lparr>fMatrix := m\<rparr>) (writeOps [AppendTransform m] s2)"
    | (both) s1 s2 where "\<not> isIdentity (fMatrix (currentEntry s))" "\<not> isIdentity m"
        "pop s = Inr s1" "push s1 = Inr s2"
        "s' = setCurrentEntry ((currentEntry s2)\<lparr>fMatrix := m\<rparr>) (writeOps [AppendTransform m] s2)"
    by blast
  then show ?thesis
  proof cases
    case same
    with inv show ?thesis by simp
  next
    case popped
    from popped(2) have "fStackDepth s > 0" "fEntries s' = fEntries s"
      "fStackDepth s' = fStackDepth s - 1"
      by (auto simp: pop_def split: if_splits)
    with inv popped(1) show ?thesis
      by (auto simp: depth2_inv_def wf_stack_def currentEntry_def)
  next
    case pushed
    from inv pushed(1) have d: "fStackDepth s \<le> 1"
      by (cases "fStackDepth s = 2") (auto simp: depth2_inv_def currentEntry_def)
    from pushed(3) have s2: "fStackDepth s2 = fStackDepth s + 1"
      "fEntries s2 = (fEntries s)[fStackDepth s + 1 := fEntries s ! fStackDepth s]"
      by (auto simp: push_def split: if_splits)
    from d consider "fStackDepth s = 0" | "fStackDepth s = 1" by linarith
    then show ?thesis
    proof cases
      case 1
      then show ?thesis
        unfolding pushed(4) using inv s2 len
        by (simp add: depth2_inv_def wf_stack_def setCurrentEntry_simps writeOps_simps
              kMaxStackDepth_def numeral_2_eq_2)
    next
      case 2
      then show ?thesis
        unfolding pushed(4) using inv s2 len pushed(1,2)
        by (simp add: depth2_inv_def wf_stack_def setCurrentEntry_simps writeOps_simps
              kMaxStackDepth_def currentEntry_def numeral_2_eq_2)
    qed
  next
    case both
    from both(3) have s1: "fStackDepth s > 0" "fEntries s1 = fEntries s"
      "fStackDepth s1 = fStackDepth s - 1"
      by (auto simp: pop_def split: if_splits)
    from both(4) have s2: "fStackDepth s2 = fStackDepth s1 + 1"
      "fEntries s2 = (fEntries s1)[fStackDepth s1 + 1 := fEntries s1 ! fStackDepth s1]"
      by (auto simp: push_def split: if_splits)
    from inv s1 consider "fStackDepth s = 1" | "fStackDepth s = 2"
      by (auto simp: depth2_inv_def) linarith
    then show ?thesis
    proof cases
      case 1
      then show ?thesis
        unfolding both(5) using inv s1 s2 len
        by (simp add: depth2_inv_def wf_stack_def setCurrentEntry_simps writeOps_simps
              kMaxStackDepth_def numeral_2_eq_2)
    next
      case 2
      then show ?thesis
        unfolding both(5) using inv s1 s2 len both(2)
        by (simp add: depth2_inv_def wf_stack_def setCurrentEntry_simps writeOps_simps
              kMaxStackDepth_def currentEntry_def numeral_2_eq_2)
    qed
  qed
qed

lemma setCurrentEntry_same_matrix:
  assumes "fMatrix e = fMatrix (currentEntry s)"
  shows "depth2_inv (setCurrentEntry e s) = depth2_inv s"
proof -
  have k: "\<And>k. fMatrix ((fEntries s)[fStackDepth s := e] ! k) = fMatrix (fEntries s ! k)"
  proof (cases "fStackDepth s < length (fEntries s)")
    case True
    fix k show "fMatrix ((fEntries s)[fStackDepth s := e] ! k) = fMatrix (fEntries s ! k)"
      using assms True by (simp add: nth_list_update currentEntry_def)
  next
    case False
    then have "(fEntries s)[fStackDepth s := e] = fEntries s"
      by (intro list_update_beyond) simp
    then show "\<And>k. fMatrix ((fEntries s)[fStackDepth s := e] ! k) = fMatrix (fEntries s ! k)"
      by simp
  qed
  show ?thesis
    unfolding depth2_inv_def wf_stack_def setCurrentEntry_simps k by simp
qed

lemma depth2_inv_stream [simp]: "depth2_inv (s\<lparr>fContentStream := out\<rparr>) = depth2_inv s"
  by (simp add: depth2_inv_def wf_stack_def)

lemma updateDrawingState_inv:
  assumes u: "updateDrawingState st s = Inr s'" and inv: "depth2_inv s"
  shows "depth2_inv s'"
proof -
  from u obtain s1 where f: "updateDrawingState_fill st s = Inr s1"
    and fin: "s' = updateDrawingState_text st (updateDrawingState_gs st s1)"
    by (auto simp: updateDrawingState_def bindE_Inr_iff)
  have 1: "depth2_inv s1"
    using f inv unfolding updateDrawingState_fill_def
    by (auto simp: bindE_Inr_iff setCurrentEntry_same_matrix writeOps_simps split: if_splits)
  have 2: "\<And>t. depth2_inv t \<Longrightarrow> depth2_inv (updateDrawingState_gs st t)"
    by (simp add: updateDrawingState_gs_def setCurrentEntry_same_matrix writeOps_simps)
  have 3: "\<And>t. depth2_inv t \<Longrightarrow> depth2_inv (updateDrawingState_text st t)"
    by (simp add: updateDrawingState_text_def Let_def setCurrentEntry_same_matrix writeOps_simps
          currentEntry_setCurrentEntry)
  show ?thesis unfolding fin by (intro 3 2 1)
qed

lemma content_statement_inv:
  assumes "depth2_inv gs"
  shows "case content_statement G d a pc gs of
           Inl e \<Rightarrow> e \<noteq> AssertStackDepth
         | Inr (nx, pc', gs') \<Rightarrow> depth2_inv gs'"
proof (cases "lookupEntry d a")
  case (Inl e)
  then have "e = BadPointer" by (simp add: lookupEntry_def split: option.splits)
  with Inl show ?thesis by (simp add: content_statement_def)
next
  case (Inr entry)
  from assms have lt: "fStackDepth gs < kMaxStackDepth"
    by (simp add: depth2_inv_def kMaxStackDepth_def)
  show ?thesis
  proof (cases pc)
    case AtUpdateClip
    show ?thesis
    proof (cases "updateClip G (fClipStack (fState entry)) (fClipRegion (fState entry))
                    (SkIPoint_negate (fOrigin d)) gs")
      case (Inl e)
      with updateClip_no_depth[of G "fClipStack (fState entry)" "fClipRegion (fState entry)"
             "SkIPoint_negate (fOrigin d)" gs]
      show ?thesis using Inr AtUpdateClip by (simp add: content_statement_def)
    next
      case r: (Inr gs')
      from updateClip_inv[OF r assms] show ?thesis
        using Inr AtUpdateClip r by (simp add: content_statement_def)
    qed
  next
    case AtUpdateMatrix
    show ?thesis
    proof (cases "updateMatrix (fMatrix (fState entry)) gs")
      case (Inl e)
      with updateMatrix_no_depth[OF lt, of "fMatrix (fState entry)"]
      show ?thesis using Inr AtUpdateMatrix by (simp add: content_statement_def)
    next
      case r: (Inr gs')
      from updateMatrix_inv[OF r assms] show ?thesis
        using Inr AtUpdateMatrix r by (simp add: content_statement_def)
    qed
  next
    case AtUpdateDrawingState
    show ?thesis
    proof (cases "updateDrawingState (fState entry) gs")
      case (Inl e)
      with updateDrawingState_no_depth[of "fState entry" gs]
      show ?thesis using Inr AtUpdateDrawingState by (simp add: content_statement_def)
    next
      case r: (Inr gs')
      from updateDrawingState_inv[OF r assms] show ?thesis
        using Inr AtUpdateDrawingState r by (simp add: content_statement_def)
    qed
  next
    case AtWrite
    with Inr assms show ?thesis by (simp add: content_statement_def)
  qed
qed

lemma content_run_inv:
  "depth2_inv gs \<Longrightarrow>
   (case content_run G d n (entry, pc, gs) of
      Inl e \<Rightarrow> e \<noteq> AssertStackDepth
    | Inr (nx, pc', gs') \<Rightarrow> depth2_inv gs')"
proof (induction n arbitrary: entry pc gs)
  case 0
  then show ?case by simp
next
  case (Suc n)
  show ?case
  proof (cases entry)
    case None
    with Suc.prems show ?thesis by simp
  next
    case (Some a)
    show ?thesis
    proof (cases "content_statement G d a pc gs")
      case (Inl e)
      with content_statement_inv[OF Suc.prems, of G d a pc] Some show ?thesis by simp
    next
      case (Inr c)
      obtain nx pc' gs' where c: "c = (nx, pc', gs')" by (cases c)
      from content_statement_inv[OF Suc.prems, of G d a pc] Inr c have "depth2_inv gs'" by simp
      from Suc.IH[OF this, of nx pc'] show ?thesis using Some Inr c by simp
    qed
  qed
qed

lemma content_start_inv:
  "content_start d = Inr gs \<Longrightarrow> depth2_inv gs"
  by (auto simp: content_start_def Let_def bindE_Inr_iff depth2_inv_new split: if_splits)

lemma content_start_no_depth: "content_start d \<noteq> Inl AssertStackDepth"
  by (auto simp: content_start_def Let_def bindE_Inl_iff emit_clip_no_depth split: if_splits)

text \<open>Claim C10.  At every statement of the loop of \<^verbatim>\<open>content\<close>, for every store of
  entries, every entry pointer to start at and every number of statements executed, the
  run has not failed the assertion of \<^verbatim>\<open>push\<close>, and the stack depth is at most 2; and
  the whole function does not fail that assertion.\<close>

theorem content_depth_at_most_two:
  "(case content_run G d n (entry, AtUpdateClip, GraphicStackState_new cs cr out) of
      Inl e \<Rightarrow> e \<noteq> AssertStackDepth
    | Inr (nx, pc, gs) \<Rightarrow> fStackDepth gs \<le> 2) \<and>
   content G fuel d \<noteq> Some (Inl AssertStackDepth)"
proof
  from content_run_inv[OF depth2_inv_new, of G d n entry AtUpdateClip cs cr out]
  show "case content_run G d n (entry, AtUpdateClip, GraphicStackState_new cs cr out) of
      Inl e \<Rightarrow> e \<noteq> AssertStackDepth
    | Inr (nx, pc, gs) \<Rightarrow> fStackDepth gs \<le> 2"
    by (auto simp: depth2_inv_def split: sum.splits)
next
  show "content G fuel d \<noteq> Some (Inl AssertStackDepth)"
  proof (cases "content_start d")
    case (Inl e)
    with content_start_no_depth[of d] show ?thesis by (auto simp: content_def)
  next
    case (Inr gs0)
    note inv = content_start_inv[OF Inr]
    show ?thesis
    proof (cases "content_run G d fuel (fContentEntries d, AtUpdateClip, gs0)")
      case (Inl e)
      with content_run_inv[OF inv, of G d fuel "fContentEntries d" AtUpdateClip] Inr
      show ?thesis by (simp add: content_def)
    next
      case r: (Inr c)
      obtain nx pc gs where c: "c = (nx, pc, gs)" by (cases c)
      from drainStack_balanced[of gs] obtain gs' where "drainStack gs = Inr gs'" by blast
      with Inr r c show ?thesis by (cases nx) (simp_all add: content_def)
    qed
  qed
qed

lemma devC_run:
  "\<exists>gs. content_run GT devC 2 (Some 0, AtUpdateClip, GraphicStackState_new [clipA] regionW out) =
          Inr (Some 0, AtUpdateDrawingState, gs) \<and>
        fStackDepth gs = 2 \<and>
        fContentStream gs = out @
          [WriteText ''q\<newline>'', AppendRectangle (SkRect 10 10 50 50),
           WriteText ''W n\<newline>'', WriteText ''q\<newline>'',
           AppendTransform (SkMatrix 1 0 5 0 1 5 0 0 1)]"
proof -
  let ?s = "GraphicStackState_new [clipA] regionW out"
  have f: "fStackDepth ?s = 0" "fClipStack (fEntries ?s ! 0) = [clipA]"
    "length (fEntries ?s) = 13" "fContentStream ?s = out"
    "fMatrix (fEntries ?s ! 0) = matrix_reset"
    by (simp_all add: GraphicStackState_new_def kMaxStackDepth_def GraphicStateEntry_new_def)
  have ne: "\<forall>d\<le>fStackDepth ?s. fClipStack (fEntries ?s ! d) \<noteq> [clipA, clipB]"
    by (simp add: f)
  have pre: "[clipA, clipB] = fClipStack (fEntries ?s ! 0) @ [clipB]" by (simp add: f)
  have len: "1 < length (fEntries ?s)" by (simp add: f)
  have l: "lookupEntry devC 0 = Inr entryC"
    by (simp add: lookupEntry_def entryAt_def devC_def)
  have st: "fClipStack (fState entryC) = [clipA, clipB]" "fClipRegion (fState entryC) = regionW"
    "fMatrix (fState entryC) = setTranslate 5 5" "SkIPoint_negate (fOrigin devC) = SkIPoint 0 0"
    by (simp_all add: entryC_def stateS_def devC_def dev0_def SkIPoint_negate_def)
  have c: "updateClip GT [clipA, clipB] regionW (SkIPoint 0 0) ?s =
       Inr \<lparr>fEntries = (fEntries ?s)[1 := (fEntries ?s ! 0)
                                   \<lparr>fClipStack := [clipA, clipB], fClipRegion := regionW\<rparr>],
            fStackDepth = 1,
            fContentStream = out @ [WriteText ''q\<newline>'', AppendRectangle (SkRect 10 10 50 50),
                              WriteText ''W n\<newline>'']\<rparr>"
    unfolding updateClip_replay[OF ne pre len]
    by (simp add: f clipB_def GT_def setTranslate_def emit_clip_def)
  show ?thesis
    by (simp add: numeral_2_eq_2 content_statement_def l st c updateMatrix_def currentEntry_def f
          isIdentity_def setTranslate_def matrix_reset_def push_def kMaxStackDepth_def
          setCurrentEntry_simps writeOps_simps)
qed

lemma devC_run4:
  "\<exists>gs. content_run GT devC 4 (Some 0, AtUpdateClip, GraphicStackState_new [clipA] regionW out) =
          Inr (None, AtUpdateClip, gs) \<and>
        fStackDepth gs = 2 \<and>
        fContentStream gs = out @
          [WriteText ''q\<newline>'', AppendRectangle (SkRect 10 10 50 50),
           WriteText ''W n\<newline>'', WriteText ''q\<newline>'',
           AppendTransform (SkMatrix 1 0 5 0 1 5 0 0 1), ApplyGraphicState 0,
           AppendRectangle (SkRect 1 2 3 4), PaintPath kFill_Style kWinding_FillType]"
proof -
  let ?s = "GraphicStackState_new [clipA] regionW out"
  have f: "fStackDepth ?s = 0" "fClipStack (fEntries ?s ! 0) = [clipA]"
    "length (fEntries ?s) = 13" "fContentStream ?s = out"
    "fMatrix (fEntries ?s ! 0) = matrix_reset"
    by (simp_all add: GraphicStackState_new_def kMaxStackDepth_def GraphicStateEntry_new_def)
  have ne: "\<forall>d\<le>fStackDepth ?s. fClipStack (fEntries ?s ! d) \<noteq> [clipA, clipB]"
    by (simp add: f)
  have pre: "[clipA, clipB] = fClipStack (fEntries ?s ! 0) @ [clipB]" by (simp add: f)
  have len: "1 < length (fEntries ?s)" by (simp add: f)
  have l: "lookupEntry devC 0 = Inr entryC"
    by (simp add: lookupEntry_def entryAt_def devC_def)
  have st: "fClipStack (fState entryC) = [clipA, clipB]" "fClipRegion (fState entryC) = regionW"
    "fMatrix (fState entryC) = setTranslate 5 5" "SkIPoint_negate (fOrigin devC) = SkIPoint 0 0"
    by (simp_all add: entryC_def stateS_def devC_def dev0_def SkIPoint_negate_def)
  have st4: "fContent entryC = rectOps" "fNext entryC = None"
    "fShaderIndex (fState entryC) = - 1" "fColor (fState entryC) = SK_ColorBLACK"
    "fGraphicStateIndex (fState entryC) = 0" "fTextScaleX (fState entryC) = 0"
    "rectOps = [AppendRectangle (SkRect 1 2 3 4), PaintPath kFill_Style kWinding_FillType]"
    "fShaderIndex (fEntries ?s ! 0) = - 1" "fColor (fEntries ?s ! 0) = SK_ColorBLACK"
    "fGraphicStateIndex (fEntries ?s ! 0) = - 1"
    by (simp_all add: entryC_def stateS_def GraphicStateEntry_new_def rectOps_def
          GraphicStackState_new_def kMaxStackDepth_def)
  have c: "updateClip GT [clipA, clipB] regionW (SkIPoint 0 0) ?s =
       Inr \<lparr>fEntries = (fEntries ?s)[1 := (fEntries ?s ! 0)
                                   \<lparr>fClipStack := [clipA, clipB], fClipRegion := regionW\<rparr>],
            fStackDepth = 1,
            fContentStream = out @ [WriteText ''q\<newline>'', AppendRectangle (SkRect 10 10 50 50),
                              WriteText ''W n\<newline>'']\<rparr>"
    unfolding updateClip_replay[OF ne pre len]
    by (simp add: f clipB_def GT_def setTranslate_def emit_clip_def)
  show ?thesis
    by (simp add: eval_nat_numeral content_statement_def l st c updateMatrix_def currentEntry_def f
          isIdentity_def setTranslate_def matrix_reset_def push_def kMaxStackDepth_def
          setCurrentEntry_simps writeOps_simps st4 updateDrawingState_def
          updateDrawingState_fill_def updateDrawingState_gs_def updateDrawingState_text_def)
qed

lemma drainStack_zero: "fStackDepth s = 0 \<Longrightarrow> drainStack s = Inr s"
  by (simp add: drainStack.simps[of s])

lemma drainStack_pos:
  "0 < fStackDepth s \<Longrightarrow>
   drainStack s =
     drainStack (s\<lparr>fContentStream := fContentStream s @ [WriteText ''Q\<newline>''],
                   fStackDepth := fStackDepth s - 1\<rparr>)"
  by (simp add: drainStack.simps[of s] pop_def)

lemma devC_content:
  "content GT 4 devC =
     Some (Inr [AppendTransform (SkMatrix 1 0 0 0 (- 1) 100 0 0 1),
        WriteText ''q\<newline>'', AppendRectangle (SkRect 10 10 50 50),
        WriteText ''W n\<newline>'', WriteText ''q\<newline>'',
        AppendTransform (SkMatrix 1 0 5 0 1 5 0 0 1), ApplyGraphicState 0,
        AppendRectangle (SkRect 1 2 3 4),
        PaintPath kFill_Style kWinding_FillType, WriteText ''Q\<newline>'',
        WriteText ''Q\<newline>''])"
proof -
  let ?out = "[AppendTransform (SkMatrix 1 0 0 0 (- 1) 100 0 0 1)]"
  have s: "content_start devC = Inr (GraphicStackState_new [clipA] regionW ?out)"
    by (simp add: content_start_def devC_def dev0_def isIdentity_def matrix_reset_def)
  have h: "fContentEntries devC = Some 0" by (simp add: devC_def)
  from devC_run4[of ?out] obtain gs where
    r: "content_run GT devC 4 (Some 0, AtUpdateClip, GraphicStackState_new [clipA] regionW ?out) =
          Inr (None, AtUpdateClip, gs)"
    and g: "fStackDepth gs = 2" "fContentStream gs = ?out @
          [WriteText ''q\<newline>'', AppendRectangle (SkRect 10 10 50 50),
           WriteText ''W n\<newline>'', WriteText ''q\<newline>'',
           AppendTransform (SkMatrix 1 0 5 0 1 5 0 0 1), ApplyGraphicState 0,
           AppendRectangle (SkRect 1 2 3 4), PaintPath kFill_Style kWinding_FillType]"
    by blast
  have d: "\<exists>gs'. drainStack gs = Inr gs' \<and>
      fContentStream gs' = fContentStream gs @ [WriteText ''Q\<newline>'', WriteText ''Q\<newline>'']"
    by (simp add: drainStack_pos g drainStack_zero)
  from d show ?thesis by (auto simp: content_def s h r g)
qed

theorem content_depth_at_most_two_witness:
  "(case content_run GT devC 2 (Some 0, AtUpdateClip, GraphicStackState_new [clipA] regionW []) of
      Inl e \<Rightarrow> e \<noteq> AssertStackDepth
    | Inr (nx, pc, gs) \<Rightarrow> fStackDepth gs \<le> 2) \<and>
   content GT 4 devC \<noteq> Some (Inl AssertStackDepth) \<and>
   (\<exists>gs. content_run GT devC 2 (Some 0, AtUpdateClip, GraphicStackState_new [clipA] regionW []) =
          Inr (Some 0, AtUpdateDrawingState, gs) \<and>
        fStackDepth gs = 2 \<and>
        fContentStream gs =
          [WriteText ''q\<newline>'', AppendRectangle (SkRect 10 10 50 50),
           WriteText ''W n\<newline>'', WriteText ''q\<newline>'',
           AppendTransform (SkMatrix 1 0 5 0 1 5 0 0 1)]) \<and>
   content GT 4 devC =
     Some (Inr [AppendTransform (SkMatrix 1 0 0 0 (- 1) 100 0 0 1),
        WriteText ''q\<newline>'', AppendRectangle (SkRect 10 10 50 50),
        WriteText ''W n\<newline>'', WriteText ''q\<newline>'',
        AppendTransform (SkMatrix 1 0 5 0 1 5 0 0 1), ApplyGraphicState 0,
        AppendRectangle (SkRect 1 2 3 4),
        PaintPath kFill_Style kWinding_FillType, WriteText ''Q\<newline>'',
        WriteText ''Q\<newline>''])"
proof -
  note T = content_depth_at_most_two[of GT devC 2 "Some 0" "[clipA]" regionW "[]" 4]
  from devC_run[of "[]"] have r: "\<exists>gs. content_run GT devC 2
          (Some 0, AtUpdateClip, GraphicStackState_new [clipA] regionW []) =
          Inr (Some 0, AtUpdateDrawingState, gs) \<and>
        fStackDepth gs = 2 \<and>
        fContentStream gs =
          [WriteText ''q\<newline>'', AppendRectangle (SkRect 10 10 50 50),
           WriteText ''W n\<newline>'', WriteText ''q\<newline>'',
           AppendTransform (SkMatrix 1 0 5 0 1 5 0 0 1)]"
    by simp
  show ?thesis
    by (intro conjI T[THEN conjunct1] T[THEN conjunct2] r devC_content)
qed


subsection \<open>The source-in emulation\<close>

lemma createFormXObjectFromDevice_emptied:
  "createFormXObjectFromDevice d =
     (length (heapObjects d), emptied d (heapObjects d @ [SkPDFFormXObject (deviceContent d)]))"
  by (simp add: createFormXObjectFromDevice_def emptied_def)

lemma emptied_fields:
  "fGraphicStateResources (emptied d H) = []" "fXObjectResources (emptied d H) = []"
  "fShaderResources (emptied d H) = []" "fFontResources (emptied d H) = []"
  "fContentEntries (emptied d H) = None" "fLastContentEntry (emptied d H) = None"
  "heapEntries (emptied d H) = []" "heapObjects (emptied d H) = H"
  "fExistingClipStack (emptied d H) = fExistingClipStack d"
  "fExistingClipRegion (emptied d H) = fExistingClipRegion d"
  "fWidth (emptied d H) = fWidth d" "fHeight (emptied d H) = fHeight d"
  "fInitialTransform (emptied d H) = fInitialTransform d"
  by (simp_all add: emptied_def init_def cleanUp_def)

lemma emptied_oneEntry: "emptied (oneEntry (emptied d H) gs xs e) H' = emptied d H'"
  by (simp add: emptied_def oneEntry_def init_def cleanUp_def)

lemma oneEntry_fields:
  "fGraphicStateResources (oneEntry dv gs xs e) = gs" "fXObjectResources (oneEntry dv gs xs e) = xs"
  "fContentEntries (oneEntry dv gs xs e) = Some 0" "fLastContentEntry (oneEntry dv gs xs e) = Some 0"
  "heapEntries (oneEntry dv gs xs e) = [e]" "heapObjects (oneEntry dv gs xs e) = heapObjects dv"
  "fExistingClipStack (oneEntry dv gs xs e) = fExistingClipStack dv"
  "fExistingClipRegion (oneEntry dv gs xs e) = fExistingClipRegion dv"
  "fWidth (oneEntry dv gs xs e) = fWidth dv" "fHeight (oneEntry dv gs xs e) = fHeight dv"
  "fInitialTransform (oneEntry dv gs xs e) = fInitialTransform dv"
  "entryAt (oneEntry dv gs xs e) 0 = Some e"
  "lookupEntry (oneEntry dv gs xs e) 0 = Inr e"
  by (simp_all add: oneEntry_def entryAt_def lookupEntry_def)

lemma oneEntry_updates:
  "(oneEntry dv gs xs e)\<lparr>heapEntries := [e']\<rparr> = oneEntry dv gs xs e'"
  "(oneEntry dv gs xs e)\<lparr>fGraphicStateResources := gs'\<rparr> = oneEntry dv gs' xs e"
  "(oneEntry dv gs xs e)\<lparr>fXObjectResources := xs'\<rparr> = oneEntry dv gs xs' e"
  "(oneEntry dv gs xs e)\<lparr>heapObjects := H\<rparr> = oneEntry (dv\<lparr>heapObjects := H\<rparr>) gs xs e"
  by (simp_all add: oneEntry_def)

lemma emptied_heapObjects: "(emptied d H)\<lparr>heapObjects := H'\<rparr> = emptied d H'"
  by (simp add: emptied_def init_def cleanUp_def)

lemma writeEntry_oneEntry:
  "writeEntry 0 ops (oneEntry dv gs xs e) =
     Inr (oneEntry dv gs xs (e\<lparr>fContent := fContent e @ ops\<rparr>))"
  by (simp add: writeEntry_def storeEntry_def oneEntry_def lookupEntry_def entryAt_def)

lemma populate_total:
  "getPathEffect p = None \<Longrightarrow>
   \<exists>st d'. populateGraphicStateEntryFromPaint G F m cs cr p ht e d = Inr (st, d')"
  by (simp add: populateGraphicStateEntryFromPaint_def Let_def split_beta)

lemma addGraphicStateResource_changes:
  "snd (addGraphicStateResource g d) =
     d\<lparr>fGraphicStateResources := fGraphicStateResources (snd (addGraphicStateResource g d))\<rparr>"
  by (simp add: addGraphicStateResource_def Let_def)

lemma addShaderResource_changes:
  "snd (addShaderResource g d) =
     d\<lparr>fShaderResources := fShaderResources (snd (addShaderResource g d))\<rparr>"
  by (simp add: addShaderResource_def Let_def)

lemma addShaderResource_gs:
  "fGraphicStateResources (snd (addShaderResource g d)) = fGraphicStateResources d"
  by (simp add: addShaderResource_def Let_def)

lemma addGraphicStateResource_sh:
  "fShaderResources (snd (addGraphicStateResource g d)) = fShaderResources d"
  by (simp add: addGraphicStateResource_def Let_def)

lemma populate_changes:
  assumes "populateGraphicStateEntryFromPaint G F m cs cr p ht e d = Inr (st, d')"
  shows "d' = d\<lparr>fGraphicStateResources := fGraphicStateResources d',
                 fShaderResources := fShaderResources d'\<rparr>"
    and "fClipStack st = cs" and "fClipRegion st = cr" and "fMatrix st = m"
  using assms
  by (auto simp: populateGraphicStateEntryFromPaint_def Let_def split_beta
                 addGraphicStateResource_def addShaderResource_def
           split: if_splits option.splits)

lemma populate_stock:
  "populateGraphicStateEntryFromPaint G F matrix_reset cs cr stockPaint False
     GraphicStateEntry_new d =
   Inr (stockState cs cr
          (fst (addGraphicStateResource (ForPaint (getGraphicStateForPaint F stockPaint)) d)),
        snd (addGraphicStateResource (ForPaint (getGraphicStateForPaint F stockPaint)) d))"
  by (simp add: populateGraphicStateEntryFromPaint_def Let_def split_beta stockState_def)
     (simp add: stockPaint_def)

lemma stock_facts:
  "paintMode stockPaint = kSrcOver_Mode" "stockPaint\<lparr>getStyle := kFill_Style\<rparr> = stockPaint"
  "getStyle stockPaint = kFill_Style" "\<not> isMaskMode kSrcOver_Mode"
  "kSrcOver_Mode \<noteq> kDstOver_Mode"
  by (simp_all add: paintMode_def stockPaint_def isMaskMode_def)

lemma stockState_fields:
  "fMatrix (stockState cs cr i) = matrix_reset" "fClipStack (stockState cs cr i) = cs"
  "fClipRegion (stockState cs cr i) = cr"
  by (simp_all add: stockState_def)

lemma setUp_stock_emptied:
  assumes "\<not> regionIsEmpty G crx"
  shows "setUpContentEntry G F (Some csx) crx matrix_reset stockPaint False (emptied d H) =
     Inr (Some 0, None,
          oneEntry (emptied d H) [ForPaint (getGraphicStateForPaint F stockPaint)] []
            \<lparr>fState = stockState csx crx 0, fContent = [], fNext = None\<rparr>)"
proof -
  let ?dv = "emptied d H"
  let ?g = "ForPaint (getGraphicStateForPaint F stockPaint)"
  have a: "addGraphicStateResource ?g ?dv = (0, ?dv\<lparr>fGraphicStateResources := [?g]\<rparr>)"
    by (simp add: addGraphicStateResource_def emptied_fields SkTDArray_count_def)
  have pop: "populateGraphicStateEntryFromPaint G F matrix_reset csx crx stockPaint False
               GraphicStateEntry_new ?dv =
             Inr (stockState csx crx 0, ?dv\<lparr>fGraphicStateResources := [?g]\<rparr>)"
    by (simp add: populate_stock a)
  have t: "fLastContentEntry ?dv = None" by (simp add: emptied_fields)
  have e: "effectiveClipStack G (Some csx) crx ?dv = csx" by (simp add: effectiveClipStack_def)
  show ?thesis
    unfolding setUp_plain[OF assms disjI1[OF stock_facts(1)]] e
      setUp_entry_first[OF t pop]
    by (simp add: emptied_fields oneEntry_def ContentEntry_new_def)
qed

lemma setUp_stock_again:
  assumes ne: "\<not> regionIsEmpty G crx"
    and e: "fState e = stockState csx crx 0" "fContent e \<noteq> []"
  shows "setUpContentEntry G F (Some csx) crx matrix_reset stockPaint False
           (oneEntry dv (ForPaint (getGraphicStateForPaint F stockPaint) # gs) xs e) =
     Inr (Some 0, None,
          oneEntry dv (ForPaint (getGraphicStateForPaint F stockPaint) # gs) xs e)"
proof -
  let ?g = "ForPaint (getGraphicStateForPaint F stockPaint)"
  let ?dv = "oneEntry dv (?g # gs) xs e"
  have a: "addGraphicStateResource ?g ?dv = (0, ?dv)"
    by (simp add: addGraphicStateResource_def oneEntry_fields)
  have pop: "populateGraphicStateEntryFromPaint G F matrix_reset csx crx stockPaint False
               GraphicStateEntry_new ?dv = Inr (stockState csx crx 0, ?dv)"
    by (simp add: populate_stock a)
  have t: "fLastContentEntry ?dv = Some 0" "entryAt ?dv 0 = Some e"
    by (simp_all add: oneEntry_fields)
  have ef: "effectiveClipStack G (Some csx) crx ?dv = csx" by (simp add: effectiveClipStack_def)
  show ?thesis
    unfolding setUp_plain[OF ne disjI1[OF stock_facts(1)]] ef stock_facts(1)
      setUp_entry_fresh[OF t e(2) pop]
    by (simp add: e compareInitialState_refl)
qed

lemma drawPaint_stock_emptied:
  assumes "\<not> regionIsEmpty G crx"
  shows "drawPaint G F (Some csx) crx matrix_reset stockPaint (emptied d H) =
     Inr (oneEntry (emptied d H) [ForPaint (getGraphicStateForPaint F stockPaint)] []
            \<lparr>fState = stockState csx crx 0, fContent = paintOps G d, fNext = None\<rparr>)"
  unfolding drawPaint.simps[of G F "Some csx" crx matrix_reset stockPaint "emptied d H"]
  by (simp add: stock_facts setUp_stock_emptied[OF assms] internalDrawPaint_def oneEntry_fields
        stockState_fields writeEntry_oneEntry emptied_fields paintOps_def
        finish_plain[OF stock_facts(4)])

lemma addGraphicStateResource_oneEntry:
  "addGraphicStateResource r (oneEntry dv gs xs e) =
     (if SkTDArray_find gs r < 0 then (int (length gs), oneEntry dv (gs @ [r]) xs e)
      else (SkTDArray_find gs r, oneEntry dv gs xs e))"
  by (simp add: addGraphicStateResource_def oneEntry_fields oneEntry_updates Let_def
        SkTDArray_count_def)

lemma getSMaskGraphicState_emptied:
  "getSMaskGraphicState x i (emptied d H) =
     (SMask (length H), emptied d (H @ [SMaskGraphicState x i]))"
  by (simp add: getSMaskGraphicState_def emptied_fields emptied_heapObjects)

lemma getSMaskGraphicState_oneEntry:
  "getSMaskGraphicState x i (oneEntry (emptied d H) gs xs e) =
     (SMask (length H), oneEntry (emptied d (H @ [SMaskGraphicState x i])) gs xs e)"
  by (simp add: getSMaskGraphicState_def oneEntry_fields emptied_fields oneEntry_updates
        emptied_heapObjects)

text \<open>\<^verbatim>\<open>drawFormXObjectWithClip\<close> with \<^verbatim>\<open>invertClip\<close> on a device that has just been made a
  form XObject: the mask is drawn and made a form XObject, and the device is left with
  one entry, in the existing clip, that draws the XObject under the soft mask.\<close>

lemma drawFormXObjectWithClip_emptied:
  assumes ne: "\<not> regionIsEmpty G crx" and ex: "\<not> regionIsEmpty G (fExistingClipRegion d)"
  shows "drawFormXObjectWithClip G F x (Some csx) crx True (emptied d H) =
     Inr (oneEntry
            (emptied d (H @
               [SkPDFFormXObject (deviceContent
                  (oneEntry (emptied d H) [ForPaint (getGraphicStateForPaint F stockPaint)] []
                     \<lparr>fState = stockState csx crx 0, fContent = paintOps G d, fNext = None\<rparr>)),
                SMaskGraphicState (length H) True]))
            [ForPaint (getGraphicStateForPaint F stockPaint), SMask (Suc (length H)), NoSMask]
            [x]
            \<lparr>fState = stockState (fExistingClipStack d) (fExistingClipRegion d) 0,
             fContent = [ApplyGraphicState 1, DrawFormXObject 0, ApplyGraphicState 2],
             fNext = None\<rparr>)"
proof -
  let ?g = "ForPaint (getGraphicStateForPaint F stockPaint)"
  let ?dM = "oneEntry (emptied d H) [?g] []
               \<lparr>fState = stockState csx crx 0, fContent = paintOps G d, fNext = None\<rparr>"
  let ?H1 = "H @ [SkPDFFormXObject (deviceContent ?dM)]"
  let ?H2 = "H @ [SkPDFFormXObject (deviceContent ?dM), SMaskGraphicState (length H) True]"
  have c: "createFormXObjectFromDevice ?dM = (length H, emptied d ?H1)"
    by (simp add: createFormXObjectFromDevice_emptied oneEntry_fields emptied_fields
          emptied_oneEntry)
  have g: "getSMaskGraphicState (length H) True (emptied d ?H1) =
             (SMask (Suc (length H)), emptied d ?H2)"
    by (simp add: getSMaskGraphicState_emptied)
  have ex': "\<not> regionIsEmpty G (fExistingClipRegion (emptied d ?H2))"
    using ex by (simp add: emptied_fields)
  have su: "setUpContentEntry G F (Some (fExistingClipStack (emptied d ?H2)))
              (fExistingClipRegion (emptied d ?H2)) matrix_reset stockPaint False (emptied d ?H2) =
            Inr (Some 0, None,
                 oneEntry (emptied d ?H2) [?g] []
                   \<lparr>fState = stockState (fExistingClipStack d) (fExistingClipRegion d) 0,
                    fContent = [], fNext = None\<rparr>)"
    unfolding setUp_stock_emptied[OF ex'] by (simp add: emptied_fields)
  have dr: "drawFormXObjectWithClip_draw x (SMask (Suc (length H))) 0
              (oneEntry (emptied d ?H2) [?g] []
                 \<lparr>fState = stockState (fExistingClipStack d) (fExistingClipRegion d) 0,
                  fContent = [], fNext = None\<rparr>) =
            Inr (oneEntry (emptied d ?H2) [?g, SMask (Suc (length H)), NoSMask] [x]
                   \<lparr>fState = stockState (fExistingClipStack d) (fExistingClipRegion d) 0,
                    fContent = [ApplyGraphicState 1, DrawFormXObject 0, ApplyGraphicState 2],
                    fNext = None\<rparr>)"
    by (simp add: drawFormXObjectWithClip_draw_def addGraphicStateResource_oneEntry
          writeEntry_oneEntry oneEntry_fields oneEntry_updates SkTDArray_count_def)
  show ?thesis
    unfolding drawFormXObjectWithClip.simps[of G F x "Some csx" crx True "emptied d H"]
    by (simp add: drawPaint_stock_emptied[OF ne] c g su dr stock_facts
          finish_plain[OF stock_facts(4)])
qed

text \<open>\<^verbatim>\<open>finishContentEntry\<close> for source-in, on a device whose single entry holds the
  source (the instructions \<open>ops\<close> of the draw call) and whose tables come from a device
  that had just been made the form XObject \<open>dst\<close>.\<close>

lemma finishContentEntry_srcin:
  assumes region: "\<not> regionIsEmpty G cr"
    and existing: "\<not> regionIsEmpty G (fExistingClipRegion d)"
    and src: "ops \<noteq> []"
    and st: "fClipStack st = csx" "fClipRegion st = cr"
    and dW: "dW = (emptied d H)\<lparr>fGraphicStateResources := gsP, fShaderResources := shP,
                    heapEntries := [\<lparr>fState = st, fContent = ops, fNext = None\<rparr>],
                    fContentEntries := Some 0, fLastContentEntry := Some 0\<rparr>"
  shows "finishContentEntry G F kSrcIn_Mode (Some dst) dW =
     Inr (oneEntry
            (emptied d (H @
               [SkPDFFormXObject (deviceContent dW),
                SkPDFFormXObject (deviceContent
                  (oneEntry (emptied d (H @ [SkPDFFormXObject (deviceContent dW)]))
                     [ForPaint (getGraphicStateForPaint F stockPaint)] []
                     \<lparr>fState = stockState csx cr 0, fContent = paintOps G d, fNext = None\<rparr>)),
                SMaskGraphicState (Suc (length H)) True,
                SMaskGraphicState dst False]))
            [ForPaint (getGraphicStateForPaint F stockPaint), SMask (Suc (Suc (length H))), NoSMask,
             SMask (Suc (Suc (Suc (length H))))]
            [dst, length H]
            \<lparr>fState = stockState (fExistingClipStack d) (fExistingClipRegion d) 0,
             fContent = [ApplyGraphicState 1, DrawFormXObject 0, ApplyGraphicState 2,
                         ApplyGraphicState 3, DrawFormXObject 1, ApplyGraphicState 2],
             fNext = None\<rparr>)"
proof -
  let ?g = "ForPaint (getGraphicStateForPaint F stockPaint)"
  let ?he = "\<lparr>fState = st, fContent = ops, fNext = None\<rparr>"
  let ?H1 = "H @ [SkPDFFormXObject (deviceContent dW)]"
  let ?dM = "oneEntry (emptied d ?H1) [?g] []
               \<lparr>fState = stockState csx cr 0, fContent = paintOps G d, fNext = None\<rparr>"
  let ?H3 = "?H1 @ [SkPDFFormXObject (deviceContent ?dM), SMaskGraphicState (length ?H1) True]"
  let ?eD = "\<lparr>fState = stockState (fExistingClipStack d) (fExistingClipRegion d) 0,
             fContent = [ApplyGraphicState 1, DrawFormXObject 0, ApplyGraphicState 2],
             fNext = None\<rparr>"
  define d1 where "d1 = emptied d ?H1"
  define d2 where "d2 = oneEntry (emptied d ?H3) [?g, SMask (Suc (length ?H1)), NoSMask] [dst] ?eD"
  define d3 where "d3 = oneEntry (emptied d (?H3 @ [SMaskGraphicState dst False]))
            [?g, SMask (Suc (length ?H1)), NoSMask, SMask (length ?H3)] [dst, length H]
            (?eD\<lparr>fContent := [ApplyGraphicState 1, DrawFormXObject 0, ApplyGraphicState 2,
                         ApplyGraphicState 3, DrawFormXObject 1, ApplyGraphicState 2]\<rparr>)"
  have head: "fContentEntries dW = Some 0" and l: "lookupEntry dW 0 = Inr ?he"
    by (simp_all add: dW lookupEntry_def entryAt_def)
  have ne: "isContentEmpty dW = Inr False"
    using src by (simp add: isContentEmpty_def head l)
  have c: "createFormXObjectFromDevice dW = (length H, d1)"
    unfolding createFormXObjectFromDevice_emptied d1_def
    by (simp add: dW emptied_fields) (simp add: emptied_def init_def cleanUp_def)
  have df: "drawFormXObjectWithClip G F dst (Some csx) cr True d1 = Inr d2"
    unfolding d1_def d2_def drawFormXObjectWithClip_emptied[OF region existing] by simp
  have su: "setUpContentEntry G F (Some (fExistingClipStack d2)) (fExistingClipRegion d2)
              matrix_reset stockPaint False d2 = Inr (Some 0, None, d2)"
  proof -
    have ex': "\<not> regionIsEmpty G (fExistingClipRegion d2)"
      using existing by (simp add: d2_def oneEntry_fields emptied_fields)
    have e: "fState ?eD = stockState (fExistingClipStack d2) (fExistingClipRegion d2) 0"
      "fContent ?eD \<noteq> []"
      by (simp_all add: d2_def oneEntry_fields emptied_fields)
    show ?thesis unfolding d2_def[symmetric]
      using setUp_stock_again[OF ex' e, of F "emptied d ?H3" "[SMask (Suc (length ?H1)), NoSMask]" "[dst]"]
      by (simp add: d2_def)
  qed
  have fd: "finishContentEntry_draw kSrcIn_Mode dst (length H) 0 d2 = Inr d3"
    unfolding d2_def d3_def
    by (simp add: finishContentEntry_draw_def getSMaskGraphicState_oneEntry oneEntry_updates
          addGraphicStateResource_oneEntry writeEntry_oneEntry oneEntry_fields
          SkTDArray_count_def)
  have "finishContentEntry G F kSrcIn_Mode (Some dst) dW = Inr d3"
    unfolding finishContentEntry.simps[of G F kSrcIn_Mode "Some dst" dW]
    by (simp add: isMaskMode_def head l ne c st df su fd stock_facts
          finish_plain[OF stock_facts(4)])
  then show ?thesis by (simp add: d3_def)
qed

text \<open>Claim C9.  A draw call whose paint has the mode source-in, on a device whose content
  is not empty (the region of the call and the existing clip region of the device are
  not empty, the paint has no path effect, the call writes some instructions):
  \<^verbatim>\<open>setUpContentEntry\<close> makes the content of the device one form XObject, \<open>dst\<close>, the only
  new object at that point; at the end of the call five objects are new, in this order:
  \<open>dst\<close>, the form XObject of the source, the form XObject of the clip mask, the soft-mask
  graphic state of the clip mask, and one soft-mask graphic state whose mask is \<open>dst\<close>.
  The device has one entry, whose clip is the existing clip of the device, and which
  draws \<open>dst\<close> under the clip mask and then, under the soft mask made of \<open>dst\<close>, the
  source.\<close>

theorem srcin_isolates_destination:
  assumes mode: "paintMode p = kSrcIn_Mode"
    and region: "\<not> regionIsEmpty G cr"
    and existing: "\<not> regionIsEmpty G (fExistingClipRegion d)"
    and nonempty: "isContentEmpty d = Inr False"
    and src: "ops \<noteq> []"
    and effect: "getPathEffect p = None"
  shows "\<exists>dS d' e srcX se maskX.
     setUpContentEntry G F cs cr m p ht d = Inr (Some 0, Some (length (heapObjects d)), dS) \<and>
     heapObjects dS = heapObjects d @ [SkPDFFormXObject (deviceContent d)] \<and>
     drawWithContentEntry G F cs cr m p ht ops d = Inr d' \<and>
     heapObjects d' = heapObjects d @
       [SkPDFFormXObject (deviceContent d), SkPDFFormXObject srcX, SkPDFFormXObject maskX,
        SMaskGraphicState (length (heapObjects d) + 2) True,
        SMaskGraphicState (length (heapObjects d)) False] \<and>
     dcEntries srcX = [se] \<and> fContent se = ops \<and>
     fXObjectResources d' = [length (heapObjects d), length (heapObjects d) + 1] \<and>
     fGraphicStateResources d' =
       [ForPaint (getGraphicStateForPaint F stockPaint), SMask (length (heapObjects d) + 3),
        NoSMask, SMask (length (heapObjects d) + 4)] \<and>
     fContentEntries d' = Some 0 \<and> fLastContentEntry d' = Some 0 \<and> heapEntries d' = [e] \<and>
     fNext e = None \<and>
     fContent e = [ApplyGraphicState 1, DrawFormXObject 0, ApplyGraphicState 2,
                   ApplyGraphicState 3, DrawFormXObject 1, ApplyGraphicState 2] \<and>
     fClipStack (fState e) = fExistingClipStack d \<and>
     fClipRegion (fState e) = fExistingClipRegion d"
proof -
  let ?n = "length (heapObjects d)"
  let ?H1 = "heapObjects d @ [SkPDFFormXObject (deviceContent d)]"
  let ?cs = "effectiveClipStack G cs cr d"
  define d1 where "d1 = emptied d ?H1"
  from populate_total[OF effect] obtain st dP where
    pop: "populateGraphicStateEntryFromPaint G F m ?cs cr p ht GraphicStateEntry_new d1 = Inr (st, dP)"
    by blast
  note ch = populate_changes[OF pop]
  define dS where "dS = (emptied d ?H1)\<lparr>fGraphicStateResources := fGraphicStateResources dP,
      fShaderResources := fShaderResources dP,
      heapEntries := [\<lparr>fState = st, fContent = [], fNext = None\<rparr>],
      fContentEntries := Some 0, fLastContentEntry := Some 0\<rparr>"
  define dW where "dW = (emptied d ?H1)\<lparr>fGraphicStateResources := fGraphicStateResources dP,
      fShaderResources := fShaderResources dP,
      heapEntries := [\<lparr>fState = st, fContent = ops, fNext = None\<rparr>],
      fContentEntries := Some 0, fLastContentEntry := Some 0\<rparr>"
  have t1: "fLastContentEntry d1 = None" by (simp add: d1_def emptied_fields)
  have cr: "createFormXObjectFromDevice d = (?n, d1)"
    by (simp add: createFormXObjectFromDevice_emptied d1_def)
  have dPS: "dP\<lparr>heapEntries := [\<lparr>fState = st, fContent = [], fNext = None\<rparr>],
               fContentEntries := Some 0, fLastContentEntry := Some 0\<rparr> = dS"
    by (subst ch(1)) (simp add: dS_def d1_def)
  have se: "setUpContentEntry_entry G F ?cs cr m p ht kSrcIn_Mode d1 = Inr (Some 0, dS)"
    unfolding setUp_entry_first[OF t1 pop]
    by (simp add: d1_def emptied_fields ContentEntry_new_def dPS)
  have modes: "kSrcIn_Mode \<noteq> kClear_Mode" "kSrcIn_Mode \<noteq> kSrc_Mode" "kSrcIn_Mode \<noteq> kDst_Mode"
    "isMaskMode kSrcIn_Mode"
    by (simp_all add: isMaskMode_def)
  have su: "setUpContentEntry G F cs cr m p ht d = Inr (Some 0, Some ?n, dS)"
    unfolding setUpContentEntry.simps[of G F cs cr m p ht d]
    by (simp add: region mode modes nonempty cr se)
  have wr: "writeEntry 0 ops dS = Inr dW"
    by (simp add: writeEntry_def lookupEntry_def entryAt_def storeEntry_def dS_def dW_def)
  note fin = finishContentEntry_srcin[OF region existing src ch(2,3) dW_def, of F ?n]
  define d' where "d' = oneEntry
            (emptied d (?H1 @
               [SkPDFFormXObject (deviceContent dW),
                SkPDFFormXObject (deviceContent
                  (oneEntry (emptied d (?H1 @ [SkPDFFormXObject (deviceContent dW)]))
                     [ForPaint (getGraphicStateForPaint F stockPaint)] []
                     \<lparr>fState = stockState ?cs cr 0, fContent = paintOps G d, fNext = None\<rparr>)),
                SMaskGraphicState (Suc (length ?H1)) True,
                SMaskGraphicState ?n False]))
            [ForPaint (getGraphicStateForPaint F stockPaint), SMask (Suc (Suc (length ?H1))), NoSMask,
             SMask (Suc (Suc (Suc (length ?H1))))]
            [?n, length ?H1]
            \<lparr>fState = stockState (fExistingClipStack d) (fExistingClipRegion d) 0,
             fContent = [ApplyGraphicState 1, DrawFormXObject 0, ApplyGraphicState 2,
                         ApplyGraphicState 3, DrawFormXObject 1, ApplyGraphicState 2],
             fNext = None\<rparr>"
  have fin': "finishContentEntry G F kSrcIn_Mode (Some ?n) dW = Inr d'"
    unfolding fin d'_def by simp
  have dr: "drawWithContentEntry G F cs cr m p ht ops d = Inr d'"
    unfolding drawWithContentEntry_def su by (simp add: wr mode fin')
  have hS: "heapObjects dS = ?H1" by (simp add: dS_def emptied_fields)
  have sx: "dcEntries (deviceContent dW) = [\<lparr>fState = st, fContent = ops, fNext = None\<rparr>]"
    by (simp add: deviceContent_def dW_def)
  show ?thesis
    apply (rule exI[of _ dS], rule exI[of _ d'])
    apply (rule exI[of _ "\<lparr>fState = stockState (fExistingClipStack d) (fExistingClipRegion d) 0,
             fContent = [ApplyGraphicState 1, DrawFormXObject 0, ApplyGraphicState 2,
                         ApplyGraphicState 3, DrawFormXObject 1, ApplyGraphicState 2],
             fNext = None\<rparr>"])
    apply (rule exI[of _ "deviceContent dW"])
    apply (rule exI[of _ "\<lparr>fState = st, fContent = ops, fNext = None\<rparr>"])
    apply (rule exI[of _ "deviceContent
                  (oneEntry (emptied d (?H1 @ [SkPDFFormXObject (deviceContent dW)]))
                     [ForPaint (getGraphicStateForPaint F stockPaint)] []
                     \<lparr>fState = stockState ?cs cr 0, fContent = paintOps G d, fNext = None\<rparr>)"])
    apply (simp add: su hS dr sx)
    apply (simp add: d'_def oneEntry_fields emptied_fields stockState_fields)
    done
qed

lemma srcin_fixture_facts:
  "paintMode paintSrcIn = kSrcIn_Mode" "\<not> regionIsEmpty GT (fExistingClipRegion dev1)"
  "isContentEmpty dev1 = Inr False" "rectOps \<noteq> []" "getPathEffect paintSrcIn = None"
  "heapObjects dev1 = []" "fExistingClipStack dev1 = [clipA]" "fExistingClipRegion dev1 = regionW"
  "getGraphicStateForPaint FT stockPaint = 0"
  by (simp_all add: paintMode_def paintSrcIn_def stockPaint_def GT_def regionW_def dev1_def
        dev0_def isContentEmpty_def lookupEntry_def entryAt_def entryR_def rectOps_def FT_def)

theorem srcin_isolates_destination_witness:
  "paintMode paintSrcIn = kSrcIn_Mode \<and> \<not> regionIsEmpty GT regionW \<and>
   \<not> regionIsEmpty GT (fExistingClipRegion dev1) \<and> isContentEmpty dev1 = Inr False \<and>
   rectOps \<noteq> [] \<and> getPathEffect paintSrcIn = None \<and>
   (\<exists>dS d' e srcX se maskX.
     setUpContentEntry GT FT (Some [clipA]) regionW matrix_reset paintSrcIn False dev1 =
       Inr (Some 0, Some 0, dS) \<and>
     heapObjects dS = [SkPDFFormXObject (deviceContent dev1)] \<and>
     drawWithContentEntry GT FT (Some [clipA]) regionW matrix_reset paintSrcIn False rectOps dev1 =
       Inr d' \<and>
     heapObjects d' =
       [SkPDFFormXObject (deviceContent dev1), SkPDFFormXObject srcX, SkPDFFormXObject maskX,
        SMaskGraphicState 2 True, SMaskGraphicState 0 False] \<and>
     dcEntries srcX = [se] \<and> fContent se = rectOps \<and>
     fXObjectResources d' = [0, 1] \<and>
     fGraphicStateResources d' = [ForPaint 0, SMask 3, NoSMask, SMask 4] \<and>
     fContentEntries d' = Some 0 \<and> fLastContentEntry d' = Some 0 \<and> heapEntries d' = [e] \<and>
     fNext e = None \<and>
     fContent e = [ApplyGraphicState 1, DrawFormXObject 0, ApplyGraphicState 2,
                   ApplyGraphicState 3, DrawFormXObject 1, ApplyGraphicState 2] \<and>
     fClipStack (fState e) = [clipA] \<and> fClipRegion (fState e) = regionW)"
proof -
  from srcin_isolates_destination[OF srcin_fixture_facts(1) fixture_facts(1)
      srcin_fixture_facts(2,3,4,5), of FT "Some [clipA]" matrix_reset False]
  have "\<exists>dS d' e srcX se maskX.
     setUpContentEntry GT FT (Some [clipA]) regionW matrix_reset paintSrcIn False dev1 =
       Inr (Some 0, Some 0, dS) \<and>
     heapObjects dS = [SkPDFFormXObject (deviceContent dev1)] \<and>
     drawWithContentEntry GT FT (Some [clipA]) regionW matrix_reset paintSrcIn False rectOps dev1 =
       Inr d' \<and>
     heapObjects d' =
       [SkPDFFormXObject (deviceContent dev1), SkPDFFormXObject srcX, SkPDFFormXObject maskX,
        SMaskGraphicState 2 True, SMaskGraphicState 0 False] \<and>
     dcEntries srcX = [se] \<and> fContent se = rectOps \<and>
     fXObjectResources d' = [0, 1] \<and>
     fGraphicStateResources d' = [ForPaint 0, SMask 3, NoSMask, SMask 4] \<and>
     fContentEntries d' = Some 0 \<and> fLastContentEntry d' = Some 0 \<and> heapEntries d' = [e] \<and>
     fNext e = None \<and>
     fContent e = [ApplyGraphicState 1, DrawFormXObject 0, ApplyGraphicState 2,
                   ApplyGraphicState 3, DrawFormXObject 1, ApplyGraphicState 2] \<and>
     fClipStack (fState e) = [clipA] \<and> fClipRegion (fState e) = regionW"
    by (simp add: srcin_fixture_facts numeral_2_eq_2)
  with srcin_fixture_facts(1,2,3,4,5) fixture_facts(1) show ?thesis by simp
qed


subsection \<open>The resource tables\<close>














end
